(* ===== verification/Pilot_Prelude.thy ===== *)
theory Pilot_Prelude
  imports Complex_Main "HOL-Library.Sublist"
begin

text \<open>
  Shared vocabulary of the development: results of fallible Go functions as sums, the parts of
  Go's \<^verbatim>\<open>strings\<close> and \<^verbatim>\<open>strconv\<close> packages the sources call, first-match search in a slice, and
  the generic lemmas the component theories use. A Go \<^verbatim>\<open>string\<close> is a \<^typ>\<open>string\<close> of bytes, a Go
  pointer that may be \<^verbatim>\<open>nil\<close> an \<^typ>\<open>'a option\<close>, and \<^verbatim>\<open>int64\<close> columns and Unix seconds are
  \<^typ>\<open>int\<close>; where a width matters (parsing, overflow checks) the bound is written out.
\<close>

named_theorems result_simps "rewrites and destruction facts for results of fallible functions"

section \<open>Results of fallible functions\<close>

text \<open>
  A Go function returning \<^verbatim>\<open>(T, error)\<close> yields \<open>Inl err\<close> or \<open>Inr value\<close>. The idiom
  \<^verbatim>\<open>if err != nil { return err }\<close> is \<open>and_then\<close>.
\<close>

definition and_then :: "'e + 'a \<Rightarrow> ('a \<Rightarrow> 'e + 'b) \<Rightarrow> 'e + 'b" where
  "and_then r f = (case r of Inl e \<Rightarrow> Inl e | Inr x \<Rightarrow> f x)"

lemma and_then_simps [simp, result_simps]:
  "and_then (Inl e) f = Inl e" "and_then (Inr x) f = f x"
  by (simp_all add: and_then_def)

lemma and_then_Inr_conv [result_simps]:
  "and_then r f = Inr y \<longleftrightarrow> (\<exists>x. r = Inr x \<and> f x = Inr y)"
  by (cases r) auto

lemma and_then_Inl_conv [result_simps]:
  "and_then r f = Inl e \<longleftrightarrow> r = Inl e \<or> (\<exists>x. r = Inr x \<and> f x = Inl e)"
  by (cases r) auto

lemma and_then_InrE:
  assumes "and_then r f = Inr y"
  obtains x where "r = Inr x" "f x = Inr y"
  using assms by (auto simp: and_then_Inr_conv)

text \<open>Running a fallible step over a slice, stopping at the first error.\<close>

fun map_result :: "('a \<Rightarrow> 'e + 'b) \<Rightarrow> 'a list \<Rightarrow> 'e + 'b list" where
  "map_result f [] = Inr []"
| "map_result f (x # xs) = and_then (f x) (\<lambda>y. and_then (map_result f xs) (\<lambda>ys. Inr (y # ys)))"

lemma map_result_Inr_set:
  "map_result f xs = Inr ys \<Longrightarrow> y \<in> set ys \<Longrightarrow> \<exists>x \<in> set xs. f x = Inr y"
  by (induction xs arbitrary: ys) (auto simp: and_then_Inr_conv)

lemma map_result_Inr_length: "map_result f xs = Inr ys \<Longrightarrow> length ys = length xs"
  by (induction xs arbitrary: ys) (auto simp: and_then_Inr_conv)

section \<open>Byte strings: the \<^verbatim>\<open>strings\<close> package\<close>

text \<open>
  The UTF-8 encodings of the code points with the White\_Space property: \<^verbatim>\<open>strings.TrimSpace\<close>
  removes exactly these from both ends. Every encoding starts with a byte that starts a rune, so
  removing a matching prefix or suffix of bytes is what decoding the first or last rune does.
\<close>

definition go_spaces :: "string list" where
  "go_spaces =
     map (\<lambda>n::nat. [char_of n]) [9, 10, 11, 12, 13, 32]
     @ map (map (char_of :: nat \<Rightarrow> char))
         [[194, 133], [194, 160], [225, 154, 128], [226, 128, 128], [226, 128, 129], [226, 128, 130],
          [226, 128, 131], [226, 128, 132], [226, 128, 133], [226, 128, 134], [226, 128, 135],
          [226, 128, 136], [226, 128, 137], [226, 128, 138], [226, 128, 168], [226, 128, 169],
          [226, 128, 175], [226, 129, 159], [227, 128, 128]]"

text \<open>\<open>strip_front ps s\<close> removes members of \<open>ps\<close> from the front of \<open>s\<close> while one matches.\<close>

function strip_front :: "string list \<Rightarrow> string \<Rightarrow> string" where
  "strip_front ps s =
     (case find (\<lambda>p. p \<noteq> [] \<and> prefix p s) ps of
        None \<Rightarrow> s
      | Some p \<Rightarrow> strip_front ps (drop (length p) s))"
  by pat_completeness auto
termination
proof (relation "measure (\<lambda>(ps, s). length s)")
  fix ps :: "string list" and s p
  assume "find (\<lambda>p. p \<noteq> [] \<and> prefix p s) ps = Some p"
  then have "p \<noteq> []" "prefix p s" by (auto simp: find_Some_iff)
  then show "((ps, drop (length p) s), ps, s) \<in> measure (\<lambda>(ps, s). length s)"
    by (auto simp: prefix_def)
qed simp

declare strip_front.simps [simp del]

text \<open>For evaluation, the encodings as literals and the search without a case distinction.\<close>

lemma go_spaces_code [code]:
  "go_spaces = [[CHR 0x09], [CHR 0x0A], [CHR 0x0B], [CHR 0x0C], [CHR 0x0D], [CHR 0x20], [CHR 0xC2, CHR 0x85], [CHR
     0xC2, CHR 0xA0], [CHR 0xE1, CHR 0x9A, CHR 0x80], [CHR 0xE2, CHR 0x80, CHR 0x80], [CHR 0xE2, CHR 0x80, CHR 0x81],
     [CHR 0xE2, CHR 0x80, CHR 0x82], [CHR 0xE2, CHR 0x80, CHR 0x83], [CHR 0xE2, CHR 0x80, CHR 0x84], [CHR 0xE2, CHR
     0x80, CHR 0x85], [CHR 0xE2, CHR 0x80, CHR 0x86], [CHR 0xE2, CHR 0x80, CHR 0x87], [CHR 0xE2, CHR 0x80, CHR 0x88],
     [CHR 0xE2, CHR 0x80, CHR 0x89], [CHR 0xE2, CHR 0x80, CHR 0x8A], [CHR 0xE2, CHR 0x80, CHR 0xA8], [CHR 0xE2, CHR
     0x80, CHR 0xA9], [CHR 0xE2, CHR 0x80, CHR 0xAF], [CHR 0xE2, CHR 0x81, CHR 0x9F], [CHR 0xE3, CHR 0x80, CHR 0x80]]"
  by (simp add: go_spaces_def char_of_def bit_0)

lemma find_filter: "find P xs = (if filter P xs = [] then None else Some (hd (filter P xs)))"
  by (induction xs) auto

lemma strip_front_code [code]:
  "strip_front ps s = (if list_ex (\<lambda>p. p \<noteq> [] \<and> prefix p s) ps
     then strip_front ps (drop (length (hd (filter (\<lambda>p. p \<noteq> [] \<and> prefix p s) ps))) s) else s)"
  by (subst strip_front.simps) (auto simp: find_filter filter_empty_conv list_ex_iff)

definition TrimSpace :: "string \<Rightarrow> string" where
  "TrimSpace s = rev (strip_front (map rev go_spaces) (rev (strip_front go_spaces s)))"

text \<open>
  \<^verbatim>\<open>strings.ToLower\<close>, exact on whether the result equals, or contains, an ASCII text: ASCII letters
  are lowered and the two non-ASCII code points whose lower case is an ASCII letter (U+0130 and
  U+212A) are folded; any other non-ASCII rune stays outside ASCII.
\<close>

definition lower_byte :: "char \<Rightarrow> char" where
  "lower_byte c =
     (let n = of_char c :: nat in if 65 \<le> n \<and> n \<le> 90 then char_of (n + 32) else c)"

fun ToLower :: "string \<Rightarrow> string" where
  "ToLower [] = []"
| "ToLower (c # cs) =
     (if prefix (map char_of [196, 176 :: nat]) (c # cs) then CHR ''i'' # ToLower (drop 1 cs)
      else if prefix (map char_of [226, 132, 170 :: nat]) (c # cs) then CHR ''k'' # ToLower (drop 2 cs)
      else lower_byte c # ToLower cs)"

declare ToLower.simps(2) [simp del]

definition ContainsAny :: "string \<Rightarrow> char list \<Rightarrow> bool" where
  "ContainsAny s cs = (\<exists>c \<in> set cs. c \<in> set s)"

definition ctl_chars :: "char list" where
  "ctl_chars = [CHR 0x00, CHR 0x0D, CHR 0x0A]"

text \<open>\<^verbatim>\<open>strings.SplitN(s, sep, 2)\<close> for a one-byte separator: the part before the first separator and, if
  there is one, the part after it.\<close>

definition split_once :: "char \<Rightarrow> string \<Rightarrow> string \<times> string option" where
  "split_once c s =
     (let front = takeWhile (\<lambda>x. x \<noteq> c) s; rest = dropWhile (\<lambda>x. x \<noteq> c) s
      in (front, if rest = [] then None else Some (tl rest)))"

definition TrimPrefix :: "string \<Rightarrow> string \<Rightarrow> string" where
  "TrimPrefix s p = (if prefix p s then drop (length p) s else s)"

definition TrimSuffix :: "string \<Rightarrow> string \<Rightarrow> string" where
  "TrimSuffix s p = (if suffix p s then take (length s - length p) s else s)"

definition TrimRight1 :: "string \<Rightarrow> char \<Rightarrow> string" where
  "TrimRight1 s c = rev (dropWhile (\<lambda>x. x = c) (rev s))"

section \<open>Decimal integers: the \<^verbatim>\<open>strconv\<close> package\<close>

definition is_digit :: "char \<Rightarrow> bool" where
  "is_digit c \<longleftrightarrow> c \<in> set ''0123456789''"

definition digit_char :: "nat \<Rightarrow> char" where
  "digit_char d = ''0123456789'' ! d"

definition digit_value :: "char \<Rightarrow> nat" where
  "digit_value c = of_char c - 48"

fun show_nat :: "nat \<Rightarrow> string" where
  "show_nat n = (if n < 10 then [digit_char n] else show_nat (n div 10) @ [digit_char (n mod 10)])"

declare show_nat.simps [simp del]

definition FormatInt :: "int \<Rightarrow> string" where
  "FormatInt i = (if i < 0 then CHR ''-'' # show_nat (nat (- i)) else show_nat (nat i))"

definition digits_value :: "string \<Rightarrow> nat" where
  "digits_value s = foldl (\<lambda>a c. 10 * a + digit_value c) 0 s"

definition int64_ok :: "int \<Rightarrow> bool" where
  "int64_ok i \<longleftrightarrow> - (2 ^ 63) \<le> i \<and> i < 2 ^ 63"

text \<open>\<^verbatim>\<open>strconv.ParseInt(s, 10, 64)\<close>: an optional sign, at least one digit, and a value in range.\<close>

definition ParseInt64 :: "string \<Rightarrow> int option" where
  "ParseInt64 s =
     (let neg = prefix ''-'' s;
          body = (if prefix ''-'' s \<or> prefix ''+'' s then tl s else s);
          v = (if neg then - int (digits_value body) else int (digits_value body))
      in if body \<noteq> [] \<and> list_all is_digit body \<and> int64_ok v then Some v else None)"

lemma less_10_cases:
  "(n::nat) < 10 \<Longrightarrow> n = 0 \<or> n = 1 \<or> n = 2 \<or> n = 3 \<or> n = 4 \<or> n = 5 \<or> n = 6 \<or> n = 7 \<or> n = 8 \<or> n = 9"
  by arith

lemma digit_char_facts:
  assumes "n < 10"
  shows "is_digit (digit_char n)" "digit_value (digit_char n) = n"
    and "digit_char n \<noteq> CHR ''-''" "digit_char n \<noteq> CHR ''+''" "digit_char n \<noteq> CHR ''/''"
  using less_10_cases [OF assms]
  by (auto simp: is_digit_def digit_char_def digit_value_def)

lemma is_digit_not_special:
  "is_digit c \<Longrightarrow> c \<noteq> CHR ''-'' \<and> c \<noteq> CHR ''+'' \<and> c \<noteq> CHR ''/'' \<and> c \<noteq> CHR ''.''"
  by (auto simp: is_digit_def)

lemma digits_value_snoc: "digits_value (s @ [c]) = 10 * digits_value s + digit_value c"
  by (simp add: digits_value_def)

lemma show_nat_digits: "list_all is_digit (show_nat n)"
proof (induction n rule: show_nat.induct)
  case (1 n)
  then show ?case
    by (subst show_nat.simps) (auto simp: digit_char_facts)
qed

lemma show_nat_nonempty [simp]: "show_nat n \<noteq> []"
  by (subst show_nat.simps) simp

lemma digits_value_show_nat [simp]: "digits_value (show_nat n) = n"
proof (induction n rule: show_nat.induct)
  case (1 n)
  show ?case
  proof (cases "n < 10")
    case True
    then show ?thesis
      by (subst show_nat.simps) (simp add: digits_value_def digit_char_facts)
  next
    case False
    then have "digits_value (show_nat n) = 10 * (n div 10) + n mod 10"
      using "1" by (subst show_nat.simps) (simp add: digits_value_snoc digit_char_facts)
    then show ?thesis by simp
  qed
qed

lemma show_nat_inject [simp]: "show_nat m = show_nat n \<longleftrightarrow> m = n"
  by (metis digits_value_show_nat)

lemma show_nat_not_sign: "show_nat n \<noteq> CHR ''-'' # s" "show_nat n \<noteq> CHR ''+'' # s"
  using show_nat_digits [of n] by (auto simp: is_digit_def)

lemma FormatInt_nonempty [simp]: "FormatInt i \<noteq> []"
  by (simp add: FormatInt_def)

lemma FormatInt_inject [simp]: "FormatInt i = FormatInt j \<longleftrightarrow> i = j"
  by (auto simp: FormatInt_def show_nat_not_sign show_nat_not_sign [symmetric])

text \<open>For evaluation, the digits are computed on binary integers instead of unary naturals.\<close>

function show_int :: "int \<Rightarrow> string" where
  "show_int i = (if i < 10 then [digit_char (nat i)] else show_int (i div 10) @ [digit_char (nat (i mod 10))])"
  by pat_completeness auto
termination by (relation "measure nat") auto

declare show_int.simps [simp del]

lemma show_int_nat: "0 \<le> i \<Longrightarrow> show_int i = show_nat (nat i)"
proof (induction i rule: show_int.induct)
  case (1 i)
  show ?case
  proof (cases "i < 10")
    case True
    then show ?thesis using 1(2) by (simp add: show_int.simps [of i] show_nat.simps [of "nat i"])
  next
    case False
    then have "show_int (i div 10) = show_nat (nat i div 10)" using 1 by (simp add: nat_div_distrib)
    moreover have "nat (i mod 10) = nat i mod 10" using False by (simp add: nat_mod_distrib)
    ultimately show ?thesis using False by (simp add: show_int.simps [of i] show_nat.simps [of "nat i"])
  qed
qed

lemma FormatInt_code [code]: "FormatInt i = (if i < 0 then CHR ''-'' # show_int (- i) else show_int i)"
  by (simp add: FormatInt_def show_int_nat)

text \<open>Round trip of the two conversions: what every canonical identifier check in the sources relies on.\<close>

lemma not_prefix_sign_show_nat [simp]:
  "\<not> prefix ''-'' (show_nat n)" "\<not> prefix ''+'' (show_nat n)"
  using show_nat_digits [of n] by (auto simp: prefix_def is_digit_def)

lemma ParseInt64_FormatInt: "int64_ok i \<Longrightarrow> ParseInt64 (FormatInt i) = Some i"
proof (cases "i < 0")
  case True
  moreover assume "int64_ok i"
  ultimately show ?thesis
    by (simp add: ParseInt64_def FormatInt_def show_nat_digits)
next
  case False
  moreover assume "int64_ok i"
  ultimately show ?thesis
    by (simp add: ParseInt64_def FormatInt_def show_nat_digits)
qed

lemma FormatInt_no_slash: "CHR ''/'' \<notin> set (FormatInt i)"
proof -
  have "CHR ''/'' \<notin> set (show_nat n)" for n
    using show_nat_digits [of n] by (auto simp: list_all_iff is_digit_def)
  then show ?thesis by (simp add: FormatInt_def)
qed

lemma FormatInt_no_colon: "CHR '':'' \<notin> set (FormatInt i)"
proof -
  have "\<not> is_digit (CHR '':'')" by (simp add: is_digit_def)
  then have "CHR '':'' \<notin> set (show_nat n)" for n
    using show_nat_digits [of n] by (auto simp: list_all_iff)
  then show ?thesis by (simp add: FormatInt_def)
qed

lemma snoc_sep_inject:
  assumes "xs @ c # ys = us @ c # vs" "c \<notin> set ys" "c \<notin> set vs"
  shows "xs = us" "ys = vs"
proof -
  have stop: "takeWhile (\<lambda>x. x \<noteq> c) (rev (as @ c # bs)) = rev bs" if "c \<notin> set bs" for as bs
    using that takeWhile_append2 [of "rev bs" "\<lambda>x. x \<noteq> c" "c # rev as"] by auto
  from stop [OF assms(2), of xs] stop [OF assms(3), of us] show "ys = vs" using assms(1) by simp
  then show "xs = us" using assms(1) by simp
qed

text \<open>Two different multiples of a bucket length are at least one bucket apart.\<close>

lemma aligned_gap:
  fixes a b n :: int
  assumes "a mod n = 0" "b mod n = 0" "a < b"
  shows "a + n \<le> b"
proof -
  have "n dvd b - a" using assms(1,2) by (simp add: dvd_diff mod_0_imp_dvd)
  then show ?thesis using assms(3) zdvd_imp_le [of n "b - a"] by simp
qed

section \<open>First match in a slice\<close>

lemma find_Some_set: "find P xs = Some x \<Longrightarrow> x \<in> set xs \<and> P x"
  by (auto simp: find_Some_iff)

lemma find_exists: "x \<in> set xs \<Longrightarrow> P x \<Longrightarrow> \<exists>y. find P xs = Some y"
  by (cases "find P xs") (auto simp: find_None_iff)

text \<open>Replacing the elements of a slice that satisfy a predicate: an SQL \<^verbatim>\<open>UPDATE ... WHERE\<close>.\<close>

definition update_where :: "('a \<Rightarrow> bool) \<Rightarrow> ('a \<Rightarrow> 'a) \<Rightarrow> 'a list \<Rightarrow> 'a list" where
  "update_where P f xs = map (\<lambda>x. if P x then f x else x) xs"

lemma update_where_simps [simp]:
  "update_where P f [] = []"
  "update_where P f (x # xs) = (if P x then f x else x) # update_where P f xs"
  by (simp_all add: update_where_def)

lemma set_update_where: "set (update_where P f xs) = {if P x then f x else x |x. x \<in> set xs}"
  by (auto simp: update_where_def)

lemma length_update_where [simp]: "length (update_where P f xs) = length xs"
  by (simp add: update_where_def)

lemma map_update_where:
  assumes "\<And>x. g (f x) = g x"
  shows "map g (update_where P f xs) = map g xs"
  using assms by (induction xs) auto

section \<open>Invariants of step relations\<close>

text \<open>
  The contract every stateful component of the development proves: a set of start states, a step
  relation, and a predicate that holds at the start and that every step keeps. Reachability is the
  reflexive transitive closure of the step relation.
\<close>

locale invariant_system =
  fixes start :: "'s \<Rightarrow> bool" and step :: "'s \<Rightarrow> 's \<Rightarrow> bool" and inv :: "'s \<Rightarrow> bool"
  assumes start_inv: "start s \<Longrightarrow> inv s"
    and step_inv: "inv s \<Longrightarrow> step s t \<Longrightarrow> inv t"
begin

lemma steps_inv: "step\<^sup>*\<^sup>* s t \<Longrightarrow> inv s \<Longrightarrow> inv t"
  by (induction rule: rtranclp_induct) (auto intro: step_inv)

lemma reachable_inv: "start s \<Longrightarrow> step\<^sup>*\<^sup>* s t \<Longrightarrow> inv t"
  by (blast intro: steps_inv start_inv)

text \<open>A quantity that no step lowers is monotone along a run.\<close>

lemma steps_monotone:
  fixes f :: "'s \<Rightarrow> 'o::preorder"
  assumes "\<And>s t. inv s \<Longrightarrow> step s t \<Longrightarrow> f s \<le> f t" "step\<^sup>*\<^sup>* s t" "inv s"
  shows "f s \<le> f t"
  using assms(2,3)
proof (induction rule: rtranclp_induct)
  case base
  show ?case by simp
next
  case (step t u)
  then have "f s \<le> f t" by blast
  also have "f t \<le> f u" using step assms(1) steps_inv by blast
  finally show ?case .
qed

end

end
