(* ===== verification/Upstream_Governor.thy ===== *)
theory Upstream_Governor
  imports Pilot_Prelude "HOL-Library.Multiset"
begin

text \<open>
  The per-origin request governor of \<^verbatim>\<open>service/upstream_governor.go\<close>: the normalisation of its
  options, and the goroutine \<^verbatim>\<open>run\<close> that owns two FIFO queues, the set of granted requests, the
  pacing timestamps and the cooldown. One loop iteration is \<open>dispatch\<close> followed by the receipt of
  one channel message (\<open>handle\<close>). Times are nanoseconds counted from Go's zero \<^verbatim>\<open>time.Time\<close>, so
  the zero value is \<open>0\<close> and every clock reading is positive. A timer channel is the time at which
  it fires, or \<open>None\<close> for a nil channel.
\<close>

section \<open>Options\<close>

datatype UpstreamRequestClass = UpstreamRequestRoutine | UpstreamRequestBulk

record UpstreamGovernorOptions =
  optRequests :: int
  optWindow :: int
  optMaxInFlight :: int
  optHasClock :: bool

record upstreamGovernorConfig =
  interval :: int
  window :: int
  maxInFlight :: int

datatype governor_error = OptionsInvalid | IntervalTooShort

definition second :: int where "second = 1000000000"

definition normalizeUpstreamGovernorOptions ::
    "UpstreamGovernorOptions \<Rightarrow> governor_error + upstreamGovernorConfig" where
  "normalizeUpstreamGovernorOptions opts =
     (let requests = (if optRequests opts = 0 then 300 else optRequests opts);
          win = (if optWindow opts = 0 then 180 * second else optWindow opts);
          maxf = (if optMaxInFlight opts = 0 then 4 else optMaxInFlight opts)
      in if requests < 0 \<or> win < 0 \<or> maxf < 0 \<or> \<not> optHasClock opts then Inl OptionsInvalid
         else let iv = win div requests
              in if iv < 10000000 then Inl IntervalTooShort
                 else Inr \<lparr>interval = iv, window = win, maxInFlight = maxf\<rparr>)"

section \<open>State of one origin\<close>

record upstreamAcquireRequest =
  req_id :: nat
  req_class :: UpstreamRequestClass

record origin_state =
  routine :: "upstreamAcquireRequest list"
  bulk :: "upstreamAcquireRequest list"
  granted :: "nat set"
  inFlight :: int
  nextAllowed :: int
  lastGrantedAt :: int
  cooldownUntil :: int
  fairnessIndex :: nat
  timerC :: "int option"

definition origin_start :: origin_state where
  "origin_start = \<lparr>routine = [], bulk = [], granted = {}, inFlight = 0, nextAllowed = 0,
     lastGrantedAt = 0, cooldownUntil = 0, fairnessIndex = 0, timerC = None\<rparr>"

fun remove_req :: "upstreamAcquireRequest list \<Rightarrow> nat \<Rightarrow> upstreamAcquireRequest list \<times> bool" where
  "remove_req [] i = ([], False)"
| "remove_req (r # rs) i =
     (if req_id r = i then (rs, True)
      else let (rs', found) = remove_req rs i in (r # rs', found))"

definition pick :: "origin_state \<Rightarrow> (upstreamAcquireRequest \<times> origin_state) option" where
  "pick s =
     (case (routine s, bulk s) of
        ([], []) \<Rightarrow> None
      | ([], b # bs) \<Rightarrow> Some (b, s\<lparr>bulk := bs\<rparr>)
      | (r # rs, []) \<Rightarrow> Some (r, s\<lparr>routine := rs\<rparr>)
      | (r # rs, b # bs) \<Rightarrow>
          let useBulk = fairnessIndex s = 3;
              s' = s\<lparr>fairnessIndex := (fairnessIndex s + 1) mod 4\<rparr>
          in if useBulk then Some (b, s'\<lparr>bulk := bs\<rparr>) else Some (r, s'\<lparr>routine := rs\<rparr>))"

definition resetTimer :: "int \<Rightarrow> int \<Rightarrow> origin_state \<Rightarrow> origin_state" where
  "resetTimer now delay s = s\<lparr>timerC := Some (now + (if delay < 0 then 0 else delay))\<rparr>"

definition waiting :: "origin_state \<Rightarrow> bool" where
  "waiting s \<longleftrightarrow> routine s \<noteq> [] \<or> bulk s \<noteq> []"

definition readyAt :: "origin_state \<Rightarrow> int" where
  "readyAt s = (if cooldownUntil s > nextAllowed s then cooldownUntil s else nextAllowed s)"

definition grant :: "upstreamGovernorConfig \<Rightarrow> int \<Rightarrow> nat \<Rightarrow> origin_state \<Rightarrow> origin_state" where
  "grant config now i s =
     (let s' = s\<lparr>inFlight := inFlight s + 1, granted := insert i (granted s), lastGrantedAt := now,
                 nextAllowed := now + interval config\<rparr>
      in if inFlight s' < maxInFlight config \<and> waiting s'
         then resetTimer now (interval config) s' else s')"

definition dispatch ::
    "upstreamGovernorConfig \<Rightarrow> int \<Rightarrow> origin_state \<Rightarrow> origin_state \<times> upstreamAcquireRequest option" where
  "dispatch config now s0 =
     (let s = s0\<lparr>timerC := None\<rparr>
      in if inFlight s \<ge> maxInFlight config \<or> \<not> waiting s then (s, None)
         else if readyAt s > now then (resetTimer now (readyAt s - now) s, None)
         else case pick s of
                None \<Rightarrow> (s, None)
              | Some (request, s') \<Rightarrow> (grant config now (req_id request) s', Some request))"

section \<open>Channel messages\<close>

datatype gov_event =
    EnqueueEv upstreamAcquireRequest
  | CancelEv nat
  | ReleaseEv nat
  | CooldownEv int
  | ReloadEv
  | TimerEv

definition release :: "nat \<Rightarrow> origin_state \<Rightarrow> origin_state" where
  "release i s =
     (if i \<in> granted s then s\<lparr>granted := granted s - {i}, inFlight := inFlight s - 1\<rparr> else s)"

fun handle :: "upstreamGovernorConfig \<Rightarrow> gov_event \<Rightarrow> origin_state \<Rightarrow> origin_state" where
  "handle config (EnqueueEv request) s =
     (if req_class request = UpstreamRequestBulk then s\<lparr>bulk := bulk s @ [request]\<rparr>
      else s\<lparr>routine := routine s @ [request]\<rparr>)"
| "handle config (CancelEv i) s =
     (let (routine', removed) = remove_req (routine s) i; s1 = s\<lparr>routine := routine'\<rparr>
      in if removed then s1
         else let (bulk', removed') = remove_req (bulk s1) i; s2 = s1\<lparr>bulk := bulk'\<rparr>
              in if removed' then s2 else release i s2)"
| "handle config (ReleaseEv i) s = release i s"
| "handle config (CooldownEv until) s =
     (if until > cooldownUntil s then s\<lparr>cooldownUntil := until\<rparr> else s)"
| "handle config ReloadEv s =
     (if lastGrantedAt s \<noteq> 0 \<and> lastGrantedAt s + interval config > nextAllowed s
      then s\<lparr>nextAllowed := lastGrantedAt s + interval config\<rparr> else s)"
| "handle config TimerEv s = s\<lparr>timerC := None\<rparr>"

text \<open>\<^verbatim>\<open>ObserveRateLimit\<close>: the cooldown message sent for an upstream 429.\<close>

definition observeRateLimit :: "upstreamGovernorConfig \<Rightarrow> int \<Rightarrow> int \<Rightarrow> bool \<Rightarrow> gov_event" where
  "observeRateLimit config now retryAfter hasRetryAfter =
     (let delay = (if hasRetryAfter \<and> retryAfter > 0 then retryAfter else window config);
          capped = (if delay > 3600 * second then 3600 * second else delay)
      in CooldownEv (now + capped))"

section \<open>Runs\<close>

text \<open>
  The goroutine together with its environment: the clock, the shared configuration pointer, the
  identifiers already handed out by the atomic sequence, and the grants made so far (newest first).
  \<open>awaiting\<close> tells whether the loop is between \<open>dispatch\<close> and the receipt of a message. A cooldown
  message carries the deadline its sender computed, at an earlier clock reading and with the
  configuration loaded then. The loop accepts any message in any order, so the steps also cover
  cancel and release messages for identifiers that are no longer known.
\<close>

record governor =
  clock :: int
  config :: upstreamGovernorConfig
  origin :: origin_state
  issued :: "nat set"
  awaiting :: bool
  grants :: "(nat \<times> int) list"

definition governor_start :: "governor \<Rightarrow> bool" where
  "governor_start g \<longleftrightarrow> 0 < clock g
     \<and> (\<exists>opts. normalizeUpstreamGovernorOptions opts = Inr (config g)) \<and> origin g = origin_start
     \<and> \<not> awaiting g \<and> grants g = []"

inductive governor_step :: "governor \<Rightarrow> governor \<Rightarrow> bool" where
  tick: "clock g \<le> now \<Longrightarrow> governor_step g (g\<lparr>clock := now\<rparr>)"
| dispatching: "\<not> awaiting g \<Longrightarrow> dispatch (config g) (clock g) (origin g) = (s, r) \<Longrightarrow>
     governor_step g (g\<lparr>origin := s, awaiting := True,
       grants := (case r of None \<Rightarrow> grants g | Some q \<Rightarrow> (req_id q, clock g) # grants g)\<rparr>)"
| enqueuing: "awaiting g \<Longrightarrow> req_id q \<notin> issued g \<Longrightarrow>
     governor_step g (g\<lparr>origin := handle (config g) (EnqueueEv q) (origin g), awaiting := False,
       issued := insert (req_id q) (issued g)\<rparr>)"
| cancelling: "awaiting g \<Longrightarrow>
     governor_step g (g\<lparr>origin := handle (config g) (CancelEv i) (origin g), awaiting := False\<rparr>)"
| releasing: "awaiting g \<Longrightarrow>
     governor_step g (g\<lparr>origin := handle (config g) (ReleaseEv i) (origin g), awaiting := False\<rparr>)"
| cooling: "awaiting g \<Longrightarrow> observed \<le> clock g \<Longrightarrow>
     governor_step g (g\<lparr>origin := handle (config g) (observeRateLimit c observed d has) (origin g),
       awaiting := False\<rparr>)"
| reloading: "awaiting g \<Longrightarrow>
     governor_step g (g\<lparr>origin := handle (config g) ReloadEv (origin g), awaiting := False\<rparr>)"
| timing: "awaiting g \<Longrightarrow> timerC (origin g) = Some due \<Longrightarrow> due \<le> clock g \<Longrightarrow>
     governor_step g (g\<lparr>origin := handle (config g) TimerEv (origin g), awaiting := False\<rparr>)"

text \<open>\<^verbatim>\<open>Reconfigure\<close> swaps the configuration pointer at any moment (its reload message is \<open>reloading\<close>).\<close>

inductive governor_step_reconf :: "governor \<Rightarrow> governor \<Rightarrow> bool" where
  plain: "governor_step g h \<Longrightarrow> governor_step_reconf g h"
| reconfigure: "normalizeUpstreamGovernorOptions opts = Inr c \<Longrightarrow>
     governor_step_reconf g (g\<lparr>config := c\<rparr>)"

inductive_cases governor_step_reconfE: "governor_step_reconf g h"

section \<open>Well-formed origin states\<close>

lemma normalize_bounds:
  assumes "normalizeUpstreamGovernorOptions opts = Inr c"
  shows "10000000 \<le> interval c" "0 < maxInFlight c" "0 < window c"
  using assms
  by (auto simp: normalizeUpstreamGovernorOptions_def Let_def second_def split: if_splits)

lemma normalize_interval:
  assumes "normalizeUpstreamGovernorOptions opts = Inr c" "0 < optRequests opts" "0 < optWindow opts"
  shows "interval c = optWindow opts div optRequests opts"
  using assms by (auto simp: normalizeUpstreamGovernorOptions_def Let_def split: if_splits)

definition queued :: "origin_state \<Rightarrow> nat list" where
  "queued s = map req_id (routine s) @ map req_id (bulk s)"

definition origin_inv :: "origin_state \<Rightarrow> bool" where
  "origin_inv s \<longleftrightarrow> finite (granted s) \<and> inFlight s = int (card (granted s))
     \<and> distinct (queued s) \<and> set (queued s) \<inter> granted s = {} \<and> fairnessIndex s < 4"

lemma waiting_queued: "waiting s \<longleftrightarrow> queued s \<noteq> []"
  by (simp add: waiting_def queued_def)

lemma pick_None_iff: "pick s = None \<longleftrightarrow> \<not> waiting s"
  by (auto simp: pick_def waiting_def Let_def split: list.splits)

text \<open>Picking removes exactly one queued request and touches nothing else but the fairness index.\<close>

lemma pick_Some:
  assumes "pick s = Some (q, s')"
  shows "mset (queued s) = add_mset (req_id q) (mset (queued s'))"
    and "granted s' = granted s" "inFlight s' = inFlight s" "timerC s' = timerC s"
    and "nextAllowed s' = nextAllowed s" "cooldownUntil s' = cooldownUntil s"
    and "lastGrantedAt s' = lastGrantedAt s" "fairnessIndex s < 4 \<Longrightarrow> fairnessIndex s' < 4"
  using assms
  by (auto simp: pick_def queued_def Let_def split: list.splits if_splits)

lemma drop_queued_inv:
  assumes "origin_inv s" "mset (queued s) = add_mset i (mset (queued t))"
    and "granted t = granted s" "inFlight t = inFlight s" "fairnessIndex t < 4"
  shows "origin_inv t" "i \<notin> set (queued t)" "i \<notin> granted t" "set (queued s) = insert i (set (queued t))"
proof -
  have d: "distinct (i # queued t)"
    using assms(1,2) by (metis mset.simps(2) mset_eq_imp_distinct_iff origin_inv_def)
  show st: "set (queued s) = insert i (set (queued t))"
    using assms(2) by (metis mset.simps(2) mset_eq_setD list.simps(15))
  show "origin_inv t" "i \<notin> set (queued t)" "i \<notin> granted t"
    using assms d st by (auto simp: origin_inv_def)
qed

lemma pick_inv:
  assumes "pick s = Some (q, s')" "origin_inv s"
  shows "origin_inv s'" "req_id q \<notin> granted s'" "req_id q \<notin> set (queued s')"
    and "set (queued s) = insert (req_id q) (set (queued s'))"
proof -
  have "fairnessIndex s' < 4"
    using assms(2) pick_Some(8) [OF assms(1)] by (simp add: origin_inv_def)
  from drop_queued_inv [OF assms(2) pick_Some(1-3) [OF assms(1)] this]
  show "origin_inv s'" "req_id q \<notin> granted s'" "req_id q \<notin> set (queued s')"
    "set (queued s) = insert (req_id q) (set (queued s'))" by simp_all
qed

lemma grant_simps [simp]:
  "routine (grant c t i s) = routine s" "bulk (grant c t i s) = bulk s"
  "granted (grant c t i s) = insert i (granted s)" "inFlight (grant c t i s) = inFlight s + 1"
  "nextAllowed (grant c t i s) = t + interval c" "lastGrantedAt (grant c t i s) = t"
  "cooldownUntil (grant c t i s) = cooldownUntil s" "fairnessIndex (grant c t i s) = fairnessIndex s"
  by (simp_all add: grant_def resetTimer_def Let_def)

lemma queued_grant [simp]: "queued (grant c t i s) = queued s"
  by (simp add: queued_def)

lemma grant_inv: "origin_inv s \<Longrightarrow> i \<notin> granted s \<Longrightarrow> i \<notin> set (queued s) \<Longrightarrow> origin_inv (grant c t i s)"
  by (auto simp: origin_inv_def)

text \<open>What a dispatch does: it either only re-arms the timer, or grants one queued request.\<close>

lemma dispatch_cases:
  assumes "dispatch c now s = (s', r)"
  obtains (idle) u where "s' = s\<lparr>timerC := u\<rparr>" "r = None"
  | (granting) q s1 where "r = Some q" "pick (s\<lparr>timerC := None\<rparr>) = Some (q, s1)"
      "s' = grant c now (req_id q) s1" "inFlight s < maxInFlight c" "readyAt s \<le> now"
  using assms
  by (auto simp: dispatch_def Let_def resetTimer_def readyAt_def pick_None_iff waiting_def
      split: if_splits option.splits)

lemma queued_timerC [simp]: "queued (s\<lparr>timerC := u\<rparr>) = queued s"
  by (simp add: queued_def)

lemma origin_inv_timerC [simp]: "origin_inv (s\<lparr>timerC := u\<rparr>) = origin_inv s"
  by (simp add: origin_inv_def)

lemma dispatch_inv:
  assumes "dispatch c now s = (s', r)" "origin_inv s"
  shows "origin_inv s' \<and> set (queued s') \<union> granted s' = set (queued s) \<union> granted s"
  using assms(1)
proof (cases rule: dispatch_cases)
  case (granting q s1)
  have inv: "origin_inv (s\<lparr>timerC := None\<rparr>)" using assms(2) by simp
  note p = pick_inv [OF granting(2) inv] pick_Some(2) [OF granting(2)]
  then show ?thesis using granting(3) by (auto simp: grant_inv)
qed (use assms(2) in auto)

lemma remove_req_False: "\<not> snd (remove_req rs i) \<Longrightarrow> fst (remove_req rs i) = rs \<and> i \<notin> req_id ` set rs"
  by (induction rs) (auto split: prod.splits if_splits)

lemma remove_req_True:
  "snd (remove_req rs i) \<Longrightarrow> mset (map req_id rs) = add_mset i (mset (map req_id (fst (remove_req rs i))))"
  by (induction rs) (auto split: prod.splits if_splits)

lemma release_inv: "origin_inv s \<Longrightarrow> origin_inv (release i s)"
proof -
  assume inv: "origin_inv s"
  have "i \<in> granted s \<Longrightarrow> card (granted s) > 0" using inv by (auto simp: origin_inv_def card_gt_0_iff)
  then show ?thesis using inv by (auto simp: origin_inv_def release_def queued_def of_nat_diff Suc_leI)
qed

lemma release_ids: "set (queued (release i s)) = set (queued s)" "granted (release i s) = granted s - {i}"
  by (auto simp: release_def queued_def)

text \<open>Cancelling removes the identifier wherever it is: from a queue or from the granted set.\<close>

lemma cancel_inv:
  assumes "origin_inv s"
  shows "origin_inv (handle c (CancelEv i) s)
    \<and> set (queued (handle c (CancelEv i) s)) \<union> granted (handle c (CancelEv i) s)
      = (set (queued s) \<union> granted s) - {i}"
proof -
  let ?rt = "remove_req (routine s) i" and ?bt = "remove_req (bulk s) i"
  have f: "fairnessIndex s < 4" using assms by (simp add: origin_inv_def)
  consider (inR) "snd ?rt" | (inB) "\<not> snd ?rt" "snd ?bt" | (none) "\<not> snd ?rt" "\<not> snd ?bt" by blast
  then show ?thesis
  proof cases
    case inR
    let ?t = "s\<lparr>routine := fst ?rt\<rparr>"
    have m: "mset (queued s) = add_mset i (mset (queued ?t))"
      using remove_req_True [OF inR] by (simp add: queued_def)
    have h: "handle c (CancelEv i) s = ?t" using inR by (simp add: split_beta)
    show ?thesis unfolding h using drop_queued_inv [OF assms m] f by auto
  next
    case inB
    let ?t = "s\<lparr>bulk := fst ?bt\<rparr>"
    have m: "mset (queued s) = add_mset i (mset (queued ?t))"
      using remove_req_True [OF inB(2)] by (simp add: queued_def)
    have h: "handle c (CancelEv i) s = ?t"
      using inB remove_req_False [OF inB(1)] by (simp add: split_beta)
    show ?thesis unfolding h using drop_queued_inv [OF assms m] f by auto
  next
    case none
    have r: "fst ?rt = routine s" "fst ?bt = bulk s" "i \<notin> set (queued s)"
      using remove_req_False [OF none(1)] remove_req_False [OF none(2)] by (auto simp: queued_def)
    have h: "handle c (CancelEv i) s = release i s" using none r by (simp add: split_beta)
    show ?thesis unfolding h using assms r release_inv release_ids by auto
  qed
qed

section \<open>Invariants of runs\<close>

definition governor_inv :: "governor \<Rightarrow> bool" where
  "governor_inv g \<longleftrightarrow> origin_inv (origin g)
     \<and> set (queued (origin g)) \<union> granted (origin g) \<subseteq> issued g"

lemma other_events_queued [simp]:
  "queued (handle c (CooldownEv t) s) = queued s" "granted (handle c (CooldownEv t) s) = granted s"
  "queued (handle c ReloadEv s) = queued s" "granted (handle c ReloadEv s) = granted s"
  "queued (handle c TimerEv s) = queued s"
  by (auto simp: queued_def)

lemma other_events_inv:
  "origin_inv s \<Longrightarrow> origin_inv (handle c (CooldownEv t) s)"
  "origin_inv s \<Longrightarrow> origin_inv (handle c ReloadEv s)"
  "origin_inv s \<Longrightarrow> origin_inv (handle c TimerEv s)"
  by (auto simp: origin_inv_def queued_def)

lemma enqueue_queued:
  "mset (queued (handle c (EnqueueEv q) s)) = add_mset (req_id q) (mset (queued s))"
  by (simp add: queued_def)

lemma enqueue_inv:
  assumes "origin_inv s" "req_id q \<notin> set (queued s)" "req_id q \<notin> granted s"
  shows "origin_inv (handle c (EnqueueEv q) s)
    \<and> set (queued (handle c (EnqueueEv q) s)) = insert (req_id q) (set (queued s))
    \<and> granted (handle c (EnqueueEv q) s) = granted s"
proof -
  let ?t = "handle c (EnqueueEv q) s"
  have d: "distinct (queued ?t)"
    using assms(1,2) enqueue_queued [of c q s]
    by (metis distinct.simps(2) mset.simps(2) mset_eq_imp_distinct_iff origin_inv_def)
  have st: "set (queued ?t) = insert (req_id q) (set (queued s))"
    using enqueue_queued [of c q s] by (metis mset.simps(2) mset_eq_setD list.simps(15))
  have "granted ?t = granted s" "inFlight ?t = inFlight s" "fairnessIndex ?t = fairnessIndex s"
    by simp_all
  then show ?thesis using assms d st by (auto simp: origin_inv_def simp del: handle.simps)
qed

lemma observeRateLimit_cooldown: "\<exists>t. observeRateLimit c now d has = CooldownEv t"
  by (simp add: observeRateLimit_def Let_def)

lemma governor_step_inv: "governor_step g h \<Longrightarrow> governor_inv g \<Longrightarrow> governor_inv h"
proof (induction rule: governor_step.induct)
  case (dispatching g s r)
  from dispatch_inv [OF this(2)] this(3) show ?case by (auto simp: governor_inv_def)
next
  case (enqueuing g q)
  then have "req_id q \<notin> set (queued (origin g))" "req_id q \<notin> granted (origin g)"
    by (auto simp: governor_inv_def)
  from enqueue_inv [OF _ this] enqueuing(3) show ?case
    by (auto simp: governor_inv_def simp del: handle.simps)
next
  case (cancelling g i)
  from cancel_inv [of "origin g"] this(2) show ?case
    by (fastforce simp: governor_inv_def simp del: handle.simps)
next
  case (releasing g i)
  then show ?case by (auto simp: governor_inv_def release_ids release_inv)
next
  case (cooling g observed c d has)
  obtain t where "observeRateLimit c observed d has = CooldownEv t"
    using observeRateLimit_cooldown by blast
  with cooling show ?case by (simp add: governor_inv_def other_events_inv del: handle.simps)
next
  case (reloading g)
  then show ?case by (simp add: governor_inv_def other_events_inv del: handle.simps)
qed (auto simp: governor_inv_def)

lemma governor_start_inv: "governor_start g \<Longrightarrow> governor_inv g"
  by (auto simp: governor_start_def governor_inv_def origin_start_def origin_inv_def queued_def)

interpretation gov: invariant_system governor_start governor_step_reconf governor_inv
proof unfold_locales
  fix g h assume "governor_inv g" "governor_step_reconf g h"
  then show "governor_inv h"
    by (elim governor_step_reconfE) (blast intro: governor_step_inv, simp add: governor_inv_def)
qed (rule governor_start_inv)

section \<open>Pacing\<close>

text \<open>Two grant times, the newer first, at least \<open>iv\<close> apart.\<close>

definition apart :: "int \<Rightarrow> int \<Rightarrow> int \<Rightarrow> bool" where
  "apart iv newer older \<longleftrightarrow> older + iv \<le> newer"

lemma apart_span:
  assumes "sorted_wrt (apart iv) ts" "ts \<noteq> []"
  shows "last ts + int (length ts - 1) * iv \<le> hd ts"
  using assms
proof (induction ts)
  case (Cons t ts)
  show ?case
  proof (cases ts)
    case (Cons u us)
    with Cons.IH Cons.prems have "last ts + int (length ts - 1) * iv \<le> u" by auto
    moreover have "u + iv \<le> t" using Cons Cons.prems by (simp add: apart_def)
    ultimately show ?thesis using Cons by (simp add: algebra_simps)
  qed simp
qed simp

text \<open>At most \<open>(L - 1) div iv + 1\<close> pairwise spaced times fit into a half-open span of length \<open>L\<close>.\<close>

lemma apart_count:
  assumes "sorted_wrt (apart iv) ts" "0 < iv" "0 < L"
  shows "int (length (filter (\<lambda>t. a \<le> t \<and> t < a + L) ts)) \<le> (L - 1) div iv + 1"
proof (cases "filter (\<lambda>t. a \<le> t \<and> t < a + L) ts = []")
  case True
  have "0 \<le> (L - 1) div iv" using assms(2,3) by (simp add: pos_imp_zdiv_nonneg_iff)
  with True show ?thesis by simp
next
  case False
  let ?f = "filter (\<lambda>t. a \<le> t \<and> t < a + L) ts"
  have "sorted_wrt (apart iv) ?f" using assms(1) by (rule sorted_wrt_filter)
  from apart_span [OF this False] have "last ?f + int (length ?f - 1) * iv \<le> hd ?f" .
  moreover have "hd ?f < a + L" using hd_in_set [OF False] by simp
  moreover have "a \<le> last ?f" using last_in_set [OF False] by simp
  ultimately have "int (length ?f - 1) * iv \<le> L - 1" by linarith
  then have "int (length ?f - 1) \<le> (L - 1) div iv"
    using zdiv_mono1 [of "int (length ?f - 1) * iv" "L - 1" iv] assms(2) by simp
  moreover have "length ?f > 0" using False by blast
  ultimately show ?thesis by linarith
qed

definition pace_inv :: "governor \<Rightarrow> bool" where
  "pace_inv g \<longleftrightarrow> governor_inv g \<and> 0 < interval (config g) \<and> 0 < maxInFlight (config g)
     \<and> inFlight (origin g) \<le> maxInFlight (config g)
     \<and> sorted_wrt (apart (interval (config g))) (map snd (grants g))
     \<and> (\<forall>t \<in> set (map snd (grants g)). t + interval (config g) \<le> nextAllowed (origin g))"

lemma handle_pacing:
  "nextAllowed s \<le> nextAllowed (handle c e s)" "inFlight (handle c e s) \<le> inFlight s"
  "cooldownUntil s \<le> cooldownUntil (handle c e s)"
  by (cases e; auto simp: release_def Let_def split: prod.splits)+

lemma dispatch_pacing:
  assumes "dispatch c now s = (s', r)"
  shows "r = None \<Longrightarrow> nextAllowed s' = nextAllowed s \<and> inFlight s' = inFlight s"
    and "r \<noteq> None \<Longrightarrow> nextAllowed s' = now + interval c \<and> inFlight s' = inFlight s + 1
           \<and> inFlight s < maxInFlight c \<and> nextAllowed s \<le> now \<and> cooldownUntil s \<le> now"
    and "cooldownUntil s' = cooldownUntil s"
proof -
  have "(r = None \<longrightarrow> nextAllowed s' = nextAllowed s \<and> inFlight s' = inFlight s)
    \<and> (r \<noteq> None \<longrightarrow> nextAllowed s' = now + interval c \<and> inFlight s' = inFlight s + 1
           \<and> inFlight s < maxInFlight c \<and> nextAllowed s \<le> now \<and> cooldownUntil s \<le> now)
    \<and> cooldownUntil s' = cooldownUntil s"
    using assms
  proof (cases rule: dispatch_cases)
    case (granting q s1)
    then show ?thesis
      using pick_Some(3,6) [OF granting(2)] by (simp add: readyAt_def split: if_splits)
  qed simp
  then show "r = None \<Longrightarrow> nextAllowed s' = nextAllowed s \<and> inFlight s' = inFlight s"
    "r \<noteq> None \<Longrightarrow> nextAllowed s' = now + interval c \<and> inFlight s' = inFlight s + 1
           \<and> inFlight s < maxInFlight c \<and> nextAllowed s \<le> now \<and> cooldownUntil s \<le> now"
    "cooldownUntil s' = cooldownUntil s" by blast+
qed

lemma handled_pace_inv:
  assumes "pace_inv g" "governor_inv h" "config h = config g" "grants h = grants g"
    and "origin h = handle c e (origin g)"
  shows "pace_inv h"
  using assms handle_pacing [where s = "origin g" and c = c and e = e]
  by (fastforce simp: pace_inv_def)

text \<open>Every step is a clock tick, a dispatch, or the receipt of one message.\<close>

lemma governor_step_kinds:
  assumes "governor_step g h"
  obtains (tick) now where "h = g\<lparr>clock := now\<rparr>" "clock g \<le> now"
  | (dispatching) s r where "dispatch (config g) (clock g) (origin g) = (s, r)"
      "origin h = s" "config h = config g" "clock h = clock g"
      "grants h = (case r of None \<Rightarrow> grants g | Some q \<Rightarrow> (req_id q, clock g) # grants g)"
  | (receiving) c e where "origin h = handle c e (origin g)" "config h = config g"
      "grants h = grants g" "clock h = clock g"
  using assms by cases (auto simp del: handle.simps)

lemma pace_step: "governor_step g h \<Longrightarrow> pace_inv g \<Longrightarrow> pace_inv h"
proof -
  assume step: "governor_step g h" and inv: "pace_inv g"
  have gi: "governor_inv h" using governor_step_inv [OF step] inv by (simp add: pace_inv_def)
  from step show ?thesis
  proof (cases rule: governor_step_kinds)
    case (dispatching s r)
    show ?thesis
    proof (cases r)
      case None
      with dispatching inv gi dispatch_pacing(1) [OF dispatching(1)] show ?thesis
        by (auto simp: pace_inv_def)
    next
      case (Some q)
      with dispatching inv gi dispatch_pacing(2) [OF dispatching(1)] show ?thesis
        by (fastforce simp: pace_inv_def apart_def)
    qed
  next
    case tick
    with inv gi show ?thesis by (simp add: pace_inv_def governor_inv_def)
  next
    case (receiving c e)
    with handled_pace_inv [OF inv gi] show ?thesis by blast
  qed
qed

lemma pace_start: "governor_start g \<Longrightarrow> pace_inv g"
  using governor_start_inv normalize_bounds
  by (fastforce simp: pace_inv_def governor_start_def origin_start_def)

interpretation gov_fixed: invariant_system governor_start governor_step pace_inv
  by unfold_locales (auto intro: pace_start pace_step)

lemma config_constant: "governor_step\<^sup>*\<^sup>* g h \<Longrightarrow> config h = config g"
  by (induction rule: rtranclp_induct) (auto elim: governor_step.cases)

section \<open>Cooldown, fairness and progress\<close>

lemma step_cooldown_mono:
  assumes "governor_step g h"
  shows "cooldownUntil (origin g) \<le> cooldownUntil (origin h)"
  using assms
proof (cases rule: governor_step_kinds)
  case (dispatching s r)
  then show ?thesis using dispatch_pacing(3) [OF dispatching(1)] by simp
next
  case (receiving c e)
  then show ?thesis using handle_pacing(3) [of "origin g" c e] by simp
qed auto

lemma reconf_cooldown_mono:
  "governor_step_reconf g h \<Longrightarrow> cooldownUntil (origin g) \<le> cooldownUntil (origin h)"
  by (elim governor_step_reconfE) (auto intro: step_cooldown_mono)

lemma reconf_grants:
  assumes "governor_step_reconf g h"
  shows "grants h = grants g \<or> (\<exists>i. grants h = (i, clock g) # grants g \<and> cooldownUntil (origin g) \<le> clock g)"
  using assms
proof (rule governor_step_reconfE)
  assume "governor_step g h"
  then show ?thesis
  proof (cases rule: governor_step_kinds)
    case (dispatching s r)
    then show ?thesis using dispatch_pacing(2) [OF dispatching(1)] by (cases r) auto
  qed auto
qed auto

lemma reconf_steps_cooldown_mono:
  "governor_step_reconf\<^sup>*\<^sup>* g h \<Longrightarrow> cooldownUntil (origin g) \<le> cooldownUntil (origin h)"
  by (induction rule: rtranclp_induct) (auto dest: reconf_cooldown_mono)

text \<open>The dispatcher never sleeps on work it could do: if it waits for a message although a request
  is queued and a slot is free, its timer is armed, for a moment not after the next grant time.\<close>

definition awake :: "governor \<Rightarrow> bool" where
  "awake g \<longleftrightarrow> (awaiting g \<and> waiting (origin g) \<and> inFlight (origin g) < maxInFlight (config g)
     \<longrightarrow> (\<exists>due. timerC (origin g) = Some due \<and> due \<le> readyAt (origin g)))"

lemma dispatch_awake:
  assumes "dispatch c now s = (s', r)" "waiting s'" "inFlight s' < maxInFlight c" "0 < interval c"
  shows "\<exists>due. timerC s' = Some due \<and> due \<le> readyAt s'"
  using assms
  by (auto simp: dispatch_def grant_def resetTimer_def readyAt_def waiting_def pick_None_iff Let_def
      split: if_splits option.splits)

lemma awake_step:
  assumes "governor_step g h" "pace_inv g \<and> awake g"
  shows "pace_inv h \<and> awake h"
proof
  show "pace_inv h" using assms pace_step by blast
  from assms(1) show "awake h"
  proof cases
    case (dispatching s r)
    then show ?thesis
      using dispatch_awake [OF dispatching(3)] assms(2) by (auto simp: awake_def pace_inv_def)
  next
    case (tick now)
    then show ?thesis using assms(2) by (simp add: awake_def)
  qed (simp_all add: awake_def del: handle.simps)
qed

interpretation gov_awake: invariant_system governor_start governor_step "\<lambda>g. pace_inv g \<and> awake g"
proof unfold_locales
  fix g assume "governor_start g"
  then show "pace_inv g \<and> awake g" using pace_start by (simp add: awake_def governor_start_def)
qed (rule awake_step)

text \<open>Serving \<open>n\<close> requests in a row while nothing else arrives.\<close>

fun picks :: "nat \<Rightarrow> origin_state \<Rightarrow> upstreamAcquireRequest list \<times> origin_state" where
  "picks 0 s = ([], s)"
| "picks (Suc n) s =
     (case pick s of None \<Rightarrow> ([], s)
      | Some (q, s') \<Rightarrow> let (qs, s'') = picks n s' in (q # qs, s''))"

section \<open>A concrete run\<close>

text \<open>The default options, two requests arriving one after the other: the first is granted at once,
  the second waits for the timer. The witnesses below evaluate this run.\<close>

definition dispatched :: "governor \<Rightarrow> governor" where
  "dispatched g =
     (let (s, r) = dispatch (config g) (clock g) (origin g)
      in g\<lparr>origin := s, awaiting := True,
           grants := (case r of None \<Rightarrow> grants g | Some q \<Rightarrow> (req_id q, clock g) # grants g)\<rparr>)"

definition enqueued :: "upstreamAcquireRequest \<Rightarrow> governor \<Rightarrow> governor" where
  "enqueued q g = g\<lparr>origin := handle (config g) (EnqueueEv q) (origin g), awaiting := False,
     issued := insert (req_id q) (issued g)\<rparr>"

lemma dispatched_run: "governor_step\<^sup>*\<^sup>* a g \<Longrightarrow> \<not> awaiting g \<Longrightarrow> governor_step\<^sup>*\<^sup>* a (dispatched g)"
  by (rule rtranclp.rtrancl_into_rtrancl, assumption, cases "dispatch (config g) (clock g) (origin g)")
    (simp add: dispatched_def governor_step.dispatching)

lemma enqueued_run:
  "governor_step\<^sup>*\<^sup>* a g \<Longrightarrow> awaiting g \<Longrightarrow> req_id q \<notin> issued g \<Longrightarrow> governor_step\<^sup>*\<^sup>* a (enqueued q g)"
  unfolding enqueued_def by (rule rtranclp.rtrancl_into_rtrancl, assumption, rule governor_step.enqueuing)

definition sample_options :: UpstreamGovernorOptions where
  "sample_options = \<lparr>optRequests = 300, optWindow = 180 * second, optMaxInFlight = 4, optHasClock = True\<rparr>"

definition sample_start :: governor where
  "sample_start = \<lparr>clock = 5, config = \<lparr>interval = 600000000, window = 180 * second, maxInFlight = 4\<rparr>,
     origin = origin_start, issued = {}, awaiting = False, grants = []\<rparr>"

definition sample_waiting :: governor where
  "sample_waiting =
     dispatched (enqueued \<lparr>req_id = 2, req_class = UpstreamRequestBulk\<rparr>
       (dispatched (enqueued \<lparr>req_id = 1, req_class = UpstreamRequestRoutine\<rparr> (dispatched sample_start))))"

lemmas sample_eval = sample_waiting_def sample_start_def dispatched_def enqueued_def dispatch_def grant_def
  pick_def resetTimer_def waiting_def readyAt_def origin_start_def second_def Let_def

lemma sample_options_ok: "normalizeUpstreamGovernorOptions sample_options = Inr (config sample_start)"
  by (simp add: normalizeUpstreamGovernorOptions_def sample_options_def sample_start_def second_def Let_def)

lemma sample_governor_start: "governor_start sample_start"
  using sample_options_ok
  by (auto simp: governor_start_def sample_start_def)

lemma sample_run: "governor_step\<^sup>*\<^sup>* sample_start sample_waiting"
  unfolding sample_waiting_def
  by (intro dispatched_run enqueued_run rtranclp.rtrancl_refl) (simp_all add: sample_eval)

lemma sample_run_reconf: "governor_step_reconf\<^sup>*\<^sup>* sample_start sample_waiting"
  using sample_run by (induction rule: rtranclp_induct) (auto intro: governor_step_reconf.plain rtranclp.rtrancl_into_rtrancl)

section \<open>Properties of the governor\<close>

text \<open>
  C1. In every reachable state of an origin's goroutine, reconfigurations included, the counter
  \<^verbatim>\<open>inFlight\<close> is the number of granted requests, no request is queued twice, and no request is both
  queued and granted: cancel and release messages for unknown or already finished requests never
  make the counter drift.
\<close>

theorem inflight_counts_granted:
  assumes "governor_start g" "governor_step_reconf\<^sup>*\<^sup>* g h"
  shows "inFlight (origin h) = int (card (granted (origin h))) \<and> finite (granted (origin h))
    \<and> distinct (map req_id (routine (origin h)) @ map req_id (bulk (origin h)))
    \<and> req_id ` (set (routine (origin h)) \<union> set (bulk (origin h))) \<inter> granted (origin h) = {}"
proof -
  have "origin_inv (origin h)" using gov.reachable_inv [OF assms] by (simp add: governor_inv_def)
  then show ?thesis by (auto simp: origin_inv_def queued_def)
qed

theorem inflight_counts_granted_witness:
  "inFlight (origin sample_waiting) = int (card (granted (origin sample_waiting)))
    \<and> granted (origin sample_waiting) = {1} \<and> map req_id (bulk (origin sample_waiting)) = [2]"
  using inflight_counts_granted [OF sample_governor_start sample_run_reconf]
  by (simp add: sample_eval)

text \<open>
  C2. Rate and concurrency bound under one configuration: at most \<^verbatim>\<open>MaxInFlight\<close> requests are in
  flight in every reachable state, and over the whole run any half-open span of length \<^verbatim>\<open>Window\<close>
  contains at most \<open>(Window - 1) div interval + 1\<close> grants, which is at most \<^verbatim>\<open>Requests\<close> when
  \<^verbatim>\<open>Requests\<close> divides \<^verbatim>\<open>Window\<close>.
\<close>

theorem grants_per_window:
  assumes start: "governor_start g" and run: "governor_step\<^sup>*\<^sup>* g h"
    and opts: "normalizeUpstreamGovernorOptions opts = Inr (config g)"
      "0 < optRequests opts" "0 < optWindow opts"
  shows "inFlight (origin h) \<le> maxInFlight (config g)
    \<and> int (length (filter (\<lambda>(i, t). a \<le> t \<and> t < a + optWindow opts) (grants h)))
        \<le> (optWindow opts - 1) div interval (config g) + 1
    \<and> (optRequests opts dvd optWindow opts \<longrightarrow>
        int (length (filter (\<lambda>(i, t). a \<le> t \<and> t < a + optWindow opts) (grants h))) \<le> optRequests opts)"
proof -
  let ?iv = "interval (config g)" and ?W = "optWindow opts" and ?R = "optRequests opts"
  have c: "config h = config g" by (rule config_constant [OF run])
  have inv: "pace_inv h" by (rule gov_fixed.reachable_inv [OF start run])
  have iv: "?iv = ?W div ?R" "0 < ?iv" using normalize_interval [OF opts] normalize_bounds(1) [OF opts(1)]
    by simp_all
  have len: "length (filter (\<lambda>(i, t). P t) xs) = length (filter P (map snd xs))" for P and xs :: "(nat \<times> int) list"
    by (induction xs) auto
  have count: "int (length (filter (\<lambda>(i, t). a \<le> t \<and> t < a + ?W) (grants h))) \<le> (?W - 1) div ?iv + 1"
    using apart_count [of ?iv "map snd (grants h)" ?W a] inv c iv opts(3) len by (simp add: pace_inv_def)
  have "(?W - 1) div ?iv + 1 \<le> ?R" if "?R dvd ?W"
  proof -
    have "?W = ?R * ?iv" using that iv(1) by simp
    then have "?W - 1 = (?iv - 1) + (?R - 1) * ?iv" by (simp add: algebra_simps)
    then have "(?W - 1) div ?iv = (?R - 1) + (?iv - 1) div ?iv"
      using iv(2) div_mult_self1 [of ?iv "?iv - 1" "?R - 1"] by (simp only:)
    then show ?thesis using iv(2) by (simp add: div_pos_pos_trivial)
  qed
  with count show ?thesis using inv c by (auto simp: pace_inv_def)
qed

theorem grants_per_window_witness:
  "int (length (filter (\<lambda>(i, t). 0 \<le> t \<and> t < 0 + optWindow sample_options) (grants sample_waiting))) \<le> 300
    \<and> grants sample_waiting = [(1, 5)]"
  using grants_per_window [OF sample_governor_start sample_run sample_options_ok, of 0]
  by (simp add: sample_eval sample_options_def)

text \<open>
  C3. Cooldown: along every run, reconfigurations included, the cooldown deadline never moves back,
  and every request granted after a state in which the deadline is \<open>u\<close> is granted at or after \<open>u\<close>.
\<close>

theorem no_grant_before_cooldown:
  assumes "governor_step_reconf\<^sup>*\<^sup>* g h"
  shows "cooldownUntil (origin g) \<le> cooldownUntil (origin h)
    \<and> (\<exists>new. grants h = new @ grants g \<and> (\<forall>(i, t) \<in> set new. cooldownUntil (origin g) \<le> t))"
  using assms
proof (induction rule: rtranclp_induct)
  case (step h k)
  then obtain new where new: "grants h = new @ grants g" "\<forall>(i, t) \<in> set new. cooldownUntil (origin g) \<le> t"
    by blast
  have "\<exists>new'. grants k = new' @ grants g \<and> (\<forall>(i, t) \<in> set new'. cooldownUntil (origin g) \<le> t)"
    using reconf_grants [OF step(2)]
  proof
    assume "grants k = grants h" with new show ?thesis by auto
  next
    assume "\<exists>i. grants k = (i, clock h) # grants h \<and> cooldownUntil (origin h) \<le> clock h"
    then obtain i where "grants k = ((i, clock h) # new) @ grants g" "cooldownUntil (origin g) \<le> clock h"
      using new step.IH by auto
    with new(2) show ?thesis by (intro exI [of _ "(i, clock h) # new"]) auto
  qed
  then show ?case using step.IH reconf_cooldown_mono [OF step(2)] by auto
qed simp

theorem no_grant_before_cooldown_witness:
  "cooldownUntil (origin sample_start) \<le> cooldownUntil (origin sample_waiting)
    \<and> (\<exists>new. grants sample_waiting = new @ grants sample_start
        \<and> (\<forall>(i, t) \<in> set new. cooldownUntil (origin sample_start) \<le> t))"
  by (rule no_grant_before_cooldown [OF sample_run_reconf])

text \<open>
  C4. Fairness: from any reachable fairness index, while both queues stay non-empty, four
  consecutive grants serve the three oldest routine requests in their order and the oldest bulk
  request, which comes in the position the fairness index gives, and the index is back where it was.
\<close>

theorem fair_share_of_four:
  assumes "fairnessIndex s < 4" "routine s = r1 # r2 # r3 # r4 # rs" "bulk s = b1 # b2 # bs"
  shows "fst (picks 4 s) = take (3 - fairnessIndex s) [r1, r2, r3] @ b1 # drop (3 - fairnessIndex s) [r1, r2, r3]
    \<and> routine (snd (picks 4 s)) = r4 # rs \<and> bulk (snd (picks 4 s)) = b2 # bs
    \<and> fairnessIndex (snd (picks 4 s)) = fairnessIndex s"
proof -
  have four: "picks 4 s = picks (Suc (Suc (Suc (Suc 0)))) s" by (simp add: numeral_eq_Suc)
  have "fairnessIndex s = 0 \<or> fairnessIndex s = 1 \<or> fairnessIndex s = 2 \<or> fairnessIndex s = 3"
    using assms(1) by arith
  then show ?thesis
    unfolding four using assms(2,3) by (elim disjE) (simp_all add: pick_def)
qed

theorem fair_share_of_four_witness:
  "map req_id (fst (picks 4 (origin_start\<lparr>fairnessIndex := 2,
       routine := map (\<lambda>i. \<lparr>req_id = i, req_class = UpstreamRequestRoutine\<rparr>) [1, 2, 3, 4],
       bulk := map (\<lambda>i. \<lparr>req_id = i, req_class = UpstreamRequestBulk\<rparr>) [5, 6]\<rparr>))) = [1, 5, 2, 3]"
  using fair_share_of_four [of "origin_start\<lparr>fairnessIndex := 2,
       routine := map (\<lambda>i. \<lparr>req_id = i, req_class = UpstreamRequestRoutine\<rparr>) [1, 2, 3, 4],
       bulk := map (\<lambda>i. \<lparr>req_id = i, req_class = UpstreamRequestBulk\<rparr>) [5, 6]\<rparr>"]
  by simp



end
