(* ===== verification/Task_Catalog.thy ===== *)
theory Task_Catalog
  imports Pilot_Prelude "HOL-Library.Word"
begin

text \<open>
  The task vocabulary of the collector: task types, families, targets, triggers and priorities of
  \<^verbatim>\<open>constant/site.go\<close>, the queues of \<^verbatim>\<open>worker/queues.go\<close>, and the attempt, backoff and jitter
  policy of \<^verbatim>\<open>worker/leases.go\<close>. Task types, families and statuses are strings, as in the source,
  so that the default branches of the tables are reachable. A Go \<^verbatim>\<open>(T, bool)\<close> pair is an option,
  and a duration is an \<^typ>\<open>int\<close> of nanoseconds.
\<close>

section \<open>Task types and families\<close>

definition TaskTypeSiteProbe :: string where "TaskTypeSiteProbe = ''site_probe''"
definition TaskTypeRealtimeStat :: string where "TaskTypeRealtimeStat = ''realtime_stat''"
definition TaskTypeResourceSnapshot :: string where "TaskTypeResourceSnapshot = ''resource_snapshot''"
definition TaskTypeUserSync :: string where "TaskTypeUserSync = ''user_sync''"
definition TaskTypeChannelSync :: string where "TaskTypeChannelSync = ''channel_sync''"
definition TaskTypePerformanceSync :: string where "TaskTypePerformanceSync = ''performance_sync''"
definition TaskTypeTopupSync :: string where "TaskTypeTopupSync = ''topup_sync''"
definition TaskTypeRedemptionSync :: string where "TaskTypeRedemptionSync = ''redemption_sync''"
definition TaskTypeUpstreamTaskSync :: string where "TaskTypeUpstreamTaskSync = ''upstream_task_sync''"
definition TaskTypeModelMetaSync :: string where "TaskTypeModelMetaSync = ''model_meta_sync''"
definition TaskTypePlanSync :: string where "TaskTypePlanSync = ''plan_sync''"
definition TaskTypePricingSync :: string where "TaskTypePricingSync = ''pricing_group_sync''"
definition TaskTypeSystemTaskSync :: string where "TaskTypeSystemTaskSync = ''system_task_sync''"
definition TaskTypeLogSync :: string where "TaskTypeLogSync = ''log_sync''"
definition TaskTypeUsageHour :: string where "TaskTypeUsageHour = ''usage_hour''"
definition TaskTypeUsageBackfill :: string where "TaskTypeUsageBackfill = ''usage_backfill''"
definition TaskTypeUsageValidation :: string where "TaskTypeUsageValidation = ''usage_validation''"
definition TaskTypeAccountRebuild :: string where "TaskTypeAccountRebuild = ''account_rebuild''"
definition TaskTypeCustomerRebuild :: string where "TaskTypeCustomerRebuild = ''customer_rebuild''"

definition all_task_types :: "string list" where
  "all_task_types = [
     TaskTypeSiteProbe, TaskTypeRealtimeStat, TaskTypeResourceSnapshot, TaskTypeUserSync,
     TaskTypeChannelSync, TaskTypePerformanceSync, TaskTypeTopupSync, TaskTypeRedemptionSync,
     TaskTypeUpstreamTaskSync, TaskTypeModelMetaSync, TaskTypePlanSync, TaskTypePricingSync,
     TaskTypeSystemTaskSync, TaskTypeLogSync, TaskTypeUsageHour, TaskTypeUsageBackfill,
     TaskTypeUsageValidation, TaskTypeAccountRebuild, TaskTypeCustomerRebuild]"

lemmas task_type_text =
  TaskTypeSiteProbe_def TaskTypeRealtimeStat_def TaskTypeResourceSnapshot_def
  TaskTypeUserSync_def TaskTypeChannelSync_def TaskTypePerformanceSync_def TaskTypeTopupSync_def
  TaskTypeRedemptionSync_def TaskTypeUpstreamTaskSync_def TaskTypeModelMetaSync_def
  TaskTypePlanSync_def TaskTypePricingSync_def TaskTypeSystemTaskSync_def TaskTypeLogSync_def
  TaskTypeUsageHour_def TaskTypeUsageBackfill_def TaskTypeUsageValidation_def
  TaskTypeAccountRebuild_def TaskTypeCustomerRebuild_def

text \<open>The nineteen names are pairwise different; no other fact about their spelling is used in proofs.\<close>

lemma distinct_task_types: "distinct all_task_types"
  by code_simp

lemmas task_type_neq [simp] =
  distinct_task_types [unfolded all_task_types_def distinct.simps list.set insert_iff empty_iff de_Morgan_disj simp_thms]

lemma distinct_task_types_rev:
  "distinct [TaskTypeCustomerRebuild, TaskTypeAccountRebuild, TaskTypeUsageValidation,
     TaskTypeUsageBackfill, TaskTypeUsageHour, TaskTypeLogSync, TaskTypeSystemTaskSync,
     TaskTypePricingSync, TaskTypePlanSync, TaskTypeModelMetaSync, TaskTypeUpstreamTaskSync,
     TaskTypeRedemptionSync, TaskTypeTopupSync, TaskTypePerformanceSync, TaskTypeChannelSync,
     TaskTypeUserSync, TaskTypeResourceSnapshot, TaskTypeRealtimeStat, TaskTypeSiteProbe]"
  by code_simp

lemmas task_type_neq_sym [simp] =
  distinct_task_types_rev [unfolded distinct.simps list.set insert_iff empty_iff de_Morgan_disj simp_thms]

definition metadata_task_types :: "string list" where
  "metadata_task_types = [TaskTypeUserSync, TaskTypeChannelSync, TaskTypePerformanceSync,
     TaskTypeTopupSync, TaskTypeRedemptionSync, TaskTypeUpstreamTaskSync, TaskTypeModelMetaSync,
     TaskTypePlanSync, TaskTypePricingSync, TaskTypeSystemTaskSync, TaskTypeLogSync]"

definition CollectionTaskFamily :: "string \<Rightarrow> string option" where
  "CollectionTaskFamily t =
     (if t = TaskTypeSiteProbe then Some ''probe''
      else if t = TaskTypeRealtimeStat then Some ''realtime''
      else if t = TaskTypeResourceSnapshot then Some ''resource''
      else if t \<in> set metadata_task_types then Some ''metadata''
      else if t \<in> {TaskTypeUsageHour, TaskTypeUsageBackfill, TaskTypeUsageValidation} then Some ''usage''
      else if t \<in> {TaskTypeAccountRebuild, TaskTypeCustomerRebuild} then Some ''local_rebuild''
      else None)"

definition CollectionTaskTarget :: "string \<Rightarrow> string option" where
  "CollectionTaskTarget t =
     (if t \<in> {TaskTypeSiteProbe, TaskTypeRealtimeStat, TaskTypeResourceSnapshot, TaskTypeUserSync,
         TaskTypePerformanceSync, TaskTypeTopupSync, TaskTypeRedemptionSync, TaskTypeUpstreamTaskSync,
         TaskTypeModelMetaSync, TaskTypePlanSync, TaskTypePricingSync, TaskTypeSystemTaskSync,
         TaskTypeChannelSync, TaskTypeLogSync, TaskTypeUsageHour, TaskTypeUsageBackfill,
         TaskTypeUsageValidation} then Some ''site''
      else if t = TaskTypeAccountRebuild then Some ''account''
      else if t = TaskTypeCustomerRebuild then Some ''customer''
      else None)"

definition CollectionTaskTypesForFamily :: "string \<Rightarrow> string list" where
  "CollectionTaskTypesForFamily f =
     (if f = ''probe'' then [TaskTypeSiteProbe]
      else if f = ''realtime'' then [TaskTypeRealtimeStat]
      else if f = ''resource'' then [TaskTypeResourceSnapshot]
      else if f = ''metadata'' then metadata_task_types
      else if f = ''usage'' then [TaskTypeUsageHour, TaskTypeUsageBackfill, TaskTypeUsageValidation]
      else if f = ''local_rebuild'' then [TaskTypeAccountRebuild, TaskTypeCustomerRebuild]
      else [])"

definition CollectionTaskWindowed :: "string \<Rightarrow> bool" where
  "CollectionTaskWindowed t \<longleftrightarrow> t \<in> {TaskTypeUsageHour, TaskTypeUsageBackfill, TaskTypeUsageValidation,
     TaskTypeAccountRebuild, TaskTypeCustomerRebuild}"

definition ValidCollectionTaskType :: "string \<Rightarrow> bool" where
  "ValidCollectionTaskType t \<longleftrightarrow> CollectionTaskFamily t \<noteq> None"

abbreviation TriggerSchedule :: string where "TriggerSchedule \<equiv> ''schedule''"
abbreviation TriggerManual :: string where "TriggerManual \<equiv> ''manual''"
abbreviation TriggerRecovery :: string where "TriggerRecovery \<equiv> ''recovery''"
abbreviation TriggerDependency :: string where "TriggerDependency \<equiv> ''dependency''"

definition ValidCollectionTriggerType :: "string \<Rightarrow> bool" where
  "ValidCollectionTriggerType t \<longleftrightarrow> t \<in> {TriggerSchedule, TriggerManual, TriggerRecovery, TriggerDependency}"

abbreviation PriorityUsageRealtime :: int where "PriorityUsageRealtime \<equiv> 100"
abbreviation PrioritySiteRecovery :: int where "PrioritySiteRecovery \<equiv> 90"
abbreviation PriorityManualBackfill :: int where "PriorityManualBackfill \<equiv> 80"
abbreviation PriorityDailyValidation :: int where "PriorityDailyValidation \<equiv> 70"
abbreviation PriorityWeeklyValidation :: int where "PriorityWeeklyValidation \<equiv> 60"
abbreviation PriorityInitialBackfill :: int where "PriorityInitialBackfill \<equiv> 50"
abbreviation PriorityLocalRebuild :: int where "PriorityLocalRebuild \<equiv> 40"

definition ValidCollectionPriority :: "string \<Rightarrow> int \<Rightarrow> bool" where
  "ValidCollectionPriority t p \<longleftrightarrow>
     (if t = TaskTypeUsageHour then p = PriorityUsageRealtime
      else if t = TaskTypeUsageBackfill
        then p = PrioritySiteRecovery \<or> p = PriorityManualBackfill \<or> p = PriorityInitialBackfill
      else if t = TaskTypeUsageValidation then p = PriorityDailyValidation \<or> p = PriorityWeeklyValidation
      else if t = TaskTypeAccountRebuild \<or> t = TaskTypeCustomerRebuild then p = PriorityLocalRebuild
      else p = 0)"

definition ValidCollectionTaskPriority :: "string \<Rightarrow> string \<Rightarrow> int \<Rightarrow> bool" where
  "ValidCollectionTaskPriority t trigger p \<longleftrightarrow>
     (if \<not> ValidCollectionPriority t p then False
      else if t = TaskTypeUsageHour then trigger = TriggerSchedule \<and> p = PriorityUsageRealtime
      else if t = TaskTypeUsageBackfill
        then (if trigger = TriggerManual then p = PriorityManualBackfill
              else if trigger = TriggerRecovery then p = PrioritySiteRecovery \<or> p = PriorityInitialBackfill
              else if trigger = TriggerDependency then p = PrioritySiteRecovery
              else False)
      else if t = TaskTypeUsageValidation
        then trigger = TriggerSchedule \<and> (p = PriorityDailyValidation \<or> p = PriorityWeeklyValidation)
      else if t = TaskTypeAccountRebuild \<or> t = TaskTypeCustomerRebuild then p = PriorityLocalRebuild
      else p = 0)"

lemmas catalog_defs = CollectionTaskFamily_def CollectionTaskTarget_def CollectionTaskTypesForFamily_def
  CollectionTaskWindowed_def ValidCollectionTaskType_def metadata_task_types_def

section \<open>Queues\<close>

datatype QueueKind = QueueProbe | QueueRealtime | QueueResource | QueuePerformance | QueueTopup
  | QueueRedemption | QueueMetadata | QueueUsage | QueueBackfill | QueueValidation
  | QueueAccountRebuild | QueueCustomerRebuild | QueueInitialBackfill

definition independentQueueOrder :: "QueueKind list" where
  "independentQueueOrder = [QueueProbe, QueueRealtime, QueueResource, QueuePerformance, QueueTopup,
     QueueRedemption, QueueMetadata]"

definition sharedCollectionQueue :: "QueueKind \<Rightarrow> bool" where
  "sharedCollectionQueue q \<longleftrightarrow> q = QueueUsage \<or> q = QueueBackfill \<or> q = QueueValidation
     \<or> q = QueueAccountRebuild \<or> q = QueueCustomerRebuild"

fun queueCapacityKey :: "QueueKind \<Rightarrow> QueueKind" where
  "queueCapacityKey QueueValidation = QueueBackfill"
| "queueCapacityKey QueueAccountRebuild = QueueBackfill"
| "queueCapacityKey QueueCustomerRebuild = QueueBackfill"
| "queueCapacityKey q = q"

definition QueueForTask :: "string \<Rightarrow> QueueKind option" where
  "QueueForTask t =
     (if t = TaskTypeSiteProbe then Some QueueProbe
      else if t = TaskTypeRealtimeStat then Some QueueRealtime
      else if t = TaskTypeResourceSnapshot then Some QueueResource
      else if t = TaskTypePerformanceSync then Some QueuePerformance
      else if t = TaskTypeTopupSync then Some QueueTopup
      else if t = TaskTypeRedemptionSync then Some QueueRedemption
      else if t \<in> {TaskTypeUserSync, TaskTypeChannelSync, TaskTypeUpstreamTaskSync,
          TaskTypeModelMetaSync, TaskTypePlanSync, TaskTypePricingSync, TaskTypeSystemTaskSync,
          TaskTypeLogSync} then Some QueueMetadata
      else if t = TaskTypeUsageHour then Some QueueUsage
      else if t = TaskTypeUsageBackfill then Some QueueBackfill
      else if t = TaskTypeUsageValidation then Some QueueValidation
      else if t = TaskTypeAccountRebuild then Some QueueAccountRebuild
      else if t = TaskTypeCustomerRebuild then Some QueueCustomerRebuild
      else None)"

record CollectorSettings =
  ProbeIntervalSeconds :: int
  RealtimeIntervalSeconds :: int
  ResourceIntervalSeconds :: int
  OperationalIntervalSeconds :: int
  CatalogIntervalSeconds :: int
  UsageDelayMinutes :: int
  MinuteRetentionDays :: int
  ProbeConcurrency :: int
  RealtimeConcurrency :: int
  ResourceConcurrency :: int
  MetadataConcurrency :: int
  UsageConcurrency :: int
  BackfillConcurrency :: int
  ManualBackfillMaxDays :: int

fun queueConcurrency :: "QueueKind \<Rightarrow> CollectorSettings \<Rightarrow> int" where
  "queueConcurrency QueueProbe s = ProbeConcurrency s"
| "queueConcurrency QueueRealtime s = RealtimeConcurrency s"
| "queueConcurrency QueueResource s = ResourceConcurrency s"
| "queueConcurrency QueuePerformance s = ResourceConcurrency s"
| "queueConcurrency QueueTopup s = ResourceConcurrency s"
| "queueConcurrency QueueRedemption s = ResourceConcurrency s"
| "queueConcurrency QueueMetadata s = MetadataConcurrency s"
| "queueConcurrency QueueUsage s = UsageConcurrency s"
| "queueConcurrency QueueBackfill s = BackfillConcurrency s"
| "queueConcurrency QueueValidation s = BackfillConcurrency s"
| "queueConcurrency QueueAccountRebuild s = BackfillConcurrency s"
| "queueConcurrency QueueCustomerRebuild s = BackfillConcurrency s"
| "queueConcurrency QueueInitialBackfill s = 0"

lemma capacity_shares_concurrency:
  "sharedCollectionQueue q \<Longrightarrow> queueConcurrency (queueCapacityKey q) s = queueConcurrency q s"
  by (cases q) (simp_all add: sharedCollectionQueue_def)

text \<open>Chains of string tests: the two rules that avoid splitting them.\<close>

lemma if_Some_eq_None: "((if c then Some a else r) = None) = (\<not> c \<and> r = None)"
  by simp

lemma if_Some_eq_Some: "((if c then Some a else r) = Some b) = (c \<and> a = b \<or> \<not> c \<and> r = Some b)"
  by auto

lemma QueueForTask_valid: "QueueForTask t \<noteq> None \<longleftrightarrow> ValidCollectionTaskType t"
  unfolding QueueForTask_def ValidCollectionTaskType_def CollectionTaskFamily_def metadata_task_types_def
    if_Some_eq_None
  by (simp only: list.set insert_iff empty_iff de_Morgan_disj simp_thms) safe

lemma QueueForTask_windowed:
  "QueueForTask t = Some q \<Longrightarrow> sharedCollectionQueue q \<longleftrightarrow> CollectionTaskWindowed t"
  by (auto simp: QueueForTask_def CollectionTaskWindowed_def sharedCollectionQueue_def split: if_splits)

end
