(* ===== verification/Task_Retry.thy ===== *)
theory Task_Retry
  imports Task_Catalog
begin

text \<open>
  Attempts, backoff and jitter (\<^verbatim>\<open>worker/leases.go\<close>) and what the executor reports for one
  finished job (\<^verbatim>\<open>worker/executor.go\<close>: \<^verbatim>\<open>windowOutcome\<close>, \<^verbatim>\<open>executeNonWindow\<close>,
  \<^verbatim>\<open>monotonicWorkerCommitTime\<close>). A duration is an \<^typ>\<open>int\<close> of nanoseconds. The cause of a
  failed job is \<open>TaskFailure e\<close> for an error that wraps a \<^verbatim>\<open>TaskExecutionError\<close>, \<open>Cancelled\<close> for
  one that is \<^verbatim>\<open>context.Canceled\<close>, and \<open>OtherFailure\<close> for any other.
\<close>

unbundle bit_operations_syntax

section \<open>Backoff and jitter\<close>

definition minute :: int where "minute = 60000000000"
definition hour :: int where "hour = 3600000000000"

text \<open>\<^verbatim>\<open>hash/fnv\<close>'s 64-bit FNV-1a over a byte string.\<close>

definition fnv64a :: "string \<Rightarrow> 64 word" where
  "fnv64a bs = foldl (\<lambda>h b. (h XOR of_nat (of_char b)) * 1099511628211) 14695981039346656037 bs"

definition retryDelayWithJitter :: "int \<Rightarrow> string \<Rightarrow> int \<Rightarrow> int \<Rightarrow> int \<Rightarrow> int \<Rightarrow> int" where
  "retryDelayWithJitter base taskType runID siteID hourTS attempt =
     (let maximum = base div 5;
          text = taskType @ concat (map (\<lambda>v. ''|'' @ FormatInt v) [runID, siteID, hourTS, attempt])
      in if base \<le> 0 then base
         else if maximum \<le> 0 then base
         else base + uint (fnv64a text) mod (maximum + 1))"

definition taskBackoff :: "string \<Rightarrow> int \<Rightarrow> int" where
  "taskBackoff taskType attempt0 =
     (let attempt = (if attempt0 < 1 then 1 else attempt0)
      in if taskType = TaskTypeUsageHour
           then (if attempt = 1 then minute else if attempt = 2 then 5 * minute else 15 * minute)
         else if taskType = TaskTypeUsageValidation
           then (if attempt = 1 then 5 * minute else if attempt = 2 then 15 * minute
                 else if attempt = 3 then hour else 6 * hour)
         else if taskType \<in> {TaskTypeUsageBackfill, TaskTypeAccountRebuild, TaskTypeCustomerRebuild}
           then (if attempt = 1 then minute else if attempt = 2 then 5 * minute
                 else if attempt = 3 then 15 * minute else hour)
         else (if attempt = 1 then minute else if attempt = 2 then 5 * minute else 15 * minute))"

section \<open>Attempt policy\<close>

record CollectionTaskAttemptPolicy =
  DefaultMaxAttempts :: int
  MaxAttempts :: "string \<Rightarrow> int"

text \<open>The policy's map, with Go's zero for an absent key.\<close>

definition defaultAttemptPolicy :: CollectionTaskAttemptPolicy where
  "defaultAttemptPolicy = \<lparr>DefaultMaxAttempts = 1,
     MaxAttempts = (\<lambda>t.
       if t \<in> {TaskTypeSiteProbe, TaskTypeRealtimeStat, TaskTypeResourceSnapshot, TaskTypeUserSync,
           TaskTypeChannelSync} then 1
       else if t \<in> {TaskTypePerformanceSync, TaskTypeTopupSync, TaskTypeRedemptionSync,
           TaskTypeUpstreamTaskSync, TaskTypeModelMetaSync, TaskTypePlanSync, TaskTypePricingSync,
           TaskTypeSystemTaskSync, TaskTypeLogSync} then 3
       else if t = TaskTypeUsageHour then 4
       else if t \<in> {TaskTypeUsageBackfill, TaskTypeUsageValidation, TaskTypeAccountRebuild,
           TaskTypeCustomerRebuild} then 5
       else 0)\<rparr>"

definition maxAttempts :: "CollectionTaskAttemptPolicy \<Rightarrow> string \<Rightarrow> int" where
  "maxAttempts policy taskType =
     (if MaxAttempts policy taskType > 0 then MaxAttempts policy taskType
      else if DefaultMaxAttempts policy > 0 then DefaultMaxAttempts policy
      else 3)"

record TaskExecutionError =
  teCode :: string
  teParams :: string
  teRetryable :: bool
  teRetryAfter :: int
  teHasRetryAfter :: bool

datatype task_cause = TaskFailure TaskExecutionError | Cancelled | OtherFailure

abbreviation CollectionTaskExecutionFailedCode :: string where
  "CollectionTaskExecutionFailedCode \<equiv> ''WORKER_EXECUTION_FAILED''"

definition retryDecision ::
    "string \<Rightarrow> int \<Rightarrow> task_cause \<Rightarrow> CollectionTaskAttemptPolicy \<Rightarrow> bool \<times> int \<times> string" where
  "retryDecision taskType attempt cause policy =
     (let (code, retryable, delay) =
        (case cause of
           TaskFailure e \<Rightarrow>
             (if teCode e \<noteq> [] then teCode e else CollectionTaskExecutionFailedCode,
              teRetryable e,
              if teHasRetryAfter e \<or> teRetryAfter e > 0
              then (let r0 = (if teRetryAfter e < 0 then 0 else teRetryAfter e)
                    in if r0 > hour then hour else r0)
              else taskBackoff taskType attempt)
         | _ \<Rightarrow> (CollectionTaskExecutionFailedCode, True, taskBackoff taskType attempt))
      in (if attempt \<ge> maxAttempts policy taskType then False else retryable, delay, code))"

section \<open>Outcomes reported by the executor\<close>

abbreviation StPending :: string where "StPending \<equiv> ''pending''"
abbreviation StRunning :: string where "StRunning \<equiv> ''running''"
abbreviation StSuccess :: string where "StSuccess \<equiv> ''success''"
abbreviation StFailed :: string where "StFailed \<equiv> ''failed''"
abbreviation StUnavailable :: string where "StUnavailable \<equiv> ''unavailable''"

record CollectionTaskWindowResult =
  wrWindowID :: int
  wrAttemptCount :: int
  wrStatus :: string
  wrNextRetryAt :: "int option"
  wrFetchedRows :: int
  wrWrittenRows :: int
  wrErrorCode :: string
  wrErrorParams :: string

text \<open>
  \<^verbatim>\<open>Add(delay).Unix()\<close>: the clock is read in nanoseconds and the result floored to seconds.
\<close>

definition after_unix :: "int \<Rightarrow> int \<Rightarrow> int" where
  "after_unix nowNanos delay = (nowNanos + delay) div 1000000000"

definition cause_params :: "task_cause \<Rightarrow> string" where
  "cause_params cause = (case cause of TaskFailure e \<Rightarrow> teParams e | _ \<Rightarrow> [])"

definition windowOutcome ::
    "CollectionTaskAttemptPolicy \<Rightarrow> int \<Rightarrow> string \<Rightarrow> int \<times> int \<times> int \<times> int \<times> int \<Rightarrow> int \<times> int
       \<Rightarrow> task_cause option \<Rightarrow> CollectionTaskWindowResult" where
  "windowOutcome policy nowNanos taskType w rows cause =
     (let (windowID, runID, siteID, hourTS, attempt) = w;
          outcome = \<lparr>wrWindowID = windowID, wrAttemptCount = attempt, wrStatus = [],
            wrNextRetryAt = None, wrFetchedRows = fst rows, wrWrittenRows = snd rows,
            wrErrorCode = [], wrErrorParams = []\<rparr>
      in case cause of
           None \<Rightarrow> outcome\<lparr>wrStatus := StSuccess\<rparr>
         | Some Cancelled \<Rightarrow>
             outcome\<lparr>wrStatus := StPending, wrNextRetryAt := Some (after_unix nowNanos 0)\<rparr>
         | Some c \<Rightarrow>
             (let (retryable, delay0, code) = retryDecision taskType attempt c policy;
                  delay = retryDelayWithJitter delay0 taskType runID siteID hourTS attempt;
                  o' = outcome\<lparr>wrErrorCode := code, wrErrorParams := cause_params c\<rparr>
              in if retryable
                 then o'\<lparr>wrStatus := StPending, wrNextRetryAt := Some (after_unix nowNanos delay)\<rparr>
                 else o'\<lparr>wrStatus := StFailed\<rparr>))"

lemma windowOutcome_failure:
  assumes "c \<noteq> Cancelled" "retryDecision taskType attempt c policy = (retryable, delay, code)"
  shows "windowOutcome policy nowNanos taskType (windowID, runID, siteID, hourTS, attempt) rows (Some c) =
    \<lparr>wrWindowID = windowID, wrAttemptCount = attempt, wrStatus = (if retryable then StPending else StFailed),
      wrNextRetryAt = (if retryable
        then Some (after_unix nowNanos (retryDelayWithJitter delay taskType runID siteID hourTS attempt)) else None),
      wrFetchedRows = fst rows, wrWrittenRows = snd rows, wrErrorCode = code, wrErrorParams = cause_params c\<rparr>"
  using assms by (cases c) (simp_all add: windowOutcome_def)

fun monotonicWorkerCommitTime :: "int \<Rightarrow> int list \<Rightarrow> int" where
  "monotonicWorkerCommitTime now [] = now"
| "monotonicWorkerCommitTime now (v # vs) =
     monotonicWorkerCommitTime (if now \<le> v then v + 1 else now) vs"

lemma monotonicWorkerCommitTime_ge: "now \<le> monotonicWorkerCommitTime now vs"
proof (induction now vs rule: monotonicWorkerCommitTime.induct)
  case (2 now v vs)
  then have "(if now \<le> v then v + 1 else now) \<le> monotonicWorkerCommitTime now (v # vs)" by simp
  then show ?case by (auto split: if_splits)
qed simp

lemma monotonicWorkerCommitTime_later: "v \<in> set vs \<Longrightarrow> v < monotonicWorkerCommitTime now vs"
proof (induction now vs rule: monotonicWorkerCommitTime.induct)
  case (2 now u vs)
  have "(if now \<le> u then u + 1 else now) \<le> monotonicWorkerCommitTime now (u # vs)"
    using monotonicWorkerCommitTime_ge by simp
  then have "u < monotonicWorkerCommitTime now (u # vs)" by (auto split: if_splits)
  then show ?case using 2 by auto
qed simp

section \<open>Bounds\<close>

lemma taskBackoff_bounds: "minute \<le> taskBackoff t a" "taskBackoff t a \<le> 6 * hour"
  by (simp_all add: taskBackoff_def Let_def minute_def hour_def)

lemma retryDelay_nonpos: "base \<le> 0 \<Longrightarrow> retryDelayWithJitter base t r s h a = base"
  by (simp add: retryDelayWithJitter_def Let_def)

lemma retryDelay_bounds:
  assumes "0 \<le> base"
  shows "base \<le> retryDelayWithJitter base t r s h a"
    and "retryDelayWithJitter base t r s h a \<le> base + base div 5"
proof -
  have m: "0 \<le> base div 5" using assms by simp
  have "0 \<le> x mod (base div 5 + 1) \<and> x mod (base div 5 + 1) \<le> base div 5" for x
    using m pos_mod_bound [of "base div 5 + 1" x] pos_mod_sign [of "base div 5 + 1" x] by linarith
  then show "base \<le> retryDelayWithJitter base t r s h a"
    "retryDelayWithJitter base t r s h a \<le> base + base div 5"
    using m by (auto simp: retryDelayWithJitter_def Let_def)
qed

lemma retryDecision_delay: "retryDecision t a c p = (r, d, code) \<Longrightarrow> 0 \<le> d \<and> d \<le> 6 * hour"
  using taskBackoff_bounds [of t a]
  by (auto simp: retryDecision_def Let_def minute_def hour_def split: task_cause.splits if_splits)

lemma retryDecision_code: "retryDecision t a c p = (r, d, code) \<Longrightarrow> code \<noteq> []"
  by (auto simp: retryDecision_def Let_def split: task_cause.splits if_splits)

lemma retryDecision_budget: "retryDecision t a c p = (True, d, code) \<Longrightarrow> a < maxAttempts p t"
  by (auto simp: retryDecision_def Let_def split: task_cause.splits if_splits)

end
