(* ===== verification/Collection_Schema.thy ===== *)
theory Collection_Schema
  imports Task_Retry "HOL-Library.Product_Lexorder" "HOL-Library.Multiset"
begin

text \<open>
  The rows the collection engine reads and writes, as records whose fields are the columns its
  operations use, and the part of the database that holds them. A repository method runs in one
  transaction: it maps a store to an error, which leaves the store as it was, or to the new store
  and a result. Rows are kept in insertion order; \<^verbatim>\<open>ORDER BY\<close> is a stable sort, \<^verbatim>\<open>First\<close> by
  primary key is \<open>find\<close>, an \<^verbatim>\<open>UPDATE ... WHERE\<close> is \<open>update_where\<close>. Row locks and \<^verbatim>\<open>SKIP LOCKED\<close>
  only order transactions, so they do not appear; failures of the database connection abort the
  transaction and do not appear either.
\<close>

section \<open>Errors\<close>

datatype run_error =
    ErrCollectionRunContract | ErrCollectionTaskUnavailable | ErrCollectionTaskClaimLost
  | ErrSiteRunConfigChanged | ErrSiteRunManagementInactive | ErrSiteRunAuthorizationNeeded
  | ErrSiteRunStatisticsEnded | ErrSiteRunExportDisabled | ErrSiteRunCapabilitiesPending
  | ErrSiteWindowRunOverlap | ErrRecordNotFound | ErrRebuildRunNotReady | ErrCustomerDisabled
  | ErrAccountRestoreContract | ErrCustomerLifecycleContract | ErrCustomerEnableNotReady
  | ErrInvalidSiteFenceTarget | ErrMutationFailed

type_synonym 'a result = "run_error + 'a"

section \<open>Rows\<close>

record Site =
  sID :: int
  sConfigVersion :: int
  sManagementStatus :: string
  sOnlineStatus :: string
  sAuthStatus :: string
  sStatisticsStatus :: string
  sDataExportEnabled :: bool
  sStatisticsStartAt :: "int option"
  sStatisticsEndAt :: "int option"
  sUpdatedAt :: int

record SiteCapability =
  capSiteID :: int
  capKey :: string
  capStatus :: string

record Account =
  aID :: int
  aSiteID :: int
  aCustomerID :: int
  aRemoteState :: string
  aManagedStatus :: string
  aStatisticsPausedAt :: "int option"
  aBackfillStatus :: string
  aUpdatedAt :: int

record Customer =
  cID :: int
  cStatus :: string
  cStatisticsPausedAt :: "int option"
  cBackfillStatus :: string
  cUpdatedAt :: int

text \<open>
  A run's \<^verbatim>\<open>scope\<close> column is its decoded JSON document: blank text, an object with its members in
  order, or any other text; \<open>usage_facts\<close> holds the site and hour of each hourly fact row; an empty \<^verbatim>\<open>error_params\<close> text is the column's NULL. Stored scopes are always the compact text \<^verbatim>\<open>Marshal\<close> gives a document.
\<close>

datatype scope_value = ScopeBool bool | ScopeNull | ScopeOther
datatype scope_doc = ScopeBlank | ScopeObject "(string \<times> scope_value) list" | ScopeText

record CollectionRun =
  rID :: int
  rSiteID :: "int option"
  rSiteConfigVersion :: int
  rTaskType :: string
  rTargetType :: string
  rTargetID :: int
  rTriggerType :: string
  rStartTimestamp :: "int option"
  rEndTimestamp :: "int option"
  rScope :: scope_doc
  rActiveKey :: "string option"
  rStatus :: string
  rFetchedRows :: int
  rWrittenRows :: int
  rRetryCount :: int
  rPriority :: int
  rNextAttemptAt :: int
  rHeartbeatAt :: "int option"
  rWindowsInitializedAt :: "int option"
  rTotalWindows :: int
  rCompletedWindows :: int
  rFailedWindows :: int
  rCreatedRequestID :: string
  rLastRequestID :: string
  rErrorCode :: string
  rErrorParams :: string
  rErrorMessage :: "string option"
  rStartedAt :: "int option"
  rFinishedAt :: "int option"
  rCreatedAt :: int
  rUpdatedAt :: int

record CollectionRunWindow =
  wID :: int
  wRunID :: int
  wSiteID :: int
  wHourTS :: int
  wStatus :: string
  wAttemptCount :: int
  wNextRetryAt :: "int option"
  wFetchedRows :: int
  wWrittenRows :: int
  wErrorCode :: string
  wErrorParams :: string
  wErrorMessage :: "string option"
  wStartedAt :: "int option"
  wFinishedAt :: "int option"
  wUpdatedAt :: int

record CollectionWindow =
  fSiteID :: int
  fHourTS :: int
  fStatus :: string
  fFactRows :: int
  fVerifiedAt :: "int option"
  fLastErrorCode :: string

record store =
  sites :: "Site list"
  capabilities :: "SiteCapability list"
  accounts :: "Account list"
  customers :: "Customer list"
  runs :: "CollectionRun list"
  run_windows :: "CollectionRunWindow list"
  fact_windows :: "CollectionWindow list"
  usage_facts :: "(int \<times> int) list"
  next_run_id :: int
  next_window_id :: int

section \<open>Queries shared by the repositories\<close>

definition found :: "'a option \<Rightarrow> 'a result" where
  "found r = (case r of None \<Rightarrow> Inl ErrRecordNotFound | Some x \<Rightarrow> Inr x)"

lemma found_simps [simp]: "found None = Inl ErrRecordNotFound" "found (Some x) = Inr x"
  by (simp_all add: found_def)

lemma found_Inr_conv [simp]: "found r = Inr x \<longleftrightarrow> r = Some x"
  by (cases r) simp_all

definition site_by_id :: "store \<Rightarrow> int \<Rightarrow> Site option" where
  "site_by_id db i = find (\<lambda>s. sID s = i) (sites db)"

definition run_by_id :: "store \<Rightarrow> int \<Rightarrow> CollectionRun option" where
  "run_by_id db i = find (\<lambda>r. rID r = i) (runs db)"

definition windows_of :: "store \<Rightarrow> int \<Rightarrow> CollectionRunWindow list" where
  "windows_of db i = filter (\<lambda>w. wRunID w = i) (run_windows db)"

text \<open>\<^verbatim>\<open>ORDER BY hour_ts ASC, id ASC\<close>, the order in which a run's windows are read for recalculation.\<close>

definition windows_by_hour :: "store \<Rightarrow> int \<Rightarrow> CollectionRunWindow list" where
  "windows_by_hour db i = sort_key (\<lambda>w. (wHourTS w, wID w)) (windows_of db i)"

definition affected :: "('a \<Rightarrow> bool) \<Rightarrow> 'a list \<Rightarrow> nat" where
  "affected P xs = length (filter P xs)"

definition update_runs :: "(CollectionRun \<Rightarrow> bool) \<Rightarrow> (CollectionRun \<Rightarrow> CollectionRun) \<Rightarrow> store \<Rightarrow> store" where
  "update_runs P f db = db\<lparr>runs := update_where P f (runs db)\<rparr>"

definition update_windows ::
    "(CollectionRunWindow \<Rightarrow> bool) \<Rightarrow> (CollectionRunWindow \<Rightarrow> CollectionRunWindow) \<Rightarrow> store \<Rightarrow> store" where
  "update_windows P f db = db\<lparr>run_windows := update_where P f (run_windows db)\<rparr>"

definition is_active :: "string \<Rightarrow> bool" where
  "is_active st \<longleftrightarrow> st = StPending \<or> st = StRunning"

definition is_terminal :: "string \<Rightarrow> bool" where
  "is_terminal st \<longleftrightarrow> st = StSuccess \<or> st = StFailed \<or> st = StUnavailable"

lemma run_by_id_Some: "run_by_id db i = Some r \<Longrightarrow> r \<in> set (runs db) \<and> rID r = i"
  by (auto simp: run_by_id_def dest: find_Some_set)

lemma run_by_id_unique:
  "distinct (map rID (runs db)) \<Longrightarrow> run_by_id db i = Some r \<longleftrightarrow> r \<in> set (runs db) \<and> rID r = i"
proof
  assume d: "distinct (map rID (runs db))" and r: "r \<in> set (runs db) \<and> rID r = i"
  obtain s where s: "run_by_id db i = Some s"
    using find_exists [of r "runs db" "\<lambda>r. rID r = i"] r by (auto simp: run_by_id_def)
  then have "s \<in> set (runs db)" "rID s = i" using run_by_id_Some by auto
  then show "run_by_id db i = Some r" using d r s by (auto simp: distinct_map inj_on_def)
qed (auto dest: run_by_id_Some)

lemma set_windows_by_hour [simp]: "set (windows_by_hour db i) = {w \<in> set (run_windows db). wRunID w = i}"
  by (auto simp: windows_by_hour_def windows_of_def)

lemma mset_windows_by_hour [simp]: "mset (windows_by_hour db i) = mset (windows_of db i)"
  by (simp add: windows_by_hour_def)

section \<open>Identifiers and site gates\<close>

definition request_id_char :: "char \<Rightarrow> bool" where
  "request_id_char c \<longleftrightarrow> (let n = of_char c :: nat in
     (65 \<le> n \<and> n \<le> 90) \<or> (97 \<le> n \<and> n \<le> 122) \<or> (48 \<le> n \<and> n \<le> 57) \<or> c = CHR ''.'' \<or> c = CHR ''_'' \<or> c = CHR ''-'')"

definition validCollectionRequestID :: "string \<Rightarrow> bool" where
  "validCollectionRequestID v \<longleftrightarrow> 1 \<le> length v \<and> length v \<le> 64 \<and> list_all request_id_char v"

abbreviation SiteActive :: string where "SiteActive \<equiv> ''active''"
abbreviation SiteAuthorized :: string where "SiteAuthorized \<equiv> ''authorized''"
abbreviation SiteOffline :: string where "SiteOffline \<equiv> ''offline''"

definition siteAllowsTask :: "Site \<Rightarrow> string \<Rightarrow> bool" where
  "siteAllowsTask site taskType =
     (if sConfigVersion site \<le> 0 then False
      else if taskType = TaskTypeSiteProbe
        then sManagementStatus site = SiteActive \<and> sStatisticsEndAt site = None
      else if sManagementStatus site \<noteq> SiteActive \<or> sAuthStatus site \<noteq> SiteAuthorized
          \<or> sStatisticsEndAt site \<noteq> None then False
      else if CollectionTaskWindowed taskType \<and> \<not> sDataExportEnabled site then False
      else True)"

definition schedulerSiteEligible :: "Site \<Rightarrow> string \<Rightarrow> bool" where
  "schedulerSiteEligible site taskType =
     (if taskType = TaskTypeSiteProbe
        then sID site > 0 \<and> sConfigVersion site > 0 \<and> sManagementStatus site = SiteActive
          \<and> sStatisticsEndAt site = None
      else if sManagementStatus site \<noteq> SiteActive \<or> sAuthStatus site \<noteq> SiteAuthorized
          \<or> sStatisticsEndAt site \<noteq> None \<or> sOnlineStatus site = SiteOffline then False
      else if CollectionTaskWindowed taskType \<and> \<not> sDataExportEnabled site then False
      else True)"

lemma eligible_allows:
  "schedulerSiteEligible site t \<Longrightarrow> sConfigVersion site > 0 \<Longrightarrow> siteAllowsTask site t"
  by (auto simp: schedulerSiteEligible_def siteAllowsTask_def split: if_splits)

definition siteCapabilityKeys :: "string list" where
  "siteCapabilityKeys = [''status_contract'', ''self_identity'', ''root_identity'', ''first_user_proof'',
     ''user_pagination'', ''channel_pagination'', ''data_export_enabled'', ''flow_contract'',
     ''data_contract'', ''flow_data_consistency'', ''instance_contract'', ''realtime_contract'']"

end
