(* ===== verification/Site_Run.thy ===== *)
theory Site_Run
  imports Collection_Schema
begin

text \<open>
  Creation of collection runs (\<^verbatim>\<open>model/site_run.go\<close>, \<^verbatim>\<open>model/site_fence.go\<close> and the enqueue methods of
  \<^verbatim>\<open>model/collection_task.go\<close>): the gate a site must pass, the canonical scope and active key of a
  run, the validation of a new row, the insert that returns an equal active run instead of a
  duplicate, and the window runs that fill the uncovered part of a time range.
\<close>

section \<open>Runnable sites\<close>

definition validateRunnableSiteSnapshot ::
    "Site \<Rightarrow> SiteCapability list \<Rightarrow> int \<Rightarrow> string list \<Rightarrow> unit result" where
  "validateRunnableSiteSnapshot site caps expectedConfigVersion excluded =
     (if sID site \<le> 0 \<or> expectedConfigVersion \<le> 0 \<or> sConfigVersion site \<noteq> expectedConfigVersion
        then Inl ErrSiteRunConfigChanged
      else if sManagementStatus site \<noteq> SiteActive then Inl ErrSiteRunManagementInactive
      else if sAuthStatus site \<noteq> SiteAuthorized then Inl ErrSiteRunAuthorizationNeeded
      else if sStatisticsEndAt site \<noteq> None then Inl ErrSiteRunStatisticsEnded
      else if \<not> sDataExportEnabled site then Inl ErrSiteRunExportDisabled
      else if \<not> distinct (map capKey caps) then Inl ErrSiteRunCapabilitiesPending
      else let statuses = map_of (map (\<lambda>c. (capKey c, capStatus c)) caps);
               keys = filter (\<lambda>k. k \<notin> set excluded) siteCapabilityKeys;
               known = length (filter (\<lambda>k. statuses k \<noteq> None) keys)
           in if known \<noteq> length siteCapabilityKeys - length excluded then Inl ErrSiteRunCapabilitiesPending
              else if list_all (\<lambda>k. case statuses k of None \<Rightarrow> False
                     | Some st \<Rightarrow> \<not> (st = ''failed'' \<or> (st = ''skipped'' \<and> k \<noteq> ''flow_data_consistency'')
                                    \<or> (st \<noteq> ''passed'' \<and> st \<noteq> ''skipped''))) keys
              then Inr () else Inl ErrSiteRunCapabilitiesPending)"

definition ValidateRunnableSiteSnapshotForTask ::
    "Site \<Rightarrow> SiteCapability list \<Rightarrow> int \<Rightarrow> string \<Rightarrow> unit result" where
  "ValidateRunnableSiteSnapshotForTask site caps v taskType =
     validateRunnableSiteSnapshot site caps v
       (if taskType = TaskTypeUsageBackfill then [''realtime_contract''] else [])"

definition site_capabilities :: "store \<Rightarrow> int \<Rightarrow> SiteCapability list" where
  "site_capabilities db i = filter (\<lambda>c. capSiteID c = i) (capabilities db)"

definition LockRunnableSiteSnapshot :: "store \<Rightarrow> int \<Rightarrow> int \<Rightarrow> Site result" where
  "LockRunnableSiteSnapshot db siteID v =
     and_then (found (site_by_id db siteID)) (\<lambda>site.
     and_then (validateRunnableSiteSnapshot site (site_capabilities db siteID) v []) (\<lambda>_. Inr site))"

section \<open>Scope documents\<close>

text \<open>
  \<^verbatim>\<open>encoding/json\<close> matches a struct field by case folding; \<^verbatim>\<open>DecodeJSON\<close> refuses duplicate and
  unknown members. Two members that differ only in case are both the field, and the last one wins.
\<close>

fun fold_key :: "string \<Rightarrow> string" where
  "fold_key [] = []"
| "fold_key (c # cs) =
     (if prefix (map char_of [197, 191 :: nat]) (c # cs) then CHR ''s'' # fold_key (drop 1 cs)
      else if prefix (map char_of [226, 132, 170 :: nat]) (c # cs) then CHR ''k'' # fold_key (drop 2 cs)
      else lower_byte c # fold_key cs)"

declare fold_key.simps [simp del]

definition decode_only_missing :: "(string \<times> scope_value) list \<Rightarrow> bool option result" where
  "decode_only_missing members =
     (if \<not> distinct (map fst members) then Inl ErrCollectionRunContract
      else foldl (\<lambda>acc (k, v). and_then acc (\<lambda>_.
             if fold_key k \<noteq> ''only_missing'' then Inl ErrCollectionRunContract
             else case v of ScopeBool b \<Rightarrow> Inr (Some b) | ScopeNull \<Rightarrow> Inr None
                  | ScopeOther \<Rightarrow> Inl ErrCollectionRunContract)) (Inr None) members)"

definition NewUsageBackfillRunScope :: "bool \<Rightarrow> scope_doc" where
  "NewUsageBackfillRunScope b = ScopeObject [(''only_missing'', ScopeBool b)]"

definition CanonicalCollectionRunScope :: "string \<Rightarrow> scope_doc \<Rightarrow> scope_doc result" where
  "CanonicalCollectionRunScope taskType scope =
     (if \<not> ValidCollectionTaskType taskType then Inl ErrCollectionRunContract
      else case scope of
             ScopeText \<Rightarrow> Inl ErrCollectionRunContract
           | ScopeBlank \<Rightarrow> (if taskType = TaskTypeUsageBackfill then Inr (NewUsageBackfillRunScope True)
                           else Inr (ScopeObject []))
           | ScopeObject members \<Rightarrow>
               (if taskType = TaskTypeUsageBackfill
                then and_then (decode_only_missing members) (\<lambda>v.
                       case v of None \<Rightarrow> Inl ErrCollectionRunContract
                       | Some b \<Rightarrow> Inr (NewUsageBackfillRunScope b))
                else if members = [] then Inr (ScopeObject []) else Inl ErrCollectionRunContract))"

definition UsageBackfillOnlyMissing :: "scope_doc \<Rightarrow> bool result" where
  "UsageBackfillOnlyMissing scope =
     and_then (CanonicalCollectionRunScope TaskTypeUsageBackfill scope) (\<lambda>doc.
       case doc of ScopeObject [(k, ScopeBool b)] \<Rightarrow> Inr b | _ \<Rightarrow> Inl ErrCollectionRunContract)"

lemma fold_key_only_missing: "fold_key ''only_missing'' = ''only_missing''"
  by code_simp

lemma canonical_scope_new:
  "CanonicalCollectionRunScope TaskTypeUsageBackfill (NewUsageBackfillRunScope b) = Inr (NewUsageBackfillRunScope b)"
  by (simp add: CanonicalCollectionRunScope_def NewUsageBackfillRunScope_def decode_only_missing_def
      fold_key_only_missing catalog_defs)

lemma canonical_scope_idem:
  assumes "CanonicalCollectionRunScope t s = Inr s'"
  shows "CanonicalCollectionRunScope t s' = Inr s'"
proof (cases "t = TaskTypeUsageBackfill")
  case True
  with assms have "\<exists>b. s' = NewUsageBackfillRunScope b"
    unfolding CanonicalCollectionRunScope_def
    by (cases s) (auto simp: and_then_Inr_conv split: if_splits option.splits)
  then show ?thesis using True canonical_scope_new by auto
next
  case False
  with assms have "s' = ScopeObject []" "ValidCollectionTaskType t"
    unfolding CanonicalCollectionRunScope_def by (cases s; simp split: if_splits)+
  then show ?thesis using False by (simp add: CanonicalCollectionRunScope_def)
qed

section \<open>Rows for new runs\<close>

definition CollectionRunActiveKey ::
    "string \<Rightarrow> string \<Rightarrow> int \<Rightarrow> int option \<Rightarrow> int option \<Rightarrow> string result" where
  "CollectionRunActiveKey taskType targetType targetID start end' =
     (if CollectionTaskTarget taskType \<noteq> Some targetType \<or> targetID \<le> 0
         \<or> (start = None) \<noteq> (end' = None) then Inl ErrCollectionRunContract
      else case (start, end') of
             (Some s, Some e) \<Rightarrow>
               (if s \<le> 0 \<or> e \<le> 0 then Inl ErrCollectionRunContract
                else Inr (taskType @ '':'' @ targetType @ '':'' @ FormatInt targetID @ '':''
                       @ FormatInt s @ '':'' @ FormatInt e))
           | _ \<Rightarrow> Inr (taskType @ '':'' @ targetType @ '':'' @ FormatInt targetID @ ''::''))"

record SiteRunSpec =
  spTaskType :: string
  spTriggerType :: string
  spStartTimestamp :: "int option"
  spEndTimestamp :: "int option"
  spScope :: scope_doc
  spPriority :: int
  spRequestID :: string
  spNow :: int

definition aligned_range :: "int option \<Rightarrow> int option \<Rightarrow> bool" where
  "aligned_range start end' \<longleftrightarrow>
     (case (start, end') of (Some s, Some e) \<Rightarrow> 0 < s \<and> s mod 3600 = 0 \<and> e mod 3600 = 0 \<and> s \<le> e
      | _ \<Rightarrow> False)"

definition NewSiteCollectionRun :: "Site \<Rightarrow> SiteRunSpec \<Rightarrow> CollectionRun result" where
  "NewSiteCollectionRun site spec =
     (if sID site \<le> 0 \<or> sConfigVersion site \<le> 0 \<or> CollectionTaskTarget (spTaskType spec) \<noteq> Some ''site''
         \<or> \<not> ValidCollectionTriggerType (spTriggerType spec)
         \<or> \<not> ValidCollectionTaskPriority (spTaskType spec) (spTriggerType spec) (spPriority spec)
         \<or> \<not> validCollectionRequestID (spRequestID spec) \<or> spNow spec \<le> 0
        then Inl ErrCollectionRunContract
      else if (if CollectionTaskWindowed (spTaskType spec)
               then \<not> aligned_range (spStartTimestamp spec) (spEndTimestamp spec)
               else spStartTimestamp spec \<noteq> None \<or> spEndTimestamp spec \<noteq> None)
        then Inl ErrCollectionRunContract
      else
        and_then (CanonicalCollectionRunScope (spTaskType spec) (spScope spec)) (\<lambda>scope.
        and_then (CollectionRunActiveKey (spTaskType spec) ''site'' (sID site)
            (spStartTimestamp spec) (spEndTimestamp spec)) (\<lambda>activeKey.
        Inr \<lparr>rID = 0, rSiteID = Some (sID site), rSiteConfigVersion = sConfigVersion site,
          rTaskType = spTaskType spec, rTargetType = ''site'', rTargetID = sID site,
          rTriggerType = spTriggerType spec, rStartTimestamp = spStartTimestamp spec,
          rEndTimestamp = spEndTimestamp spec, rScope = scope, rActiveKey = Some activeKey,
          rStatus = StPending, rFetchedRows = 0, rWrittenRows = 0, rRetryCount = 0,
          rPriority = spPriority spec, rNextAttemptAt = spNow spec, rHeartbeatAt = None,
          rWindowsInitializedAt =
            (if CollectionTaskWindowed (spTaskType spec) then None else Some (spNow spec)),
          rTotalWindows = 0, rCompletedWindows = 0, rFailedWindows = 0,
          rCreatedRequestID = spRequestID spec, rLastRequestID = spRequestID spec,
          rErrorCode = [], rErrorParams = [], rErrorMessage = None, rStartedAt = None,
          rFinishedAt = None, rCreatedAt = spNow spec, rUpdatedAt = spNow spec\<rparr>)))"

definition ValidateCollectionRunForCreate :: "CollectionRun \<Rightarrow> unit result" where
  "ValidateCollectionRunForCreate run =
     (if CollectionTaskTarget (rTaskType run) \<noteq> Some (rTargetType run) \<or> rTargetID run \<le> 0
         \<or> \<not> ValidCollectionTriggerType (rTriggerType run)
         \<or> \<not> ValidCollectionTaskPriority (rTaskType run) (rTriggerType run) (rPriority run)
         \<or> \<not> validCollectionRequestID (rCreatedRequestID run) \<or> rLastRequestID run \<noteq> rCreatedRequestID run
         \<or> rCreatedAt run \<le> 0 \<or> rUpdatedAt run \<noteq> rCreatedAt run \<or> rNextAttemptAt run \<le> 0
         \<or> rTotalWindows run \<noteq> 0 \<or> rCompletedWindows run \<noteq> 0 \<or> rFailedWindows run \<noteq> 0 \<or> rRetryCount run \<noteq> 0
        then Inl ErrCollectionRunContract
      else if (if rTargetType run = ''site''
               then rSiteID run \<noteq> Some (rTargetID run) \<or> rSiteConfigVersion run \<le> 0
               else rSiteID run \<noteq> None \<or> rSiteConfigVersion run \<noteq> 0)
        then Inl ErrCollectionRunContract
      else if CanonicalCollectionRunScope (rTaskType run) (rScope run) \<noteq> Inr (rScope run)
        then Inl ErrCollectionRunContract
      else if (if CollectionTaskWindowed (rTaskType run)
               then \<not> aligned_range (rStartTimestamp run) (rEndTimestamp run)
               else rStartTimestamp run \<noteq> None \<or> rEndTimestamp run \<noteq> None \<or> rWindowsInitializedAt run = None)
        then Inl ErrCollectionRunContract
      else if rStatus run = StPending
        then (if rActiveKey run = None
                 \<or> (CollectionTaskWindowed (rTaskType run) \<and> rWindowsInitializedAt run \<noteq> None)
                 \<or> rFinishedAt run \<noteq> None then Inl ErrCollectionRunContract
              else case CollectionRunActiveKey (rTaskType run) (rTargetType run) (rTargetID run)
                          (rStartTimestamp run) (rEndTimestamp run) of
                     Inl _ \<Rightarrow> Inl ErrCollectionRunContract
                   | Inr key \<Rightarrow> (if rActiveKey run \<noteq> Some key then Inl ErrCollectionRunContract else Inr ()))
      else Inl ErrCollectionRunContract)"

definition sameActiveCollectionRun :: "CollectionRun \<Rightarrow> CollectionRun \<Rightarrow> bool" where
  "sameActiveCollectionRun existing requested =
     (if rActiveKey existing = None \<or> rActiveKey requested = None
         \<or> rActiveKey existing \<noteq> rActiveKey requested
         \<or> (rStatus existing \<noteq> StPending \<and> rStatus existing \<noteq> StRunning)
         \<or> rTaskType existing \<noteq> rTaskType requested \<or> rTargetType existing \<noteq> rTargetType requested
         \<or> rTargetID existing \<noteq> rTargetID requested
         \<or> rSiteConfigVersion existing \<noteq> rSiteConfigVersion requested
         \<or> rSiteID existing \<noteq> rSiteID requested
         \<or> rStartTimestamp existing \<noteq> rStartTimestamp requested
         \<or> rEndTimestamp existing \<noteq> rEndTimestamp requested then False
      else case CollectionRunActiveKey (rTaskType existing) (rTargetType existing) (rTargetID existing)
                  (rStartTimestamp existing) (rEndTimestamp existing) of
             Inl _ \<Rightarrow> False
           | Inr key \<Rightarrow> rActiveKey existing = Some key)"

text \<open>
  The insert ignores a duplicate of the unique key on \<^verbatim>\<open>active_key\<close>; the key of a new row is the
  next auto-increment value.
\<close>

definition insert_run :: "store \<Rightarrow> CollectionRun \<Rightarrow> store \<times> CollectionRun" where
  "insert_run db run =
     (let r = run\<lparr>rID := next_run_id db\<rparr>
      in (db\<lparr>runs := runs db @ [r], next_run_id := next_run_id db + 1\<rparr>, r))"

definition CreateOrGetRun :: "store \<Rightarrow> CollectionRun \<Rightarrow> (store \<times> CollectionRun \<times> bool) result" where
  "CreateOrGetRun db run =
     (if ValidateCollectionRunForCreate run \<noteq> Inr () then Inl ErrCollectionRunContract
      else case find (\<lambda>r. rActiveKey r \<noteq> None \<and> rActiveKey r = rActiveKey run) (runs db) of
             None \<Rightarrow> (let (db', r) = insert_run db run in Inr (db', r, False))
           | Some existing \<Rightarrow>
               (if sameActiveCollectionRun existing run then Inr (db, existing, True)
                else Inl ErrCollectionRunContract))"

section \<open>Uncovered ranges\<close>

type_synonym siteWindowRange = "int \<times> int"

fun uncovered_loop :: "int \<Rightarrow> int \<Rightarrow> CollectionRun list \<Rightarrow> siteWindowRange list" where
  "uncovered_loop end' cursor [] = (if cursor < end' then [(cursor, end')] else [])"
| "uncovered_loop end' cursor (r # rs) =
     (case (rStartTimestamp r, rEndTimestamp r) of
        (Some s, Some e) \<Rightarrow>
          (if e \<le> cursor then uncovered_loop end' cursor rs
           else let gap = (if s > cursor
                           then let gapEnd = (if s > end' then end' else s)
                                in if cursor < gapEnd then [(cursor, gapEnd)] else []
                           else [])
                in if e \<ge> end' then gap else gap @ uncovered_loop end' e rs)
      | _ \<Rightarrow> uncovered_loop end' cursor rs)"

definition uncoveredSiteWindowRanges :: "int \<Rightarrow> int \<Rightarrow> CollectionRun list \<Rightarrow> siteWindowRange list" where
  "uncoveredSiteWindowRanges start end' active =
     (if start \<ge> end' then [(start, end')] else uncovered_loop end' start active)"

fun collectable_loop :: "int \<Rightarrow> int \<Rightarrow> CollectionWindow list \<Rightarrow> siteWindowRange list result" where
  "collectable_loop end' cursor [] = Inr (if cursor < end' then [(cursor, end')] else [])"
| "collectable_loop end' cursor (w # ws) =
     (if fHourTS w mod 3600 \<noteq> 0 \<or> fHourTS w < cursor \<or> fHourTS w \<ge> end' then Inl ErrCollectionRunContract
      else and_then (collectable_loop end' (fHourTS w + 3600) ws) (\<lambda>ranges.
             Inr (if cursor < fHourTS w then (cursor, fHourTS w) # ranges else ranges)))"

definition settled_windows :: "store \<Rightarrow> int \<Rightarrow> int \<Rightarrow> int \<Rightarrow> CollectionWindow list" where
  "settled_windows db siteID start end' =
     sort_key fHourTS (filter (\<lambda>w. fSiteID w = siteID \<and> start \<le> fHourTS w \<and> fHourTS w < end'
       \<and> (fStatus w = ''complete'' \<or> fStatus w = ''unavailable'')) (fact_windows db))"

definition collectableUsageBackfillRanges ::
    "store \<Rightarrow> int \<Rightarrow> int \<Rightarrow> int \<Rightarrow> siteWindowRange list result" where
  "collectableUsageBackfillRanges db siteID start end' =
     collectable_loop end' start (settled_windows db siteID start end')"

section \<open>Window runs\<close>

datatype SiteWindowRunCreateMode = SiteWindowRunStrict | SiteWindowRunSchedule | SiteWindowRunGaps | OtherMode

record SiteWindowRunCreateRequest =
  wqSiteID :: int
  wqExpectedConfigVersion :: int
  wqTaskType :: string
  wqTriggerType :: string
  wqStartTimestamp :: int
  wqEndTimestamp :: int
  wqScope :: scope_doc
  wqPriority :: int
  wqRequestID :: string
  wqNow :: int
  wqMode :: SiteWindowRunCreateMode

definition createSiteWindowGap ::
    "Site \<Rightarrow> SiteWindowRunCreateRequest \<Rightarrow> store \<Rightarrow> siteWindowRange \<Rightarrow> (store \<times> CollectionRun \<times> bool) result" where
  "createSiteWindowGap site request db gap =
     and_then (NewSiteCollectionRun site \<lparr>spTaskType = wqTaskType request, spTriggerType = wqTriggerType request,
         spStartTimestamp = Some (fst gap), spEndTimestamp = Some (snd gap), spScope = wqScope request,
         spPriority = wqPriority request, spRequestID = wqRequestID request, spNow = wqNow request\<rparr>)
       (\<lambda>run. CreateOrGetRun db run)"

fun create_gaps ::
    "Site \<Rightarrow> SiteWindowRunCreateRequest \<Rightarrow> store \<Rightarrow> siteWindowRange list
       \<Rightarrow> (store \<times> (CollectionRun \<times> bool) list) result" where
  "create_gaps site request db [] = Inr (db, [])"
| "create_gaps site request db (g # gs) =
     and_then (createSiteWindowGap site request db g) (\<lambda>(db', r, dedup).
     and_then (create_gaps site request db' gs) (\<lambda>(db'', rs). Inr (db'', (r, dedup) # rs)))"

text \<open>The active runs of the request's task family that overlap its range, in the order of the query.\<close>

definition overlapping_active :: "store \<Rightarrow> SiteWindowRunCreateRequest \<Rightarrow> string list \<Rightarrow> CollectionRun list" where
  "overlapping_active db request familyTypes =
     (if wqStartTimestamp request < wqEndTimestamp request
      then sort_key (\<lambda>r. (the (rStartTimestamp r), the (rEndTimestamp r), rID r))
        (filter (\<lambda>r. rSiteID r = Some (wqSiteID request) \<and> rTaskType r \<in> set familyTypes \<and> is_active (rStatus r)
           \<and> (case (rStartTimestamp r, rEndTimestamp r) of
                (Some s, Some e) \<Rightarrow> s < wqEndTimestamp request \<and> e > wqStartTimestamp request
              | _ \<Rightarrow> False)) (runs db))
      else [])"

definition consistent_active :: "Site \<Rightarrow> CollectionRun \<Rightarrow> bool" where
  "consistent_active site existing \<longleftrightarrow>
     rSiteConfigVersion existing = sConfigVersion site
     \<and> rStartTimestamp existing \<noteq> None \<and> rEndTimestamp existing \<noteq> None
     \<and> (case CollectionRunActiveKey (rTaskType existing) (rTargetType existing) (rTargetID existing)
              (rStartTimestamp existing) (rEndTimestamp existing) of
          Inl _ \<Rightarrow> False | Inr key \<Rightarrow> rActiveKey existing = Some key)
     \<and> (case CanonicalCollectionRunScope (rTaskType existing) (rScope existing) of
          Inl _ \<Rightarrow> False | Inr _ \<Rightarrow> True)"

definition create_strict ::
    "Site \<Rightarrow> SiteWindowRunCreateRequest \<Rightarrow> store \<Rightarrow> CollectionRun list
       \<Rightarrow> (store \<times> (CollectionRun \<times> bool) list) result" where
  "create_strict site request db active =
     (case find (\<lambda>r. rTaskType r = wqTaskType request \<and> rStartTimestamp r = Some (wqStartTimestamp request)
                  \<and> rEndTimestamp r = Some (wqEndTimestamp request)) active of
        Some existing \<Rightarrow>
          (if rActiveKey existing = None then Inl ErrCollectionRunContract
           else Inr (db, [(existing, True)]))
      | None \<Rightarrow>
          (if active \<noteq> [] then Inl ErrSiteWindowRunOverlap
           else create_gaps site request db [(wqStartTimestamp request, wqEndTimestamp request)]))"

fun create_uncovered ::
    "Site \<Rightarrow> SiteWindowRunCreateRequest \<Rightarrow> store \<Rightarrow> siteWindowRange list
       \<Rightarrow> (store \<times> (CollectionRun \<times> bool) list) result" where
  "create_uncovered site request db [] = Inr (db, [])"
| "create_uncovered site request db (gap # gaps) =
     and_then (if wqTaskType request = TaskTypeUsageBackfill
               then collectableUsageBackfillRanges db (wqSiteID request) (fst gap) (snd gap)
               else Inr [gap]) (\<lambda>candidates.
     and_then (create_gaps site request db candidates) (\<lambda>(db', rs).
     and_then (create_uncovered site request db' gaps) (\<lambda>(db'', rs'). Inr (db'', rs @ rs'))))"

definition CreateSiteWindowRun ::
    "store \<Rightarrow> SiteWindowRunCreateRequest \<Rightarrow> (store \<times> (CollectionRun \<times> bool) list) result" where
  "CreateSiteWindowRun db request =
     (if wqSiteID request \<le> 0 \<or> wqExpectedConfigVersion request \<le> 0
         \<or> CollectionTaskTarget (wqTaskType request) \<noteq> Some ''site''
         \<or> \<not> CollectionTaskWindowed (wqTaskType request)
         \<or> wqStartTimestamp request \<le> 0 \<or> wqEndTimestamp request < wqStartTimestamp request
         \<or> wqStartTimestamp request mod 3600 \<noteq> 0 \<or> wqEndTimestamp request mod 3600 \<noteq> 0
         \<or> wqMode request = OtherMode then Inl ErrCollectionRunContract
      else if wqMode request = SiteWindowRunSchedule \<and> wqTriggerType request \<noteq> TriggerSchedule
        then Inl ErrCollectionRunContract
      else if wqMode request = SiteWindowRunGaps \<and> wqTriggerType request \<noteq> TriggerRecovery
        then Inl ErrCollectionRunContract
      else
        and_then (LockRunnableSiteSnapshot db (wqSiteID request) (wqExpectedConfigVersion request)) (\<lambda>site.
          case CollectionTaskFamily (wqTaskType request) of
            None \<Rightarrow> Inl ErrCollectionRunContract
          | Some family \<Rightarrow>
              (let active = overlapping_active db request (CollectionTaskTypesForFamily family)
               in if \<not> list_all (consistent_active site) active then Inl ErrCollectionRunContract
                  else if wqMode request = SiteWindowRunStrict then create_strict site request db active
                  else create_uncovered site request db
                         (uncoveredSiteWindowRanges (wqStartTimestamp request) (wqEndTimestamp request) active))))"

section \<open>Enqueueing tasks\<close>

record SiteTaskEnqueueRequest =
  eqSiteID :: int
  eqExpectedConfigVersion :: int
  eqTaskType :: string
  eqTriggerType :: string
  eqStartTimestamp :: "int option"
  eqEndTimestamp :: "int option"
  eqScope :: scope_doc
  eqPriority :: int
  eqRequestID :: string
  eqNow :: int
  eqMode :: "SiteWindowRunCreateMode option"

text \<open>\<^verbatim>\<open>ORDER BY id DESC\<close> with \<^verbatim>\<open>First\<close>: the match with the largest identifier.\<close>

definition latest_by_id :: "CollectionRun list \<Rightarrow> CollectionRun option" where
  "latest_by_id rs = (case sort_key (\<lambda>r. - rID r) rs of [] \<Rightarrow> None | r # _ \<Rightarrow> Some r)"

definition findLogicalSiteTask :: "store \<Rightarrow> SiteTaskEnqueueRequest \<Rightarrow> CollectionRun option result" where
  "findLogicalSiteTask db request =
     (let same = (\<lambda>r. rSiteID r = Some (eqSiteID request) \<and> rSiteConfigVersion r = eqExpectedConfigVersion request
          \<and> rTaskType r = eqTaskType request \<and> rTargetType r = ''site'' \<and> rTargetID r = eqSiteID request
          \<and> rTriggerType r = eqTriggerType request \<and> rCreatedRequestID r = eqRequestID request)
      in case (eqStartTimestamp request, eqEndTimestamp request) of
           (None, _) \<Rightarrow> Inr (latest_by_id (filter (\<lambda>r. same r \<and> rStartTimestamp r = None \<and> rEndTimestamp r = None) (runs db)))
         | (Some s, Some e) \<Rightarrow> Inr (latest_by_id
             (filter (\<lambda>r. same r \<and> rStartTimestamp r = Some s \<and> rEndTimestamp r = Some e) (runs db)))
         | (Some s, None) \<Rightarrow> Inl ErrCollectionRunContract)"

definition window_request :: "SiteTaskEnqueueRequest \<Rightarrow> int \<Rightarrow> int \<Rightarrow> SiteWindowRunCreateMode \<Rightarrow> SiteWindowRunCreateRequest" where
  "window_request request s e mode = \<lparr>wqSiteID = eqSiteID request,
     wqExpectedConfigVersion = eqExpectedConfigVersion request, wqTaskType = eqTaskType request,
     wqTriggerType = eqTriggerType request, wqStartTimestamp = s, wqEndTimestamp = e,
     wqScope = eqScope request, wqPriority = eqPriority request, wqRequestID = eqRequestID request,
     wqNow = eqNow request, wqMode = mode\<rparr>"

definition EnqueueSiteTask :: "store \<Rightarrow> SiteTaskEnqueueRequest \<Rightarrow> (store \<times> CollectionRun \<times> bool) result" where
  "EnqueueSiteTask db request =
     (if eqSiteID request \<le> 0 \<or> eqExpectedConfigVersion request \<le> 0 \<or> eqNow request \<le> 0
         \<or> \<not> ValidCollectionTaskType (eqTaskType request) then Inl ErrCollectionRunContract
      else and_then (findLogicalSiteTask db request) (\<lambda>existing.
        case existing of
          Some run \<Rightarrow> Inr (db, run, True)
        | None \<Rightarrow>
            if CollectionTaskWindowed (eqTaskType request)
            then (case (eqStartTimestamp request, eqEndTimestamp request) of
                    (Some s, Some e) \<Rightarrow>
                      and_then (CreateSiteWindowRun db (window_request request s e
                          (case eqMode request of None \<Rightarrow> SiteWindowRunSchedule | Some m \<Rightarrow> m))) (\<lambda>(db', rs).
                        case rs of [(run, dedup)] \<Rightarrow> Inr (db', run, dedup)
                        | _ \<Rightarrow> Inl ErrCollectionRunContract)
                  | _ \<Rightarrow> Inl ErrCollectionRunContract)
            else and_then (found (site_by_id db (eqSiteID request))) (\<lambda>site.
                   if sConfigVersion site \<noteq> eqExpectedConfigVersion request
                      \<or> \<not> siteAllowsTask site (eqTaskType request) then Inl ErrSiteRunConfigChanged
                   else and_then (NewSiteCollectionRun site \<lparr>spTaskType = eqTaskType request,
                            spTriggerType = eqTriggerType request, spStartTimestamp = None, spEndTimestamp = None,
                            spScope = eqScope request, spPriority = eqPriority request,
                            spRequestID = eqRequestID request, spNow = eqNow request\<rparr>)
                          (\<lambda>created. CreateOrGetRun db created))))"

definition EnqueueScheduledSiteWindowTask ::
    "store \<Rightarrow> SiteTaskEnqueueRequest \<Rightarrow> (store \<times> CollectionRun list) result" where
  "EnqueueScheduledSiteWindowTask db request =
     (if eqSiteID request \<le> 0 \<or> eqExpectedConfigVersion request \<le> 0 \<or> eqNow request \<le> 0
         \<or> eqMode request \<noteq> Some SiteWindowRunSchedule \<or> eqTriggerType request \<noteq> TriggerSchedule
         \<or> \<not> CollectionTaskWindowed (eqTaskType request) then Inl ErrCollectionRunContract
      else case (eqStartTimestamp request, eqEndTimestamp request) of
             (Some s, Some e) \<Rightarrow>
               and_then (CreateSiteWindowRun db (window_request request s e SiteWindowRunSchedule))
                 (\<lambda>(db', rs). Inr (db', map fst rs))
           | _ \<Rightarrow> Inl ErrCollectionRunContract)"

definition RecordScheduledSiteTaskDiagnostic ::
    "store \<Rightarrow> int \<Rightarrow> string \<Rightarrow> string \<Rightarrow> string \<Rightarrow> int \<Rightarrow> (store \<times> CollectionRun \<times> bool) result" where
  "RecordScheduledSiteTaskDiagnostic db siteID taskType requestID errorCode now =
     (if siteID \<le> 0 \<or> now \<le> 0 \<or> errorCode = [] \<or> \<not> validCollectionRequestID requestID
        then Inl ErrCollectionRunContract
      else if taskType \<notin> {TaskTypeSiteProbe, TaskTypeRealtimeStat, TaskTypeResourceSnapshot}
        then Inl ErrCollectionRunContract
      else and_then (found (site_by_id db siteID)) (\<lambda>site.
        case latest_by_id (filter (\<lambda>r. rSiteID r = Some siteID \<and> rTaskType r = taskType
               \<and> rTriggerType r = TriggerSchedule \<and> rCreatedRequestID r = requestID) (runs db)) of
          Some existing \<Rightarrow> Inr (db, existing, True)
        | None \<Rightarrow>
            and_then (NewSiteCollectionRun site \<lparr>spTaskType = taskType, spTriggerType = TriggerSchedule,
                spStartTimestamp = None, spEndTimestamp = None, spScope = ScopeBlank, spPriority = 0,
                spRequestID = requestID, spNow = now\<rparr>) (\<lambda>run.
              let (db', r) = insert_run db (run\<lparr>rStatus := StFailed, rActiveKey := None,
                    rErrorCode := errorCode, rFinishedAt := Some now\<rparr>)
              in Inr (db', r, False))))"

end
