(* ===== verification/Window_Cover.thy ===== *)
theory Window_Cover
  imports Site_Run
begin

text \<open>
  What \<^verbatim>\<open>CreateSiteWindowRun\<close> guarantees: the ranges it computes are exactly the uncovered part of
  the requested range, and the runs it inserts never overlap another active run of the same site and
  task family.
\<close>

section \<open>Points covered by runs and ranges\<close>

definition covers :: "CollectionRun \<Rightarrow> int \<Rightarrow> bool" where
  "covers r x \<longleftrightarrow> (case (rStartTimestamp r, rEndTimestamp r) of
     (Some s, Some e) \<Rightarrow> s \<le> x \<and> x < e | _ \<Rightarrow> False)"

definition in_range :: "int \<Rightarrow> siteWindowRange \<Rightarrow> bool" where
  "in_range x g \<longleftrightarrow> fst g \<le> x \<and> x < snd g"

definition bounded_run :: "CollectionRun \<Rightarrow> bool" where
  "bounded_run r \<longleftrightarrow> (case (rStartTimestamp r, rEndTimestamp r) of
     (Some s, Some e) \<Rightarrow> s \<le> e | _ \<Rightarrow> False)"

abbreviation run_start :: "CollectionRun \<Rightarrow> int" where "run_start r \<equiv> the (rStartTimestamp r)"
abbreviation run_end :: "CollectionRun \<Rightarrow> int" where "run_end r \<equiv> the (rEndTimestamp r)"

lemma covers_bounded: "bounded_run r \<Longrightarrow> covers r x \<longleftrightarrow> run_start r \<le> x \<and> x < run_end r"
  by (auto simp: covers_def bounded_run_def split: option.splits)

lemma bounded_run_order: "bounded_run r \<Longrightarrow> run_start r \<le> run_end r"
  by (auto simp: bounded_run_def split: option.splits)

lemma uncovered_loop_bounded:
  assumes "bounded_run r"
  shows "uncovered_loop end' cursor (r # rs) =
     (if run_end r \<le> cursor then uncovered_loop end' cursor rs
      else let gap = (if cursor < min (run_start r) end' then [(cursor, min (run_start r) end')] else [])
           in if run_end r \<ge> end' then gap else gap @ uncovered_loop end' (run_end r) rs)"
  using assms by (auto simp: bounded_run_def Let_def min_def split: option.splits)

declare uncovered_loop.simps(2) [simp del]

text \<open>The computed ranges contain exactly the uncovered points.\<close>

lemma uncovered_loop_points:
  assumes "list_all bounded_run rs" "sorted (map run_start rs)"
  shows "(\<exists>g \<in> set (uncovered_loop end' cursor rs). in_range x g)
    \<longleftrightarrow> cursor \<le> x \<and> x < end' \<and> (\<forall>r \<in> set rs. \<not> covers r x)"
  using assms
proof (induction rs arbitrary: cursor)
  case Nil
  then show ?case by (auto simp: in_range_def)
next
  case (Cons r rs)
  have b: "bounded_run r" and later: "\<forall>q \<in> set rs. run_start r \<le> run_start q \<and> bounded_run q"
    using Cons.prems by (auto simp: list_all_iff)
  have IH: "(\<exists>g \<in> set (uncovered_loop end' c rs). in_range x g)
      \<longleftrightarrow> c \<le> x \<and> x < end' \<and> (\<forall>r \<in> set rs. \<not> covers r x)" for c
    by (rule Cons.IH) (use Cons.prems in auto)
  have free: "\<not> covers q x" if "x < run_start r" "q \<in> set rs" for q
    using that later by (auto simp: covers_bounded)
  show ?case
    using IH [of cursor] IH [of "run_end r"] free
    by (auto simp: uncovered_loop_bounded [OF b] covers_bounded [OF b] in_range_def Let_def split: if_splits)
qed

text \<open>They are non-empty, in increasing order, and do not overlap.\<close>

abbreviation in_order :: "siteWindowRange \<Rightarrow> siteWindowRange \<Rightarrow> bool" where
  "in_order g h \<equiv> snd g \<le> fst h"

lemma uncovered_loop_shape:
  assumes "list_all bounded_run rs"
  shows "(\<forall>g \<in> set (uncovered_loop end' cursor rs). cursor \<le> fst g \<and> fst g < snd g \<and> snd g \<le> end')
    \<and> sorted_wrt in_order (uncovered_loop end' cursor rs)"
  using assms
proof (induction rs arbitrary: cursor)
  case (Cons r rs)
  have b: "bounded_run r" using Cons.prems by simp
  have IH: "(\<forall>g \<in> set (uncovered_loop end' c rs). c \<le> fst g \<and> fst g < snd g \<and> snd g \<le> end')
    \<and> sorted_wrt in_order (uncovered_loop end' c rs)" for c
    by (rule Cons.IH) (use Cons.prems in simp)
  show ?case
  proof (cases "run_end r \<le> cursor \<or> end' \<le> run_end r")
    case True
    then show ?thesis using IH [of cursor] by (auto simp: uncovered_loop_bounded [OF b] Let_def)
  next
    case False
    let ?m = "min (run_start r) end'" and ?L = "uncovered_loop end' (run_end r) rs"
    have eq: "uncovered_loop end' cursor (r # rs) = (if cursor < ?m then (cursor, ?m) # ?L else ?L)"
      using False by (simp add: uncovered_loop_bounded [OF b] Let_def)
    have m: "?m \<le> run_end r" "?m \<le> end'" using bounded_run_order [OF b] by auto
    have L: "run_end r \<le> fst g \<and> fst g < snd g \<and> snd g \<le> end'" if "g \<in> set ?L" for g
      using IH [of "run_end r"] that by blast
    have c: "cursor \<le> run_end r" using False by simp
    show ?thesis
      unfolding eq using IH [of "run_end r"] L m c by (auto dest!: L intro: order_trans)
  qed
qed auto

lemma collectable_loop_shape:
  "collectable_loop end' cursor ws = Inr gs \<Longrightarrow>
    (\<forall>g \<in> set gs. cursor \<le> fst g \<and> fst g < snd g \<and> snd g \<le> end') \<and> sorted_wrt in_order gs"
proof (induction ws arbitrary: cursor gs)
  case (Cons w ws)
  then obtain gs' where h: "fHourTS w mod 3600 = 0" "cursor \<le> fHourTS w" "fHourTS w < end'"
    and r: "collectable_loop end' (fHourTS w + 3600) ws = Inr gs'"
      "gs = (if cursor < fHourTS w then (cursor, fHourTS w) # gs' else gs')"
    by (auto simp: and_then_Inr_conv split: if_splits)
  from Cons.IH [OF r(1)] h r(2) show ?case by (fastforce split: if_splits)
qed (auto split: if_splits)

lemma collectable_loop_hours:
  "collectable_loop end' cursor ws = Inr gs \<Longrightarrow> \<forall>w \<in> set ws. cursor \<le> fHourTS w \<and> fHourTS w < end'"
  by (induction ws arbitrary: cursor gs) (fastforce simp: and_then_Inr_conv split: if_splits)+

text \<open>The backfill ranges contain exactly the hours that are not settled.\<close>

lemma collectable_loop_points:
  assumes "collectable_loop end' cursor ws = Inr gs" "x mod 3600 = 0"
  shows "(\<exists>g \<in> set gs. in_range x g) \<longleftrightarrow> cursor \<le> x \<and> x < end' \<and> x \<notin> fHourTS ` set ws"
  using assms(1)
proof (induction ws arbitrary: cursor gs)
  case (Cons w ws)
  then obtain gs' where h: "fHourTS w mod 3600 = 0" "cursor \<le> fHourTS w" "fHourTS w < end'"
    and r: "collectable_loop end' (fHourTS w + 3600) ws = Inr gs'"
      "gs = (if cursor < fHourTS w then (cursor, fHourTS w) # gs' else gs')"
    by (auto simp: and_then_Inr_conv split: if_splits)
  note IH = Cons.IH [OF r(1)]
  have step: "fHourTS w + 3600 \<le> x" if "fHourTS w < x" using aligned_gap [OF h(1) assms(2)] that by simp
  have later: "fHourTS w < h" if "h \<in> fHourTS ` set ws" for h
    using collectable_loop_hours [OF r(1)] that by fastforce
  have head: "(\<exists>g \<in> set gs. in_range x g) \<longleftrightarrow> (cursor \<le> x \<and> x < fHourTS w) \<or> (\<exists>g \<in> set gs'. in_range x g)"
    using h(2) r(2) by (auto simp: in_range_def)
  show ?case
  proof (cases x "fHourTS w" rule: linorder_cases)
    case less
    then have "x \<notin> fHourTS ` set (w # ws)" using later by force
    with less h IH head show ?thesis by auto
  next
    case equal
    with h IH head show ?thesis by auto
  next
    case greater
    with step h IH head show ?thesis by auto
  qed
qed (auto simp: in_range_def split: if_splits)

section \<open>Active runs of a family do not overlap\<close>

definition run_ids_ok :: "store \<Rightarrow> bool" where
  "run_ids_ok db \<longleftrightarrow> distinct (map rID (runs db)) \<and> (\<forall>r \<in> set (runs db). rID r < next_run_id db)"

definition family_run :: "int \<Rightarrow> string list \<Rightarrow> CollectionRun \<Rightarrow> bool" where
  "family_run siteID types r \<longleftrightarrow> rSiteID r = Some siteID \<and> rTaskType r \<in> set types \<and> is_active (rStatus r)"

text \<open>The active runs of a site's task family have proper ranges, and no point is covered twice.\<close>

definition family_ok :: "int \<Rightarrow> string list \<Rightarrow> store \<Rightarrow> bool" where
  "family_ok siteID types db \<longleftrightarrow> run_ids_ok db
     \<and> (\<forall>r \<in> set (runs db). family_run siteID types r \<longrightarrow> bounded_run r)
     \<and> (\<forall>r \<in> set (runs db). \<forall>q \<in> set (runs db). family_run siteID types r \<longrightarrow> family_run siteID types q
          \<longrightarrow> rID r \<noteq> rID q \<longrightarrow> (\<forall>x. \<not> (covers r x \<and> covers q x)))"

definition free_range :: "int \<Rightarrow> string list \<Rightarrow> store \<Rightarrow> siteWindowRange \<Rightarrow> bool" where
  "free_range siteID types db g \<longleftrightarrow>
     (\<forall>r \<in> set (runs db). family_run siteID types r \<longrightarrow> (\<forall>x. in_range x g \<longrightarrow> \<not> covers r x))"

lemma runs_insert_run [simp]:
  "runs (fst (insert_run db run)) = runs db @ [run\<lparr>rID := next_run_id db\<rparr>]"
  "next_run_id (fst (insert_run db run)) = next_run_id db + 1"
  "fact_windows (fst (insert_run db run)) = fact_windows db"
  by (simp_all add: insert_run_def Let_def)

lemma snd_insert_run [simp]: "snd (insert_run db run) = run\<lparr>rID := next_run_id db\<rparr>"
  by (simp add: insert_run_def Let_def)

lemma CreateOrGetRun_cases:
  assumes "CreateOrGetRun db run = Inr (db', r, dedup)"
  obtains (existing) "dedup" "db' = db" "r \<in> set (runs db)" "sameActiveCollectionRun r run"
  | (inserted) "\<not> dedup" "db' = fst (insert_run db run)" "r = run\<lparr>rID := next_run_id db\<rparr>"
      "ValidateCollectionRunForCreate run = Inr ()"
      "\<forall>q \<in> set (runs db). rActiveKey q = None \<or> rActiveKey q \<noteq> rActiveKey run"
  using assms
  by (auto simp: CreateOrGetRun_def Let_def find_None_iff split_beta dest: find_Some_set
      split: if_splits option.splits)

lemma insert_family_ok:
  assumes ok: "family_ok siteID types db" and b: "bounded_run run"
    and rng: "\<And>x. covers run x \<longleftrightarrow> in_range x g" and free: "free_range siteID types db g"
  shows "family_ok siteID types (fst (insert_run db run))"
proof -
  let ?r = "run\<lparr>rID := next_run_id db\<rparr>"
  have "covers ?r x \<longleftrightarrow> in_range x g" for x using rng by (simp add: covers_def)
  moreover have "bounded_run ?r" using b by (simp add: bounded_run_def)
  ultimately show ?thesis
    using ok free unfolding family_ok_def free_range_def run_ids_ok_def
    by (auto simp: less_imp_neq dest: less_imp_neq)
qed

lemma createSiteWindowGap_cases:
  assumes "createSiteWindowGap site request db g = Inr (db', r, dedup)"
  obtains run where "CreateOrGetRun db run = Inr (db', r, dedup)" "bounded_run run"
    "\<And>x. covers run x \<longleftrightarrow> in_range x g" "rSiteID run = Some (sID site)"
    "rTaskType run = wqTaskType request" "rStatus run = StPending"
  using assms
  by (auto simp: createSiteWindowGap_def NewSiteCollectionRun_def and_then_Inr_conv bounded_run_def covers_def
      in_range_def aligned_range_def split: if_splits)

lemma create_gaps_family_ok:
  assumes "create_gaps site request db gs = Inr (db', rs)" "family_ok siteID types db"
    and "\<forall>g \<in> set gs. free_range siteID types db g" "sorted_wrt in_order gs"
  shows "family_ok siteID types db' \<and> fact_windows db' = fact_windows db
    \<and> (\<forall>h. free_range siteID types db h \<longrightarrow> (\<forall>g \<in> set gs. \<forall>x. in_range x h \<longrightarrow> \<not> in_range x g)
          \<longrightarrow> free_range siteID types db' h)"
  using assms
proof (induction gs arbitrary: db rs)
  case (Cons g gs)
  from Cons.prems(1) obtain db1 r d rs' where
    c: "createSiteWindowGap site request db g = Inr (db1, r, d)" and
    rest: "create_gaps site request db1 gs = Inr (db', rs')"
    by (auto simp: and_then_Inr_conv)
  from c obtain run where run: "CreateOrGetRun db run = Inr (db1, r, d)" "bounded_run run"
    "\<And>x. covers run x \<longleftrightarrow> in_range x g" by (rule createSiteWindowGap_cases) blast
  have ok1: "family_ok siteID types db1 \<and> fact_windows db1 = fact_windows db
    \<and> (\<forall>h. free_range siteID types db h \<longrightarrow> (\<forall>x. in_range x h \<longrightarrow> \<not> in_range x g) \<longrightarrow> free_range siteID types db1 h)"
    using run(1)
  proof (cases rule: CreateOrGetRun_cases)
    case existing
    then show ?thesis using Cons.prems(2) by simp
  next
    case inserted
    have "family_ok siteID types db1"
      unfolding inserted(2) by (rule insert_family_ok [OF Cons.prems(2) run(2,3)]) (use Cons.prems(3) in simp)
    moreover have "covers (run\<lparr>rID := i\<rparr>) x \<longleftrightarrow> in_range x g" for i x using run(3) by (simp add: covers_def)
    ultimately show ?thesis unfolding inserted(2) by (auto simp: free_range_def)
  qed
  have sep: "\<forall>x. in_range x h \<longrightarrow> \<not> in_range x g" if "h \<in> set gs" for h
    using Cons.prems(4) that by (auto simp: in_range_def)
  have "\<forall>h \<in> set gs. free_range siteID types db1 h"
    using ok1 Cons.prems(3) sep by (meson list.set_intros(2))
  from Cons.IH [OF rest _ this] ok1 Cons.prems(4) show ?case by auto
qed simp

lemma create_uncovered_family_ok:
  assumes "create_uncovered site request db gaps = Inr (db', rs)" "family_ok siteID types db"
    and "\<forall>g \<in> set gaps. free_range siteID types db g" "sorted_wrt in_order gaps"
  shows "family_ok siteID types db'"
  using assms
proof (induction gaps arbitrary: db rs)
  case (Cons g gaps)
  from Cons.prems(1) obtain cs db1 rs1 rs2 where
    cs: "(if wqTaskType request = TaskTypeUsageBackfill
          then collectableUsageBackfillRanges db (wqSiteID request) (fst g) (snd g) else Inr [g]) = Inr cs" and
    c: "create_gaps site request db cs = Inr (db1, rs1)" and
    rest: "create_uncovered site request db1 gaps = Inr (db', rs2)"
    by (auto simp: and_then_Inr_conv)
  have inner: "(\<forall>h \<in> set cs. \<forall>x. in_range x h \<longrightarrow> in_range x g) \<and> sorted_wrt in_order cs"
    using cs collectable_loop_shape
    by (fastforce simp: collectableUsageBackfillRanges_def in_range_def split: if_splits)
  have "\<forall>h \<in> set cs. free_range siteID types db h"
    using inner Cons.prems(3) by (auto simp: free_range_def)
  note ok = create_gaps_family_ok [OF c Cons.prems(2) this]
  have "\<forall>x. in_range x h \<longrightarrow> \<not> in_range x g" if "h \<in> set gaps" for h
    using Cons.prems(4) that by (auto simp: in_range_def)
  then have "\<forall>h \<in> set gaps. free_range siteID types db1 h"
    using ok inner Cons.prems(3) by (meson list.set_intros(2))
  from Cons.IH [OF rest _ this] ok inner Cons.prems(4) show ?case by auto
qed simp

lemma sorted_tuple_fst: "sorted (map (\<lambda>x. (f x, g x)) xs) \<Longrightarrow> sorted (map f xs)"
  by (induction xs) auto

lemma overlapping_active_sorted:
  "sorted (map run_start (overlapping_active db request types))"
proof -
  have "sorted (map (\<lambda>r. (run_start r, run_end r, rID r)) (overlapping_active db request types))"
    by (simp add: overlapping_active_def)
  then show ?thesis by (rule sorted_tuple_fst)
qed

lemma set_overlapping_active:
  assumes "wqStartTimestamp request < wqEndTimestamp request"
  shows "set (overlapping_active db request types) =
    {r \<in> set (runs db). family_run (wqSiteID request) types r
       \<and> (\<exists>s e. rStartTimestamp r = Some s \<and> rEndTimestamp r = Some e
            \<and> s < wqEndTimestamp request \<and> e > wqStartTimestamp request)}"
  using assms by (auto simp: overlapping_active_def family_run_def split: option.splits)

text \<open>Every uncovered range is free of active runs of the family.\<close>

lemma uncovered_free:
  assumes ok: "family_ok (wqSiteID request) types db"
    and g: "g \<in> set (uncoveredSiteWindowRanges (wqStartTimestamp request) (wqEndTimestamp request)
              (overlapping_active db request types))"
  shows "free_range (wqSiteID request) types db g"
proof (cases "wqStartTimestamp request < wqEndTimestamp request")
  case False
  then show ?thesis using g by (auto simp: uncoveredSiteWindowRanges_def free_range_def in_range_def)
next
  case True
  let ?A = "overlapping_active db request types"
  have b: "list_all bounded_run ?A"
    using ok by (auto simp: list_all_iff set_overlapping_active [OF True] family_ok_def)
  have "\<not> covers r x" if r: "r \<in> set (runs db)" "family_run (wqSiteID request) types r" and x: "in_range x g" for r x
  proof
    assume cov: "covers r x"
    have pts: "wqStartTimestamp request \<le> x" "x < wqEndTimestamp request" "\<forall>q \<in> set ?A. \<not> covers q x"
      using uncovered_loop_points [OF b overlapping_active_sorted, of "wqEndTimestamp request" "wqStartTimestamp request" x]
        g x True by (auto simp: uncoveredSiteWindowRanges_def)
    then have "r \<in> set ?A"
      using r cov by (auto simp: set_overlapping_active [OF True] covers_def split: option.splits)
    with pts(3) cov show False by blast
  qed
  then show ?thesis by (auto simp: free_range_def)
qed

lemma uncovered_in_order:
  assumes "family_ok (wqSiteID request) types db"
  shows "sorted_wrt in_order (uncoveredSiteWindowRanges (wqStartTimestamp request) (wqEndTimestamp request)
            (overlapping_active db request types))"
proof (cases "wqStartTimestamp request < wqEndTimestamp request")
  case True
  then have "list_all bounded_run (overlapping_active db request types)"
    using assms by (auto simp: list_all_iff set_overlapping_active [OF True] family_ok_def)
  then show ?thesis using uncovered_loop_shape True by (simp add: uncoveredSiteWindowRanges_def)
qed (simp add: uncoveredSiteWindowRanges_def)

lemma create_strict_family_ok:
  assumes "create_strict site request db (overlapping_active db request types) = Inr (db', rs)"
    and ok: "family_ok (wqSiteID request) types db"
  shows "family_ok (wqSiteID request) types db'"
proof (cases "db' = db")
  case True
  then show ?thesis using ok by simp
next
  case False
  let ?g = "(wqStartTimestamp request, wqEndTimestamp request)"
  from assms(1) False have none: "overlapping_active db request types = []"
    and c: "create_gaps site request db [?g] = Inr (db', rs)"
    by (auto simp: create_strict_def split: option.splits if_splits)
  have "free_range (wqSiteID request) types db ?g"
  proof (cases "wqStartTimestamp request < wqEndTimestamp request")
    case True
    then show ?thesis using uncovered_free [OF ok, of ?g] none by (simp add: uncoveredSiteWindowRanges_def)
  qed (auto simp: free_range_def in_range_def)
  then show ?thesis using create_gaps_family_ok [OF c ok] by simp
qed

section \<open>The requested range is covered\<close>

definition covered_by_family :: "int \<Rightarrow> string list \<Rightarrow> store \<Rightarrow> int \<Rightarrow> bool" where
  "covered_by_family siteID types db x \<longleftrightarrow> (\<exists>r \<in> set (runs db). family_run siteID types r \<and> covers r x)"

lemma sameActive_facts:
  assumes "sameActiveCollectionRun e r"
  shows "is_active (rStatus e)" "rSiteID e = rSiteID r" "rTaskType e = rTaskType r"
    "rStartTimestamp e = rStartTimestamp r" "rEndTimestamp e = rEndTimestamp r"
    "rSiteConfigVersion e = rSiteConfigVersion r"
  using assms by (auto simp: sameActiveCollectionRun_def is_active_def split: if_split_asm)

lemma CreateOrGetRun_runs:
  assumes "CreateOrGetRun db run = Inr (db', r, dedup)"
  shows "set (runs db) \<subseteq> set (runs db')" "r \<in> set (runs db')" "fact_windows db' = fact_windows db"
    and "rStatus run = StPending \<Longrightarrow> is_active (rStatus r)"
    and "rSiteID r = rSiteID run" "rTaskType r = rTaskType run" "\<And>x. covers r x \<longleftrightarrow> covers run x"
proof -
  from assms have "set (runs db) \<subseteq> set (runs db') \<and> r \<in> set (runs db') \<and> fact_windows db' = fact_windows db
    \<and> (rStatus run = StPending \<longrightarrow> is_active (rStatus r)) \<and> rSiteID r = rSiteID run \<and> rTaskType r = rTaskType run
    \<and> (\<forall>x. covers r x \<longleftrightarrow> covers run x)"
  proof (cases rule: CreateOrGetRun_cases)
    case existing
    then show ?thesis using sameActive_facts [OF existing(4)] by (simp add: covers_def)
  next
    case inserted
    then show ?thesis by (auto simp: covers_def is_active_def)
  qed
  then show "set (runs db) \<subseteq> set (runs db')" "r \<in> set (runs db')" "fact_windows db' = fact_windows db"
    "rStatus run = StPending \<Longrightarrow> is_active (rStatus r)"
    "rSiteID r = rSiteID run" "rTaskType r = rTaskType run" "\<And>x. covers r x \<longleftrightarrow> covers run x" by blast+
qed

lemma create_gaps_covers:
  assumes "create_gaps site request db gs = Inr (db', rs)" "wqTaskType request \<in> set types"
  shows "set (runs db) \<subseteq> set (runs db') \<and> fact_windows db' = fact_windows db
    \<and> (\<forall>g \<in> set gs. \<forall>x. in_range x g \<longrightarrow> covered_by_family (sID site) types db' x)"
  using assms(1)
proof (induction gs arbitrary: db rs)
  case (Cons g gs)
  from Cons.prems obtain db1 r d rs' where
    c: "createSiteWindowGap site request db g = Inr (db1, r, d)" and
    rest: "create_gaps site request db1 gs = Inr (db', rs')"
    by (auto simp: and_then_Inr_conv)
  from c obtain run where run: "CreateOrGetRun db run = Inr (db1, r, d)" "\<And>x. covers run x \<longleftrightarrow> in_range x g"
    "rSiteID run = Some (sID site)" "rTaskType run = wqTaskType request" "rStatus run = StPending"
    by (rule createSiteWindowGap_cases) blast
  note cr = CreateOrGetRun_runs [OF run(1)]
  have "family_run (sID site) types r" using cr(4-6) run assms(2) by (simp add: family_run_def)
  moreover have "r \<in> set (runs db')" using Cons.IH [OF rest] cr(2) by blast
  ultimately have "\<forall>x. in_range x g \<longrightarrow> covered_by_family (sID site) types db' x"
    using cr(7) run(2) by (auto simp: covered_by_family_def)
  then show ?case using Cons.IH [OF rest] cr(1,3) by auto
qed simp

lemma settled_hours:
  "fHourTS ` set (settled_windows db i s e) =
     {h. \<exists>w \<in> set (fact_windows db). fSiteID w = i \<and> fHourTS w = h \<and> s \<le> h \<and> h < e
           \<and> (fStatus w = ''complete'' \<or> fStatus w = ''unavailable'')}"
  by (auto simp: settled_windows_def)

definition settled_hour :: "store \<Rightarrow> int \<Rightarrow> int \<Rightarrow> bool" where
  "settled_hour db i x \<longleftrightarrow> (\<exists>w \<in> set (fact_windows db). fSiteID w = i \<and> fHourTS w = x
     \<and> (fStatus w = ''complete'' \<or> fStatus w = ''unavailable''))"

lemma create_uncovered_covers:
  assumes "create_uncovered site request db gaps = Inr (db', rs)" "wqTaskType request \<in> set types"
    and "x mod 3600 = 0" "sID site = wqSiteID request"
  shows "set (runs db) \<subseteq> set (runs db') \<and> fact_windows db' = fact_windows db
    \<and> (\<forall>g \<in> set gaps. in_range x g \<longrightarrow> covered_by_family (sID site) types db' x
         \<or> (wqTaskType request = TaskTypeUsageBackfill \<and> settled_hour db (sID site) x))"
  using assms(1)
proof (induction gaps arbitrary: db rs)
  case (Cons g gaps)
  from Cons.prems(1) obtain cs db1 rs1 rs2 where
    cs: "(if wqTaskType request = TaskTypeUsageBackfill
          then collectableUsageBackfillRanges db (wqSiteID request) (fst g) (snd g) else Inr [g]) = Inr cs" and
    c: "create_gaps site request db cs = Inr (db1, rs1)" and
    rest: "create_uncovered site request db1 gaps = Inr (db', rs2)"
    by (auto simp: and_then_Inr_conv)
  note cg = create_gaps_covers [OF c assms(2)] and IH = Cons.IH [OF rest]
  have "covered_by_family (sID site) types db' x
      \<or> (wqTaskType request = TaskTypeUsageBackfill \<and> settled_hour db (sID site) x)" if "in_range x g"
  proof (cases "\<exists>h \<in> set cs. in_range x h")
    case True
    then have "covered_by_family (sID site) types db1 x" using cg by blast
    then show ?thesis using IH by (auto simp: covered_by_family_def)
  next
    case False
    then have bf: "wqTaskType request = TaskTypeUsageBackfill" using cs that by (auto split: if_splits)
    with cs have "collectable_loop (snd g) (fst g) (settled_windows db (wqSiteID request) (fst g) (snd g)) = Inr cs"
      by (simp add: collectableUsageBackfillRanges_def)
    from collectable_loop_points [OF this assms(3)] False that
    have "x \<in> fHourTS ` set (settled_windows db (wqSiteID request) (fst g) (snd g))"
      by (simp add: in_range_def)
    then show ?thesis using bf assms(4) by (auto simp: settled_hours settled_hour_def)
  qed
  then show ?case using IH cg by (auto simp: settled_hour_def)
qed simp

lemma create_strict_covers:
  assumes "create_strict site request db active = Inr (db', rs)" "wqTaskType request \<in> set types"
    and "sID site = wqSiteID request" "\<forall>r \<in> set active. r \<in> set (runs db) \<and> family_run (wqSiteID request) types r"
    and "wqStartTimestamp request \<le> x" "x < wqEndTimestamp request"
  shows "covered_by_family (wqSiteID request) types db' x"
proof (cases "find (\<lambda>r. rTaskType r = wqTaskType request \<and> rStartTimestamp r = Some (wqStartTimestamp request)
      \<and> rEndTimestamp r = Some (wqEndTimestamp request)) active")
  case None
  then have "create_gaps site request db [(wqStartTimestamp request, wqEndTimestamp request)] = Inr (db', rs)"
    using assms(1) by (auto simp: create_strict_def split: if_splits)
  from create_gaps_covers [OF this assms(2)] show ?thesis using assms(3,5,6) by (simp add: in_range_def)
next
  case (Some r)
  then have "r \<in> set active" "covers r x" using assms(5,6) find_Some_set [OF Some] by (auto simp: covers_def)
  moreover have "db' = db" using assms(1) Some by (auto simp: create_strict_def split: if_splits)
  ultimately show ?thesis using assms(4) by (auto simp: covered_by_family_def)
qed

lemma CreateSiteWindowRun_cases:
  assumes "CreateSiteWindowRun db request = Inr (db', rs)" "CollectionTaskFamily (wqTaskType request) = Some family"
  obtains site where "site_by_id db (wqSiteID request) = Some site" "sID site = wqSiteID request"
    "(if wqMode request = SiteWindowRunStrict
      then create_strict site request db (overlapping_active db request (CollectionTaskTypesForFamily family))
      else create_uncovered site request db (uncoveredSiteWindowRanges (wqStartTimestamp request)
        (wqEndTimestamp request) (overlapping_active db request (CollectionTaskTypesForFamily family)))) = Inr (db', rs)"
  using assms
  by (auto simp: CreateSiteWindowRun_def LockRunnableSiteSnapshot_def and_then_Inr_conv Let_def site_by_id_def
      dest: find_Some_set split: if_splits)

lemma family_contains_task:
  "CollectionTaskFamily t = Some family \<Longrightarrow> t \<in> set (CollectionTaskTypesForFamily family)"
  unfolding CollectionTaskFamily_def if_Some_eq_Some
  by (auto simp: CollectionTaskTypesForFamily_def metadata_task_types_def)

section \<open>Properties of window run creation\<close>

text \<open>A concrete store: one authorized site with all capabilities passed and no runs.\<close>

definition sample_site :: Site where
  "sample_site = \<lparr>sID = 1, sConfigVersion = 3, sManagementStatus = SiteActive, sOnlineStatus = ''online'',
     sAuthStatus = SiteAuthorized, sStatisticsStatus = ''ready'', sDataExportEnabled = True,
     sStatisticsStartAt = Some 3600, sStatisticsEndAt = None, sUpdatedAt = 1\<rparr>"

definition sample_store :: store where
  "sample_store = \<lparr>sites = [sample_site],
     capabilities = map (\<lambda>k. \<lparr>capSiteID = 1, capKey = k, capStatus = ''passed''\<rparr>) siteCapabilityKeys,
     accounts = [], customers = [], runs = [], run_windows = [], fact_windows = [], usage_facts = [],
     next_run_id = 1, next_window_id = 1\<rparr>"

definition sample_request :: "int \<Rightarrow> int \<Rightarrow> SiteWindowRunCreateRequest" where
  "sample_request s e = \<lparr>wqSiteID = 1, wqExpectedConfigVersion = 3, wqTaskType = TaskTypeUsageValidation,
     wqTriggerType = TriggerSchedule, wqStartTimestamp = s, wqEndTimestamp = e, wqScope = ScopeBlank,
     wqPriority = PriorityDailyValidation, wqRequestID = ''sch_1'', wqNow = 50000, wqMode = SiteWindowRunSchedule\<rparr>"

definition result_store :: "(store \<times> 'a) result \<Rightarrow> store" where
  "result_store r = (case r of Inr p \<Rightarrow> fst p | Inl _ \<Rightarrow> sample_store)"

definition sample_store1 :: store where
  "sample_store1 = result_store (CreateSiteWindowRun sample_store (sample_request 7200 10800))"

definition run_spans :: "(store \<times> (CollectionRun \<times> bool) list) result \<Rightarrow> (int option \<times> int option) list" where
  "run_spans r = (case r of Inr (db, rs) \<Rightarrow> map (\<lambda>(q, d). (rStartTimestamp q, rEndTimestamp q)) rs | Inl _ \<Rightarrow> [])"

lemma sample_first: "\<exists>rs. CreateSiteWindowRun sample_store (sample_request 7200 10800) = Inr (sample_store1, rs)"
proof -
  have "\<not> (case CreateSiteWindowRun sample_store (sample_request 7200 10800) of Inl e \<Rightarrow> True | Inr p \<Rightarrow> False)"
    by code_simp
  then show ?thesis by (auto simp: sample_store1_def result_store_def split: sum.splits)
qed

lemma sample_family: "CollectionTaskFamily (wqTaskType (sample_request s e)) = Some ''usage''"
  by (simp add: sample_request_def CollectionTaskFamily_def metadata_task_types_def)

lemma sample_family_ok: "family_ok 1 (CollectionTaskTypesForFamily ''usage'') sample_store"
  by (simp add: family_ok_def run_ids_ok_def sample_store_def)

text \<open>
  C9. Active runs of one site and task family never overlap: whatever mode, range and existing runs,
  a successful \<^verbatim>\<open>CreateSiteWindowRun\<close> keeps every hour covered by at most one active run of the family
  (usage hours, backfills and validations of a site share one family), and keeps run identifiers unique.
\<close>

theorem window_runs_never_overlap:
  assumes "CreateSiteWindowRun db request = Inr (db', rs)"
    and "CollectionTaskFamily (wqTaskType request) = Some family"
    and "family_ok (wqSiteID request) (CollectionTaskTypesForFamily family) db"
  shows "family_ok (wqSiteID request) (CollectionTaskTypesForFamily family) db'"
proof -
  let ?types = "CollectionTaskTypesForFamily family"
  from assms(1,2) obtain site where c: "(if wqMode request = SiteWindowRunStrict
      then create_strict site request db (overlapping_active db request ?types)
      else create_uncovered site request db (uncoveredSiteWindowRanges (wqStartTimestamp request)
        (wqEndTimestamp request) (overlapping_active db request ?types))) = Inr (db', rs)"
    by (rule CreateSiteWindowRun_cases) blast
  show ?thesis
  proof (cases "wqMode request = SiteWindowRunStrict")
    case True
    then show ?thesis using c create_strict_family_ok [OF _ assms(3)] by simp
  next
    case False
    then show ?thesis
      using c create_uncovered_family_ok [OF _ assms(3)] uncovered_free [OF assms(3)] uncovered_in_order [OF assms(3)]
      by auto
  qed
qed

theorem window_runs_never_overlap_witness:
  "family_ok 1 (CollectionTaskTypesForFamily ''usage'') sample_store1
    \<and> run_spans (CreateSiteWindowRun sample_store1 (sample_request 3600 18000))
        = [(Some 3600, Some 7200), (Some 10800, Some 18000)]"
proof
  from sample_first obtain rs where r: "CreateSiteWindowRun sample_store (sample_request 7200 10800) = Inr (sample_store1, rs)"
    by blast
  show "family_ok 1 (CollectionTaskTypesForFamily ''usage'') sample_store1"
    using window_runs_never_overlap [OF r sample_family] sample_family_ok by (simp add: sample_request_def)
  show "run_spans (CreateSiteWindowRun sample_store1 (sample_request 3600 18000))
        = [(Some 3600, Some 7200), (Some 10800, Some 18000)]" by code_simp
qed

text \<open>
  C10. A successful \<^verbatim>\<open>CreateSiteWindowRun\<close> leaves no gap: every hour of the requested range is covered by
  an active run of the family afterwards, except the hours a backfill finds already complete or
  unavailable in \<^verbatim>\<open>collection_window\<close>. No earlier run is lost.
\<close>

theorem window_runs_cover_request:
  assumes "CreateSiteWindowRun db request = Inr (db', rs)"
    and "CollectionTaskFamily (wqTaskType request) = Some family"
    and "family_ok (wqSiteID request) (CollectionTaskTypesForFamily family) db"
    and "x mod 3600 = 0" "wqStartTimestamp request \<le> x" "x < wqEndTimestamp request"
  shows "covered_by_family (wqSiteID request) (CollectionTaskTypesForFamily family) db' x
    \<or> (wqTaskType request = TaskTypeUsageBackfill \<and> settled_hour db (wqSiteID request) x)"
proof -
  let ?types = "CollectionTaskTypesForFamily family" and ?A = "overlapping_active db request (CollectionTaskTypesForFamily family)"
  have lt: "wqStartTimestamp request < wqEndTimestamp request" using assms(5,6) by linarith
  have t: "wqTaskType request \<in> set ?types" by (rule family_contains_task [OF assms(2)])
  from assms(1,2) obtain site where i: "sID site = wqSiteID request" and c: "(if wqMode request = SiteWindowRunStrict
      then create_strict site request db ?A
      else create_uncovered site request db (uncoveredSiteWindowRanges (wqStartTimestamp request)
        (wqEndTimestamp request) ?A)) = Inr (db', rs)"
    by (rule CreateSiteWindowRun_cases) blast
  show ?thesis
  proof (cases "wqMode request = SiteWindowRunStrict")
    case True
    then have "create_strict site request db ?A = Inr (db', rs)" using c by simp
    from create_strict_covers [OF this t i _ assms(5,6)] show ?thesis by (simp add: set_overlapping_active [OF lt])
  next
    case False
    let ?G = "uncoveredSiteWindowRanges (wqStartTimestamp request) (wqEndTimestamp request) ?A"
    have cu: "create_uncovered site request db ?G = Inr (db', rs)" using c False by simp
    note cov = create_uncovered_covers [OF cu t assms(4) i]
    have b: "list_all bounded_run ?A"
      using assms(3) by (auto simp: list_all_iff set_overlapping_active [OF lt] family_ok_def)
    have "(\<exists>g \<in> set ?G. in_range x g) \<or> (\<exists>r \<in> set ?A. covers r x)"
      using uncovered_loop_points [OF b overlapping_active_sorted, of "wqEndTimestamp request" "wqStartTimestamp request" x]
        assms(5,6) lt by (auto simp: uncoveredSiteWindowRanges_def)
    then show ?thesis
    proof
      assume "\<exists>g \<in> set ?G. in_range x g"
      then show ?thesis using cov i by auto
    next
      assume "\<exists>r \<in> set ?A. covers r x"
      then obtain r where "r \<in> set (runs db)" "family_run (wqSiteID request) ?types r" "covers r x"
        by (auto simp: set_overlapping_active [OF lt])
      then show ?thesis using cov by (auto simp: covered_by_family_def)
    qed
  qed
qed

theorem window_runs_cover_request_witness:
  "covered_by_family 1 (CollectionTaskTypesForFamily ''usage'') sample_store1 7200"
proof -
  from sample_first obtain rs where r: "CreateSiteWindowRun sample_store (sample_request 7200 10800) = Inr (sample_store1, rs)"
    by blast
  show ?thesis
    using window_runs_cover_request [OF r sample_family, of 7200] sample_family_ok by (simp add: sample_request_def)
qed

end
