(* ===== verification/Run_State.thy ===== *)
theory Run_State
  imports Window_Cover
begin

text \<open>
  How a run's row follows from its windows (\<^verbatim>\<open>model/site_run_state.go\<close> and
  \<^verbatim>\<open>recalculateInitialBackfillRun\<close> of \<^verbatim>\<open>model/collection_task.go\<close>): counters, status, next attempt
  and the terminal columns. A recalculation yields the column updates it writes, a function that is
  applied both to the row in the store and to the caller's copy of the run. The column
  \<^verbatim>\<open>unavailable_windows\<close> is computed by queries and never stored, so it has no field.
\<close>

section \<open>Aggregates over the windows of a run\<close>

definition count_status :: "string \<Rightarrow> CollectionRunWindow list \<Rightarrow> int" where
  "count_status st ws = int (length (filter (\<lambda>w. wStatus w = st) ws))"

definition known_status :: "string \<Rightarrow> bool" where
  "known_status st \<longleftrightarrow> st \<in> {StSuccess, StFailed, StUnavailable, StPending, StRunning}"

type_synonym failure = "string \<times> string"

definition child_failure :: "CollectionRunWindow list \<Rightarrow> failure option" where
  "child_failure ws = foldl (\<lambda>acc w. if wStatus w = StFailed \<and> wErrorCode w \<noteq> []
     then Some (wErrorCode w, wErrorParams w) else acc) None ws"

definition retry_candidate :: "int \<Rightarrow> CollectionRunWindow \<Rightarrow> int" where
  "retry_candidate now w = (case wNextRetryAt w of Some n \<Rightarrow> if n > now then n else now | None \<Rightarrow> now)"

definition next_attempt :: "int \<Rightarrow> CollectionRunWindow list \<Rightarrow> int option" where
  "next_attempt now ws = foldl (\<lambda>acc w.
     if wStatus w = StPending
     then (case acc of None \<Rightarrow> Some (retry_candidate now w)
           | Some a \<Rightarrow> if retry_candidate now w < a then Some (retry_candidate now w) else acc)
     else acc) None ws"

section \<open>Recalculation\<close>

text \<open>The columns of a run that becomes terminal.\<close>

definition terminal_columns :: "int \<Rightarrow> string \<Rightarrow> failure option \<Rightarrow> CollectionRun \<Rightarrow> CollectionRun" where
  "terminal_columns now status terminalFailure r =
     (let r1 = r\<lparr>rActiveKey := None, rFinishedAt := Some now, rHeartbeatAt := None\<rparr>
      in if status = StSuccess then r1\<lparr>rErrorCode := [], rErrorParams := [], rErrorMessage := None\<rparr>
         else case terminalFailure of
                None \<Rightarrow> r1
              | Some (code, params) \<Rightarrow> r1\<lparr>rErrorCode := code, rErrorParams := params, rErrorMessage := None\<rparr>)"

definition RecalculateLockedCollectionRun ::
    "CollectionRun \<Rightarrow> CollectionRunWindow list \<Rightarrow> int \<Rightarrow> failure option
       \<Rightarrow> (CollectionRun \<Rightarrow> CollectionRun) result" where
  "RecalculateLockedCollectionRun run ws now forceFailure =
     (if rID run \<le> 0 \<or> now \<le> 0 then Inl ErrCollectionRunContract
      else if forceFailure = None \<and> (rStatus run = StFailed \<or> rStatus run = StSuccess) then Inr id
      else if \<not> list_all (\<lambda>w. known_status (wStatus w)) ws then Inl ErrCollectionRunContract
      else if rWindowsInitializedAt run \<noteq> None \<and> rTotalWindows run \<noteq> int (length ws) then Inl ErrCollectionRunContract
      else
        let completed = count_status StSuccess ws;
            failed = count_status StFailed ws;
            unavailable = count_status StUnavailable ws;
            counted = (\<lambda>status r. r\<lparr>rStatus := status, rCompletedWindows := completed,
                         rFailedWindows := failed, rUpdatedAt := now\<rparr>)
        in case forceFailure of
             Some (code, params) \<Rightarrow>
               (if code = [] then Inl ErrCollectionRunContract
                else Inr (terminal_columns now StFailed (Some (code, params)) \<circ> counted StFailed))
           | None \<Rightarrow>
               (if rWindowsInitializedAt run = None then Inl ErrCollectionRunContract
                else if completed + failed + unavailable = rTotalWindows run
                  then (if failed > 0
                        then Inr (terminal_columns now StFailed (child_failure ws) \<circ> counted StFailed)
                        else Inr (terminal_columns now StSuccess None \<circ> counted StSuccess))
                else let scheduled = (\<lambda>r. case next_attempt now ws of None \<Rightarrow> r
                                        | Some t \<Rightarrow> r\<lparr>rNextAttemptAt := t\<rparr>)
                     in if count_status StRunning ws > 0 then Inr (scheduled \<circ> counted StRunning)
                        else if count_status StPending ws > 0 then Inr (scheduled \<circ> counted StPending)
                        else Inl ErrCollectionRunContract))"

text \<open>The row update of the recalculation is unconditional on the run's identifier.\<close>

definition write_run :: "int \<Rightarrow> (CollectionRun \<Rightarrow> CollectionRun) \<Rightarrow> store \<Rightarrow> store" where
  "write_run i f db = update_runs (\<lambda>r. rID r = i) f db"

definition recalculate_stored ::
    "store \<Rightarrow> CollectionRun \<Rightarrow> CollectionRunWindow list \<Rightarrow> int \<Rightarrow> failure option
       \<Rightarrow> (store \<times> CollectionRun) result" where
  "recalculate_stored db run ws now forceFailure =
     and_then (RecalculateLockedCollectionRun run ws now forceFailure) (\<lambda>f.
       Inr (write_run (rID run) f db, f run))"

section \<open>Failing a run\<close>

definition fail_window :: "failure \<Rightarrow> int \<Rightarrow> CollectionRunWindow \<Rightarrow> CollectionRunWindow" where
  "fail_window failure now w = w\<lparr>wStatus := StFailed, wErrorCode := fst failure, wErrorParams := snd failure,
     wErrorMessage := None, wFinishedAt := Some now, wUpdatedAt := now\<rparr>"

definition FailLockedCollectionRun ::
    "store \<Rightarrow> CollectionRun \<Rightarrow> CollectionRunWindow list \<Rightarrow> failure \<Rightarrow> int \<Rightarrow> (store \<times> CollectionRun) result" where
  "FailLockedCollectionRun db run ws failure now =
     (if rID run \<le> 0 \<or> fst failure = [] \<or> now \<le> 0 then Inl ErrCollectionRunContract
      else
        let db1 = update_windows (\<lambda>w. wRunID w = rID run \<and> is_active (wStatus w)) (fail_window failure now) db;
            ws1 = update_where (\<lambda>w. is_active (wStatus w)) (fail_window failure now) ws
        in recalculate_stored db1 run ws1 now (Some failure))"

section \<open>Initial backfills\<close>

text \<open>
  For an initial backfill the counters come from one grouped query and the next attempt from
  \<^verbatim>\<open>MIN(next_retry_at)\<close>, which skips NULL values.
\<close>

definition min_next_retry :: "CollectionRunWindow list \<Rightarrow> int option" where
  "min_next_retry ws = foldl (\<lambda>acc w. case wNextRetryAt w of None \<Rightarrow> acc
     | Some n \<Rightarrow> (case acc of None \<Rightarrow> Some n | Some m \<Rightarrow> if n < m then Some n else Some m))
     None (filter (\<lambda>w. wStatus w = StPending) ws)"

definition initial_backfill_columns ::
    "CollectionRun \<Rightarrow> CollectionRunWindow list \<Rightarrow> int \<Rightarrow> (CollectionRun \<Rightarrow> CollectionRun) result" where
  "initial_backfill_columns run ws now =
     (if rID run \<le> 0 \<or> now \<le> 0 then Inl ErrCollectionRunContract
      else if \<not> list_all (\<lambda>w. known_status (wStatus w)) ws then Inl ErrCollectionRunContract
      else
        let completed = count_status StSuccess ws;
            failed = count_status StFailed ws;
            unavailable = count_status StUnavailable ws;
            pending = count_status StPending ws;
            running = count_status StRunning ws;
            nextAttempt = (if pending > 0
              then Some (case min_next_retry ws of None \<Rightarrow> now | Some n \<Rightarrow> if n > now then n else now)
              else None);
            terminal = (completed + failed + unavailable = rTotalWindows run);
            status = (if terminal then (if failed > 0 then StFailed else StSuccess)
                      else if running = 0 \<and> pending > 0 then StPending else StRunning);
            counted = (\<lambda>r. r\<lparr>rStatus := status, rCompletedWindows := completed, rFailedWindows := failed,
                        rUpdatedAt := now\<rparr>);
            scheduled = (\<lambda>r. case nextAttempt of None \<Rightarrow> r | Some t \<Rightarrow> r\<lparr>rNextAttemptAt := t\<rparr>);
            finished = (\<lambda>r. if terminal
              then (let r1 = r\<lparr>rActiveKey := None, rHeartbeatAt := None, rFinishedAt := Some now\<rparr>
                    in if status = StSuccess then r1\<lparr>rErrorCode := [], rErrorParams := [], rErrorMessage := None\<rparr>
                       else r1)
              else r)
        in Inr (finished \<circ> scheduled \<circ> counted))"

definition recalculateInitialBackfillRun ::
    "store \<Rightarrow> CollectionRun \<Rightarrow> int \<Rightarrow> (store \<times> CollectionRun) result" where
  "recalculateInitialBackfillRun db run now =
     and_then (initial_backfill_columns run (windows_of db (rID run)) now) (\<lambda>f.
       Inr (update_runs (\<lambda>r. rID r = rID run \<and> rStatus r = StRunning \<and> rLastRequestID r = rLastRequestID run) f db,
            f run))"

section \<open>Expected windows\<close>

text \<open>\<open>hours_from s n\<close>: the loop \<^verbatim>\<open>for hour := start; hour < end; hour += 3600\<close>.\<close>

function hours_between :: "int \<Rightarrow> int \<Rightarrow> int list" where
  "hours_between start end' = (if start < end' then start # hours_between (start + 3600) end' else [])"
  by pat_completeness auto
termination by (relation "measure (\<lambda>(s, e). nat (e - s))") auto

declare hours_between.simps [simp del]

fun check_fact_hours :: "int \<Rightarrow> int \<Rightarrow> int \<Rightarrow> CollectionWindow list \<Rightarrow> int list result" where
  "check_fact_hours start end' previous [] = Inr []"
| "check_fact_hours start end' previous (f # fs) =
     (if fHourTS f mod 3600 \<noteq> 0 \<or> fHourTS f < start \<or> fHourTS f \<ge> end' \<or> fHourTS f = previous
        then Inl ErrCollectionRunContract
      else if fStatus f = ''complete'' \<or> fStatus f = ''unavailable''
        then and_then (check_fact_hours start end' (fHourTS f) fs) (\<lambda>hs. Inr (fHourTS f # hs))
      else if fStatus f = ''pending'' \<or> fStatus f = ''missing''
        then check_fact_hours start end' (fHourTS f) fs
      else Inl ErrCollectionRunContract)"

definition expectedSiteRunWindowHours :: "store \<Rightarrow> CollectionRun \<Rightarrow> int list result" where
  "expectedSiteRunWindowHours db run =
     (case (rSiteID run, rStartTimestamp run, rEndTimestamp run) of
        (Some siteID, Some start, Some end') \<Rightarrow>
          and_then (if rTaskType run = TaskTypeUsageBackfill then UsageBackfillOnlyMissing (rScope run) else Inr False)
            (\<lambda>onlyMissing.
          and_then (if onlyMissing
                    then check_fact_hours start end' (-1) (sort_key fHourTS
                      (filter (\<lambda>f. fSiteID f = siteID \<and> start \<le> fHourTS f \<and> fHourTS f < end') (fact_windows db)))
                    else Inr [])
            (\<lambda>excluded. Inr (filter (\<lambda>h. h \<notin> set excluded) (hours_between start end'))))
      | _ \<Rightarrow> Inl ErrCollectionRunContract)"

definition validateSiteRunWindowHours :: "CollectionRun \<Rightarrow> int list \<Rightarrow> unit result" where
  "validateSiteRunWindowHours run hours =
     (case (rSiteID run, rStartTimestamp run, rEndTimestamp run) of
        (Some siteID, Some start, Some end') \<Rightarrow>
          (if rID run \<le> 0 \<or> siteID \<le> 0 \<or> rSiteConfigVersion run \<le> 0 \<or> start \<le> 0 \<or> end' < start
              \<or> start mod 3600 \<noteq> 0 \<or> end' mod 3600 \<noteq> 0 then Inl ErrCollectionRunContract
           else and_then (foldl (\<lambda>acc h. and_then acc (\<lambda>previous.
                    if h mod 3600 \<noteq> 0 \<or> h < start \<or> h \<ge> end' \<or> h \<le> previous
                    then Inl ErrCollectionRunContract else Inr h)) (Inr (-1)) hours) (\<lambda>_. Inr ()))
      | _ \<Rightarrow> Inl ErrCollectionRunContract)"

section \<open>Aggregates in closed form\<close>

definition pending_of :: "CollectionRunWindow list \<Rightarrow> CollectionRunWindow list" where
  "pending_of ws = filter (\<lambda>w. wStatus w = StPending) ws"

text \<open>A fold that keeps the smaller of two values computes a minimum.\<close>

definition opt_min :: "int option \<Rightarrow> int \<Rightarrow> int option" where
  "opt_min acc v = (case acc of None \<Rightarrow> Some v | Some a \<Rightarrow> if v < a then Some v else acc)"

lemma fold_opt_min: "foldl opt_min (Some a) vs = Some (Min (insert a (set vs)))"
proof (induction vs arbitrary: a)
  case (Cons v vs)
  have "foldl opt_min (Some a) (v # vs) = foldl opt_min (Some (min a v)) vs"
    by (simp add: opt_min_def min_def)
  also have "\<dots> = Some (Min (insert (min a v) (set vs)))" by (rule Cons.IH)
  also have "Min (insert (min a v) (set vs)) = Min (insert a (set (v # vs)))"
    by (cases "vs = []") (simp_all add: Min_insert min.assoc)
  finally show ?case .
qed (simp add: opt_min_def)

lemma fold_opt_min_None: "foldl opt_min None vs = (if vs = [] then None else Some (Min (set vs)))"
  by (cases vs) (simp_all add: fold_opt_min opt_min_def)

lemma next_attempt_eq:
  "next_attempt now ws = foldl opt_min None (map (retry_candidate now) (pending_of ws))"
proof -
  have "foldl (\<lambda>acc w. if wStatus w = StPending
     then (case acc of None \<Rightarrow> Some (retry_candidate now w)
           | Some a \<Rightarrow> if retry_candidate now w < a then Some (retry_candidate now w) else acc)
     else acc) acc ws = foldl opt_min acc (map (retry_candidate now) (pending_of ws))" for acc
    by (induction ws arbitrary: acc) (auto simp: pending_of_def opt_min_def split: option.splits)
  then show ?thesis by (simp add: next_attempt_def)
qed

lemma next_attempt_Min:
  "next_attempt now ws = (if pending_of ws = [] then None
     else Some (Min (retry_candidate now ` set (pending_of ws))))"
  by (simp add: next_attempt_eq fold_opt_min_None)

lemma min_next_retry_eq:
  "min_next_retry ws = foldl opt_min None (map (\<lambda>w. the (wNextRetryAt w)) (filter (\<lambda>w. wNextRetryAt w \<noteq> None) (pending_of ws)))"
proof -
  have "foldl (\<lambda>acc w. case wNextRetryAt w of None \<Rightarrow> acc
     | Some n \<Rightarrow> (case acc of None \<Rightarrow> Some n | Some m \<Rightarrow> if n < m then Some n else Some m)) acc xs
    = foldl opt_min acc (map (\<lambda>w. the (wNextRetryAt w)) (filter (\<lambda>w. wNextRetryAt w \<noteq> None) xs))" for acc xs
    by (induction xs arbitrary: acc) (auto simp: opt_min_def split: option.splits)
  then show ?thesis unfolding min_next_retry_def pending_of_def by blast
qed

lemma count_status_pending: "count_status StPending ws > 0 \<longleftrightarrow> pending_of ws \<noteq> []"
  by (simp add: count_status_def pending_of_def)

lemma count_zero: "count_status st ws = 0 \<longleftrightarrow> (\<forall>w \<in> set ws. wStatus w \<noteq> st)"
  by (auto simp: count_status_def filter_empty_conv)

lemma count_nonneg [simp]: "0 \<le> count_status st ws"
  by (simp add: count_status_def)

lemma counts_partition:
  assumes "list_all (\<lambda>w. known_status (wStatus w)) ws"
  shows "count_status StSuccess ws + count_status StFailed ws + count_status StUnavailable ws
    + count_status StPending ws + count_status StRunning ws = int (length ws)"
  using assms by (induction ws) (auto simp: count_status_def known_status_def)

lemma counts_terminal:
  assumes "list_all (\<lambda>w. known_status (wStatus w)) ws"
  shows "count_status StSuccess ws + count_status StFailed ws + count_status StUnavailable ws = int (length ws)
    \<longleftrightarrow> (\<forall>w \<in> set ws. \<not> is_active (wStatus w))"
proof -
  have "count_status StSuccess ws + count_status StFailed ws + count_status StUnavailable ws = int (length ws)
    \<longleftrightarrow> count_status StPending ws = 0 \<and> count_status StRunning ws = 0"
    using counts_partition [OF assms] count_nonneg [of StPending ws] count_nonneg [of StRunning ws] by linarith
  also have "\<dots> \<longleftrightarrow> (\<forall>w \<in> set ws. \<not> is_active (wStatus w))"
    by (auto simp: count_zero is_active_def)
  finally show ?thesis .
qed

section \<open>What a recalculation writes\<close>

lemma terminal_columns_simps [simp]:
  "rStatus (terminal_columns now st f r) = rStatus r" "rID (terminal_columns now st f r) = rID r"
  "rActiveKey (terminal_columns now st f r) = None" "rFinishedAt (terminal_columns now st f r) = Some now"
  "rHeartbeatAt (terminal_columns now st f r) = None" "rLastRequestID (terminal_columns now st f r) = rLastRequestID r"
  "rNextAttemptAt (terminal_columns now st f r) = rNextAttemptAt r"
  "rCompletedWindows (terminal_columns now st f r) = rCompletedWindows r"
  "rFailedWindows (terminal_columns now st f r) = rFailedWindows r" "rUpdatedAt (terminal_columns now st f r) = rUpdatedAt r"
  "rTotalWindows (terminal_columns now st f r) = rTotalWindows r" "rSiteID (terminal_columns now st f r) = rSiteID r"
  "rTaskType (terminal_columns now st f r) = rTaskType r" "rTargetType (terminal_columns now st f r) = rTargetType r"
  "rTargetID (terminal_columns now st f r) = rTargetID r" "rPriority (terminal_columns now st f r) = rPriority r"
  "rWindowsInitializedAt (terminal_columns now st f r) = rWindowsInitializedAt r"
  "rSiteConfigVersion (terminal_columns now st f r) = rSiteConfigVersion r"
  "rStartTimestamp (terminal_columns now st f r) = rStartTimestamp r"
  "rEndTimestamp (terminal_columns now st f r) = rEndTimestamp r"
  "rRetryCount (terminal_columns now st f r) = rRetryCount r"
  by (simp_all add: terminal_columns_def Let_def split: option.splits)

text \<open>The four outcomes of a recalculation without a forced failure.\<close>

lemma recalc_cases:
  assumes "RecalculateLockedCollectionRun run ws now None = Inr f" "is_active (rStatus run)"
  obtains (failed) "\<forall>w \<in> set ws. \<not> is_active (wStatus w)" "count_status StFailed ws > 0"
      "f = terminal_columns now StFailed (child_failure ws) \<circ> (\<lambda>r. r\<lparr>rStatus := StFailed,
         rCompletedWindows := count_status StSuccess ws, rFailedWindows := count_status StFailed ws, rUpdatedAt := now\<rparr>)"
  | (success) "\<forall>w \<in> set ws. \<not> is_active (wStatus w)" "count_status StFailed ws = 0"
      "f = terminal_columns now StSuccess None \<circ> (\<lambda>r. r\<lparr>rStatus := StSuccess,
         rCompletedWindows := count_status StSuccess ws, rFailedWindows := count_status StFailed ws, rUpdatedAt := now\<rparr>)"
  | (running) "\<exists>w \<in> set ws. wStatus w = StRunning"
      "f = (\<lambda>r. case next_attempt now ws of None \<Rightarrow> r | Some t \<Rightarrow> r\<lparr>rNextAttemptAt := t\<rparr>) \<circ> (\<lambda>r. r\<lparr>rStatus := StRunning,
         rCompletedWindows := count_status StSuccess ws, rFailedWindows := count_status StFailed ws, rUpdatedAt := now\<rparr>)"
  | (pending) "\<forall>w \<in> set ws. wStatus w \<noteq> StRunning" "pending_of ws \<noteq> []"
      "f = (\<lambda>r. case next_attempt now ws of None \<Rightarrow> r | Some t \<Rightarrow> r\<lparr>rNextAttemptAt := t\<rparr>) \<circ> (\<lambda>r. r\<lparr>rStatus := StPending,
         rCompletedWindows := count_status StSuccess ws, rFailedWindows := count_status StFailed ws, rUpdatedAt := now\<rparr>)"
proof -
  have st: "rStatus run \<noteq> StFailed" "rStatus run \<noteq> StSuccess" using assms(2) by (auto simp: is_active_def)
  from assms(1) st have k: "list_all (\<lambda>w. known_status (wStatus w)) ws" and t: "rTotalWindows run = int (length ws)"
    by (auto simp: RecalculateLockedCollectionRun_def Let_def split: if_splits)
  note tm = counts_terminal [OF k, folded t]
  have nn: "\<not> count_status StFailed ws > 0 \<longleftrightarrow> count_status StFailed ws = 0" using count_nonneg [of StFailed ws] by linarith
  have rn: "\<not> count_status StRunning ws > 0 \<longleftrightarrow> (\<forall>w \<in> set ws. wStatus w \<noteq> StRunning)"
    using count_nonneg [of StRunning ws] count_zero [of StRunning ws] by linarith
  from assms(1) st show thesis
    unfolding RecalculateLockedCollectionRun_def Let_def
    using that tm nn rn count_status_pending [of ws]
    by (auto split: if_split_asm)
qed

section \<open>The two recalculations agree\<close>

lemma initial_next_attempt:
  assumes "\<forall>w \<in> set (pending_of ws). wNextRetryAt w \<noteq> None" "pending_of ws \<noteq> []"
  shows "Some (case min_next_retry ws of None \<Rightarrow> now | Some n \<Rightarrow> if n > now then n else now) = next_attempt now ws"
proof -
  have all: "filter (\<lambda>w. wNextRetryAt w \<noteq> None) (pending_of ws) = pending_of ws"
    using assms(1) by (simp add: filter_id_conv)
  let ?P = "set (pending_of ws)"
  define M where "M = Min ((\<lambda>w. the (wNextRetryAt w)) ` ?P)"
  have m: "min_next_retry ws = Some M"
    using assms(2) all by (simp add: min_next_retry_eq fold_opt_min_None M_def)
  have "retry_candidate now w = max (the (wNextRetryAt w)) now" if "w \<in> ?P" for w
    using assms(1) that by (cases "wNextRetryAt w") (auto simp: retry_candidate_def max_def)
  then have "retry_candidate now ` ?P = (\<lambda>n. max n now) ` ((\<lambda>w. the (wNextRetryAt w)) ` ?P)"
    by (simp add: image_image cong: image_cong)
  moreover have "Min ((\<lambda>n. max n now) ` A) = max (Min A) now" if "finite A" "A \<noteq> {}" for A
    using mono_Min_commute [of "\<lambda>n. max n now" A] that by (simp add: mono_def max.coboundedI1)
  ultimately have "Min (retry_candidate now ` ?P) = max M now"
    using assms(2) unfolding M_def by simp
  then show ?thesis using m assms(2) by (simp add: next_attempt_Min max_def)
qed

text \<open>The part of a run row on which the two recalculations are compared.\<close>

definition progress_columns :: "CollectionRun \<Rightarrow> string \<times> int \<times> int \<times> int \<times> string option \<times> int option \<times> int option" where
  "progress_columns r = (rStatus r, rCompletedWindows r, rFailedWindows r, rNextAttemptAt r, rActiveKey r,
     rHeartbeatAt r, rFinishedAt r)"

lemma initial_columns_eq:
  assumes "initial_backfill_columns run ws now = Inr g" "rTotalWindows run = int (length ws)"
    and "pending_of ws \<noteq> [] \<longrightarrow> (\<forall>w \<in> set (pending_of ws). wNextRetryAt w \<noteq> None)"
  shows "progress_columns (g r) =
    (if \<forall>w \<in> set ws. \<not> is_active (wStatus w)
     then (if count_status StFailed ws > 0 then StFailed else StSuccess, count_status StSuccess ws,
           count_status StFailed ws, rNextAttemptAt r, None, None, Some now)
     else (if \<exists>w \<in> set ws. wStatus w = StRunning then StRunning else StPending, count_status StSuccess ws,
           count_status StFailed ws, (case next_attempt now ws of None \<Rightarrow> rNextAttemptAt r | Some t \<Rightarrow> t),
           rActiveKey r, rHeartbeatAt r, rFinishedAt r))"
proof -
  from assms(1) have k: "list_all (\<lambda>w. known_status (wStatus w)) ws"
    by (auto simp: initial_backfill_columns_def split: if_split_asm)
  note tm = counts_terminal [OF k, folded assms(2)]
  have run0: "count_status StRunning ws = 0 \<longleftrightarrow> \<not> (\<exists>w \<in> set ws. wStatus w = StRunning)" by (simp add: count_zero)
  have act: "(\<exists>w \<in> set ws. is_active (wStatus w)) \<Longrightarrow> \<not> (\<exists>w \<in> set ws. wStatus w = StRunning) \<Longrightarrow> pending_of ws \<noteq> []"
    by (auto simp: is_active_def pending_of_def filter_empty_conv)
  have none: "\<forall>w \<in> set ws. \<not> is_active (wStatus w) \<Longrightarrow> pending_of ws = []"
    by (auto simp: is_active_def pending_of_def filter_empty_conv)
  have nx: "(if pending_of ws \<noteq> []
      then Some (case min_next_retry ws of None \<Rightarrow> now | Some n \<Rightarrow> if n > now then n else now) else None) = next_attempt now ws"
    using initial_next_attempt [of ws now] assms(3) by (auto simp: next_attempt_Min)
  have ok: "0 < rID run" "0 < now" using assms(1) by (auto simp: initial_backfill_columns_def split: if_split_asm)
  note g = assms(1) [unfolded initial_backfill_columns_def Let_def nx tm run0 count_status_pending, symmetric]
  show ?thesis
  proof (cases "\<forall>w \<in> set ws. \<not> is_active (wStatus w)")
    case True
    with g ok k none show ?thesis by (simp add: progress_columns_def next_attempt_Min)
  next
    case False
    with g ok k act show ?thesis
      by (cases "next_attempt now ws"; cases "\<exists>w \<in> set ws. wStatus w = StRunning") (simp_all add: progress_columns_def)
  qed
qed

lemma recalc_columns_eq:
  assumes "RecalculateLockedCollectionRun run ws now None = Inr f" "is_active (rStatus run)"
  shows "progress_columns (f r) =
    (if \<forall>w \<in> set ws. \<not> is_active (wStatus w)
     then (if count_status StFailed ws > 0 then StFailed else StSuccess, count_status StSuccess ws,
           count_status StFailed ws, rNextAttemptAt r, None, None, Some now)
     else (if \<exists>w \<in> set ws. wStatus w = StRunning then StRunning else StPending, count_status StSuccess ws,
           count_status StFailed ws, (case next_attempt now ws of None \<Rightarrow> rNextAttemptAt r | Some t \<Rightarrow> t),
           rActiveKey r, rHeartbeatAt r, rFinishedAt r))"
  using assms
proof (cases rule: recalc_cases)
  case running
  then have "\<not> (\<forall>w \<in> set ws. \<not> is_active (wStatus w))" by (auto simp: is_active_def)
  with running show ?thesis by (auto simp: progress_columns_def split: option.splits)
next
  case pending
  then have "\<not> (\<forall>w \<in> set ws. \<not> is_active (wStatus w))" "\<not> (\<exists>w \<in> set ws. wStatus w = StRunning)"
    by (auto simp: is_active_def pending_of_def filter_empty_conv)
  with pending show ?thesis by (auto simp: progress_columns_def split: option.splits)
qed (auto simp: progress_columns_def)

section \<open>Hours\<close>

lemma set_hours_between: "set (hours_between s e) = {h. s \<le> h \<and> h < e \<and> (h - s) mod 3600 = 0}"
proof (induction s e rule: hours_between.induct)
  case (1 s e)
  show ?case
  proof (cases "s < e")
    case True
    have "h = s \<or> s + 3600 \<le> h" if "s \<le> h" "(h - s) mod 3600 = 0" for h
      using aligned_gap [of 0 3600 "h - s"] that by force
    moreover have "(h - (s + 3600)) mod 3600 = (h - s) mod 3600" for h
      using mod_diff_right_eq [of "h - s" 3600 3600] by (simp add: algebra_simps)
    ultimately show ?thesis using 1 True by (subst hours_between.simps) fastforce
  next
    case False
    then show ?thesis by (subst hours_between.simps) auto
  qed
qed

lemma sorted_hours_between: "sorted_wrt (<) (hours_between s e)"
proof (induction s e rule: hours_between.induct)
  case (1 s e)
  then show ?case by (subst hours_between.simps) (auto simp: set_hours_between)
qed

lemma check_fact_hours_set:
  "check_fact_hours s e p fs = Inr hs \<Longrightarrow>
    set hs = fHourTS ` {f \<in> set fs. fStatus f = ''complete'' \<or> fStatus f = ''unavailable''}"
  by (induction s e p fs arbitrary: hs rule: check_fact_hours.induct)
    (fastforce simp: and_then_Inr_conv split: if_splits)+

lemma valid_hours_fold:
  fixes s e p :: int
  assumes "sorted_wrt (<) hs" "\<forall>h \<in> set hs. p < h \<and> s \<le> h \<and> h < e \<and> h mod 3600 = 0"
  shows "\<exists>q. foldl (\<lambda>acc h. and_then acc (\<lambda>previous.
      if h mod 3600 \<noteq> 0 \<or> h < s \<or> h \<ge> e \<or> h \<le> previous
      then Inl ErrCollectionRunContract else Inr h)) (Inr p) hs = Inr q"
  using assms by (induction hs arbitrary: p) auto

lemma aligned_hours: "s mod 3600 = 0 \<Longrightarrow> h \<in> set (hours_between s e) \<longleftrightarrow> s \<le> h \<and> h < e \<and> h mod 3600 = 0"
  for h s e :: int
  using mod_diff_right_eq [of h s 3600] by (simp add: set_hours_between)

section \<open>Properties of run recalculation\<close>

definition sample_run :: CollectionRun where
  "sample_run = \<lparr>rID = 7, rSiteID = Some 1, rSiteConfigVersion = 3, rTaskType = TaskTypeUsageBackfill,
     rTargetType = ''site'', rTargetID = 1, rTriggerType = TriggerRecovery, rStartTimestamp = Some 3600,
     rEndTimestamp = Some 14400, rScope = NewUsageBackfillRunScope True, rActiveKey = Some ''k'',
     rStatus = StRunning, rFetchedRows = 0, rWrittenRows = 0, rRetryCount = 0,
     rPriority = PriorityInitialBackfill, rNextAttemptAt = 100, rHeartbeatAt = Some 900,
     rWindowsInitializedAt = Some 100, rTotalWindows = 3, rCompletedWindows = 0, rFailedWindows = 0,
     rCreatedRequestID = ''q'', rLastRequestID = ''w'', rErrorCode = [], rErrorParams = [], rErrorMessage = None,
     rStartedAt = Some 900, rFinishedAt = None, rCreatedAt = 100, rUpdatedAt = 900\<rparr>"

definition sample_window :: "int \<Rightarrow> string \<Rightarrow> int option \<Rightarrow> CollectionRunWindow" where
  "sample_window i st retry = \<lparr>wID = i, wRunID = 7, wSiteID = 1, wHourTS = 3600 * i, wStatus = st,
     wAttemptCount = 1, wNextRetryAt = retry, wFetchedRows = 0, wWrittenRows = 0, wErrorCode = [],
     wErrorParams = [], wErrorMessage = None, wStartedAt = None, wFinishedAt = None, wUpdatedAt = 900\<rparr>"

text \<open>
  C11. A recalculation sets an active run's row exactly as its windows demand: terminal (failed if any
  window failed, else success) iff no window is pending or running, then without active key and
  heartbeat and with a finish time; otherwise running iff a window is running, else pending, with the
  active key kept and the next attempt at the earliest moment a pending window may run; the counters
  count the windows.
\<close>

theorem recalculation_follows_windows:
  assumes "RecalculateLockedCollectionRun run ws now None = Inr f" "is_active (rStatus run)"
  shows "rCompletedWindows (f run) = count_status StSuccess ws \<and> rFailedWindows (f run) = count_status StFailed ws
    \<and> (if \<forall>w \<in> set ws. \<not> is_active (wStatus w)
       then rStatus (f run) = (if \<exists>w \<in> set ws. wStatus w = StFailed then StFailed else StSuccess)
         \<and> rActiveKey (f run) = None \<and> rHeartbeatAt (f run) = None \<and> rFinishedAt (f run) = Some now
       else rStatus (f run) = (if \<exists>w \<in> set ws. wStatus w = StRunning then StRunning else StPending)
         \<and> rActiveKey (f run) = rActiveKey run
         \<and> (pending_of ws \<noteq> [] \<longrightarrow> rNextAttemptAt (f run) = Min (retry_candidate now ` set (pending_of ws))))"
proof -
  have "count_status StFailed ws > 0 \<longleftrightarrow> (\<exists>w \<in> set ws. wStatus w = StFailed)"
    using count_zero [of StFailed ws] count_nonneg [of StFailed ws] by (metis less_le)
  then show ?thesis
    using recalc_columns_eq [OF assms, of run] by (simp add: progress_columns_def next_attempt_Min split: if_splits)
qed

theorem recalculation_follows_windows_witness:
  "\<exists>f. RecalculateLockedCollectionRun sample_run
         [sample_window 1 StSuccess None, sample_window 2 StPending (Some 2000), sample_window 3 StPending None] 1000 None = Inr f
     \<and> rStatus (f sample_run) = StPending \<and> rNextAttemptAt (f sample_run) = 1000 \<and> rCompletedWindows (f sample_run) = 1"
proof -
  let ?ws = "[sample_window 1 StSuccess None, sample_window 2 StPending (Some 2000), sample_window 3 StPending None]"
  obtain f where f: "RecalculateLockedCollectionRun sample_run ?ws 1000 None = Inr f"
    by (simp add: RecalculateLockedCollectionRun_def sample_run_def sample_window_def known_status_def count_status_def)
  have "is_active (rStatus sample_run)" by (simp add: sample_run_def is_active_def)
  from recalculation_follows_windows [OF f this] f show ?thesis
    by (intro exI [of _ f]) (simp add: sample_window_def count_status_def is_active_def pending_of_def retry_candidate_def)
qed



text \<open>
  They differ when some pending window was never tried (its retry time is NULL): the general
  recalculation makes the run claimable at once, the one for initial backfills postpones it to the
  earliest retry of another window, although the untried window is claimable now.
\<close>

theorem initial_backfill_postpones_untried:
  "\<exists>f g. initial_backfill_columns sample_run
         [sample_window 1 StSuccess None, sample_window 2 StPending (Some 4600), sample_window 3 StPending None] 1000 = Inr g
     \<and> RecalculateLockedCollectionRun sample_run
         [sample_window 1 StSuccess None, sample_window 2 StPending (Some 4600), sample_window 3 StPending None] 1000 None = Inr f
     \<and> rStatus (g sample_run) = StPending \<and> rNextAttemptAt (f sample_run) = 1000 \<and> rNextAttemptAt (g sample_run) = 4600"
  by (simp add: initial_backfill_columns_def RecalculateLockedCollectionRun_def sample_run_def sample_window_def
      known_status_def count_status_def next_attempt_def min_next_retry_def retry_candidate_def Let_def)

text \<open>
  The windows expected for a site run are accepted by \<^verbatim>\<open>validateSiteRunWindowHours\<close>: they are the
  hours of the run's range in strictly increasing order, and for a backfill that only fills missing
  hours exactly those not yet complete or unavailable.
\<close>

theorem expected_hours_valid:
  assumes "expectedSiteRunWindowHours db run = Inr hours" "ValidateCollectionRunForCreate run = Inr ()"
    and "0 < rID run" "rTargetType run = ''site''"
  shows "validateSiteRunWindowHours run hours = Inr ()
    \<and> (\<forall>h. h \<in> set hours \<longleftrightarrow> covers run h \<and> h mod 3600 = 0
          \<and> \<not> (rTaskType run = TaskTypeUsageBackfill \<and> UsageBackfillOnlyMissing (rScope run) = Inr True
               \<and> settled_hour db (rTargetID run) h))"
proof -
  from assms(1) obtain i s e om ex where r: "rSiteID run = Some i" "rStartTimestamp run = Some s" "rEndTimestamp run = Some e"
    and om: "(if rTaskType run = TaskTypeUsageBackfill then UsageBackfillOnlyMissing (rScope run) else Inr False) = Inr om"
    and ex: "(if om then check_fact_hours s e (-1) (sort_key fHourTS
        (filter (\<lambda>f. fSiteID f = i \<and> s \<le> fHourTS f \<and> fHourTS f < e) (fact_windows db))) else Inr []) = Inr ex"
    and hours: "hours = filter (\<lambda>h. h \<notin> set ex) (hours_between s e)"
    by (auto simp: expectedSiteRunWindowHours_def and_then_Inr_conv split: option.splits)
  have v: "i = rTargetID run" "0 < i" "0 < rSiteConfigVersion run" "0 < s" "s \<le> e" "s mod 3600 = 0" "e mod 3600 = 0"
    using assms(2,4) r by (auto simp: ValidateCollectionRunForCreate_def aligned_range_def split: if_split_asm)
  have omi: "om \<longleftrightarrow> rTaskType run = TaskTypeUsageBackfill \<and> UsageBackfillOnlyMissing (rScope run) = Inr True"
    using om by (auto split: if_splits)
  have exs: "h \<in> set ex \<longleftrightarrow> om \<and> settled_hour db i h" if "s \<le> h" "h < e" for h
    using ex that by (auto simp: settled_hour_def dest!: check_fact_hours_set split: if_splits)
  have mem: "h \<in> set hours \<longleftrightarrow> s \<le> h \<and> h < e \<and> h mod 3600 = 0 \<and> \<not> (om \<and> settled_hour db i h)" for h
    using exs by (auto simp: hours aligned_hours [OF v(6)])
  have "sorted_wrt (<) hours" unfolding hours by (rule sorted_wrt_filter [OF sorted_hours_between])
  then have "validateSiteRunWindowHours run hours = Inr ()"
    using valid_hours_fold [of hours "-1" s e] mem v assms(3) r
    by (fastforce simp: validateSiteRunWindowHours_def)
  then show ?thesis using mem omi v(1) r by (auto simp: covers_def)
qed

theorem expected_hours_valid_witness:
  "validateSiteRunWindowHours (sample_run\<lparr>rStatus := StPending, rPriority := 90, rCreatedRequestID := ''q'',
       rLastRequestID := ''q'', rUpdatedAt := 100, rTotalWindows := 0, rWindowsInitializedAt := None,
       rActiveKey := Some ''usage_backfill:site:1:3600:14400''\<rparr>) [3600, 7200, 10800] = Inr ()"
proof -
  let ?r = "sample_run\<lparr>rStatus := StPending, rPriority := 90, rCreatedRequestID := ''q'',
       rLastRequestID := ''q'', rUpdatedAt := 100, rTotalWindows := 0, rWindowsInitializedAt := None,
       rActiveKey := Some ''usage_backfill:site:1:3600:14400''\<rparr>"
  have "expectedSiteRunWindowHours sample_store ?r = Inr [3600, 7200, 10800]"
    "ValidateCollectionRunForCreate ?r = Inr ()" "0 < rID ?r" "rTargetType ?r = ''site''"
    by code_simp+
  from expected_hours_valid [OF this] show ?thesis by blast
qed

end
