(* ===== verification/Local_Rebuild.thy ===== *)
theory Local_Rebuild
  imports Run_State
begin

text \<open>
  What a finished run does to accounts, customers and the site: the lifecycle transitions of
  \<^verbatim>\<open>model/local_rebuild.go\<close>, the backfill statuses of \<^verbatim>\<open>model/site_fence.go\<close>
  (\<^verbatim>\<open>recalculateSiteFenceBackfillStatuses\<close>) and \<^verbatim>\<open>recalculateTaskBackfillStatuses\<close> with
  \<^verbatim>\<open>UsageBackfillStatisticsStatus\<close>.
\<close>

section \<open>Lifecycle transitions of local rebuilds\<close>

definition account_by_id :: "store \<Rightarrow> int \<Rightarrow> Account option" where
  "account_by_id db i = find (\<lambda>a. aID a = i) (accounts db)"

definition customer_by_id :: "store \<Rightarrow> int \<Rightarrow> Customer option" where
  "customer_by_id db i = find (\<lambda>c. cID c = i) (customers db)"

definition localRebuildRunCoversPause :: "CollectionRun \<Rightarrow> int option \<Rightarrow> bool" where
  "localRebuildRunCoversPause run pause =
     (case (pause, rStartTimestamp run, rEndTimestamp run) of
        (Some p, Some s, Some e) \<Rightarrow> s \<le> p \<and> e \<ge> p
      | _ \<Rightarrow> False)"

definition restore_account :: "int \<Rightarrow> Account \<Rightarrow> Account" where
  "restore_account now a = a\<lparr>aManagedStatus := ''active'', aStatisticsPausedAt := None,
     aBackfillStatus := ''none'', aUpdatedAt := now\<rparr>"

definition finalizeAccountRebuildLifecycle :: "store \<Rightarrow> CollectionRun \<Rightarrow> int \<Rightarrow> store result" where
  "finalizeAccountRebuildLifecycle db run now =
     and_then (found (account_by_id db (rTargetID run))) (\<lambda>account.
       if aManagedStatus account = ''active'' \<and> aStatisticsPausedAt account = None then Inr db
       else and_then (found (customer_by_id db (aCustomerID account))) (\<lambda>customer.
         if cStatus customer = ''disabled'' then Inl ErrCustomerDisabled
         else if aRemoteState account = ''identity_mismatch'' \<or> aManagedStatus account \<noteq> ''archived''
             \<or> aStatisticsPausedAt account = None
             \<or> \<not> localRebuildRunCoversPause run (aStatisticsPausedAt account)
           then Inl ErrAccountRestoreContract
         else Inr (db\<lparr>accounts := update_where (\<lambda>a. aID a = aID account) (restore_account now) (accounts db)\<rparr>)))"

definition rebuild_skips :: "Account \<Rightarrow> bool" where
  "rebuild_skips a \<longleftrightarrow> aManagedStatus a = ''archived'' \<or> aRemoteState a = ''identity_mismatch''"

definition finalizeCustomerRebuildLifecycle :: "store \<Rightarrow> CollectionRun \<Rightarrow> int \<Rightarrow> store result" where
  "finalizeCustomerRebuildLifecycle db run now =
     and_then (found (customer_by_id db (rTargetID run))) (\<lambda>customer.
       if cStatus customer = ''using'' \<and> cStatisticsPausedAt customer = None then Inr db
       else if cStatus customer \<noteq> ''disabled'' \<or> cStatisticsPausedAt customer = None
           \<or> \<not> localRebuildRunCoversPause run (cStatisticsPausedAt customer)
         then Inl ErrCustomerLifecycleContract
       else if list_ex (\<lambda>a. aCustomerID a = cID customer \<and> \<not> rebuild_skips a \<and> aStatisticsPausedAt a \<noteq> None
                \<and> \<not> localRebuildRunCoversPause run (aStatisticsPausedAt a)) (accounts db)
         then Inl ErrCustomerEnableNotReady
       else Inr (db\<lparr>
         accounts := update_where (\<lambda>a. aCustomerID a = cID customer \<and> \<not> rebuild_skips a)
           (\<lambda>a. a\<lparr>aStatisticsPausedAt := None, aBackfillStatus := ''none'', aUpdatedAt := now\<rparr>) (accounts db),
         customers := update_where (\<lambda>c. cID c = cID customer)
           (\<lambda>c. c\<lparr>cStatus := ''using'', cStatisticsPausedAt := None, cBackfillStatus := ''none'', cUpdatedAt := now\<rparr>)
           (customers db)\<rparr>))"

definition latest_target_run :: "store \<Rightarrow> string \<Rightarrow> int \<Rightarrow> string \<Rightarrow> CollectionRun option" where
  "latest_target_run db targetType targetID taskType =
     latest_by_id (filter (\<lambda>r. rTargetType r = targetType \<and> rTargetID r = targetID \<and> rTaskType r = taskType) (runs db))"

definition finalizeLocalRebuildLifecycle :: "store \<Rightarrow> CollectionRun \<Rightarrow> int \<Rightarrow> store result" where
  "finalizeLocalRebuildLifecycle db run now =
     (if rStatus run \<noteq> StSuccess
         \<or> (rTaskType run \<noteq> TaskTypeAccountRebuild \<and> rTaskType run \<noteq> TaskTypeCustomerRebuild) then Inr db
      else and_then (found (latest_target_run db (rTargetType run) (rTargetID run) (rTaskType run))) (\<lambda>latest.
        if rID latest \<noteq> rID run \<or> rStatus latest \<noteq> StSuccess \<or> rStartTimestamp latest = None
           \<or> rEndTimestamp latest = None then Inl ErrRebuildRunNotReady
        else if rTaskType run = TaskTypeAccountRebuild then finalizeAccountRebuildLifecycle db latest now
        else finalizeCustomerRebuildLifecycle db latest now))"

section \<open>Backfill statuses of accounts and customers\<close>

definition run_status_priority :: "string \<Rightarrow> int" where
  "run_status_priority st =
     (if st = StRunning then 3 else if st = StPending then 2 else if st = StFailed then 1
      else if st = StSuccess then 0 else -1)"

definition backfill_status_priority :: "string \<Rightarrow> int" where
  "backfill_status_priority st =
     (if st = ''running'' then 3 else if st = ''pending'' then 2 else if st = ''failed'' then 1
      else if st = ''none'' then 0 else -1)"

definition latest_run_priority :: "store \<Rightarrow> string \<Rightarrow> int \<Rightarrow> string \<Rightarrow> int" where
  "latest_run_priority db targetType targetID taskType =
     (case latest_target_run db targetType targetID taskType of
        None \<Rightarrow> 0 | Some r \<Rightarrow> run_status_priority (rStatus r))"

definition account_row_priority :: "store \<Rightarrow> Account \<Rightarrow> int" where
  "account_row_priority db a = latest_run_priority db ''account'' (aID a) TaskTypeAccountRebuild"

definition customer_row_priority :: "store \<Rightarrow> Customer \<Rightarrow> int" where
  "customer_row_priority db c =
     max (latest_run_priority db ''customer'' (cID c) TaskTypeCustomerRebuild)
       (case map (\<lambda>a. backfill_status_priority (aBackfillStatus a))
               (filter (\<lambda>a. aCustomerID a = cID c) (accounts db)) of
          [] \<Rightarrow> 0 | p # ps \<Rightarrow> foldl max p ps)"

definition backfill_statuses :: "(int \<times> string) list" where
  "backfill_statuses = [(0, ''none''), (1, ''failed''), (2, ''pending''), (3, ''running'')]"

text \<open>\<^verbatim>\<open>batchUpdateSiteFenceStatuses\<close>: one update per priority group; an unknown priority is an error.\<close>

definition batchUpdateAccountStatuses :: "store \<Rightarrow> (int \<times> int) list \<Rightarrow> int \<Rightarrow> store result" where
  "batchUpdateAccountStatuses db rows now =
     (if \<not> list_all (\<lambda>(i, p). p \<in> {0, 1, 2, 3}) rows then Inl ErrCollectionRunContract
      else Inr (foldl (\<lambda>d (p, st). d\<lparr>accounts := update_where (\<lambda>a. (aID a, p) \<in> set rows)
             (\<lambda>a. a\<lparr>aBackfillStatus := st, aUpdatedAt := now\<rparr>) (accounts d)\<rparr>) db backfill_statuses))"

definition batchUpdateCustomerStatuses :: "store \<Rightarrow> (int \<times> int) list \<Rightarrow> int \<Rightarrow> store result" where
  "batchUpdateCustomerStatuses db rows now =
     (if \<not> list_all (\<lambda>(i, p). p \<in> {0, 1, 2, 3}) rows then Inl ErrCollectionRunContract
      else Inr (foldl (\<lambda>d (p, st). d\<lparr>customers := update_where (\<lambda>c. (cID c, p) \<in> set rows)
             (\<lambda>c. c\<lparr>cBackfillStatus := st, cUpdatedAt := now\<rparr>) (customers d)\<rparr>) db backfill_statuses))"

definition recalculateSiteFenceBackfillStatuses ::
    "store \<Rightarrow> int list \<Rightarrow> int list \<Rightarrow> int \<Rightarrow> store result" where
  "recalculateSiteFenceBackfillStatuses db accountIDs customerIDs now =
     and_then
       (if accountIDs = [] then Inr db
        else let rows = map (\<lambda>a. (aID a, account_row_priority db a)) (filter (\<lambda>a. aID a \<in> set accountIDs) (accounts db))
             in if length rows \<noteq> length accountIDs then Inl ErrSiteRunConfigChanged
                else batchUpdateAccountStatuses db rows now)
       (\<lambda>db1. if customerIDs = [] then Inr db1
              else let rows = map (\<lambda>c. (cID c, customer_row_priority db1 c))
                         (filter (\<lambda>c. cID c \<in> set customerIDs) (customers db1))
                   in if length rows \<noteq> length customerIDs then Inl ErrSiteRunConfigChanged
                      else batchUpdateCustomerStatuses db1 rows now)"

section \<open>Site statistics status after a backfill\<close>

definition UsageBackfillStatisticsStatus :: "store \<Rightarrow> int \<Rightarrow> int \<Rightarrow> string result" where
  "UsageBackfillStatisticsStatus db siteID configVersion =
     (if siteID \<le> 0 \<or> configVersion \<le> 0 then Inl ErrCollectionRunContract
      else and_then (found (find (\<lambda>s. sID s = siteID \<and> sConfigVersion s = configVersion) (sites db))) (\<lambda>site.
        let backfill = (\<lambda>r. rSiteID r = Some siteID \<and> rSiteConfigVersion r = configVersion
              \<and> rTaskType r = TaskTypeUsageBackfill \<and> rTargetType r = ''site'' \<and> rTargetID r = siteID);
            statisticsStart = (case sStatisticsStartAt site of None \<Rightarrow> 0 | Some t \<Rightarrow> t)
        in if list_ex (\<lambda>r. backfill r \<and> is_active (rStatus r)) (runs db) then Inr ''backfilling''
           else if list_ex (\<lambda>w. wSiteID w = siteID \<and> wHourTS w \<ge> statisticsStart
                  \<and> list_ex (\<lambda>r. rID r = wRunID w \<and> backfill r) (runs db)
                  \<and> (case find (\<lambda>f. fSiteID f = wSiteID w \<and> fHourTS f = wHourTS w) (fact_windows db) of
                       None \<Rightarrow> True | Some f \<Rightarrow> fStatus f \<noteq> ''complete'')) (run_windows db) then Inr ''partial''
           else if list_ex (\<lambda>f. fSiteID f = siteID \<and> fHourTS f \<ge> statisticsStart
                  \<and> (fStatus f = ''missing'' \<or> fStatus f = ''unavailable'')) (fact_windows db) then Inr ''partial''
           else Inr ''ready''))"

definition recalculateTaskBackfillStatuses :: "store \<Rightarrow> CollectionRun \<Rightarrow> int \<Rightarrow> store result" where
  "recalculateTaskBackfillStatuses db run now =
     (if rTargetType run = ''site'' then
        (if rTaskType run \<noteq> TaskTypeUsageBackfill \<or> rSiteID run \<noteq> Some (rTargetID run) then Inr db
         else if rStatus run \<noteq> StSuccess \<and> rStatus run \<noteq> StFailed then Inr db
         else and_then (UsageBackfillStatisticsStatus db (rTargetID run) (rSiteConfigVersion run)) (\<lambda>status0.
           let status = (if rStatus run = StFailed \<and> status0 = ''ready'' then ''partial'' else status0)
           in Inr (db\<lparr>sites := update_where
                (\<lambda>s. sID s = rTargetID run \<and> sConfigVersion s = rSiteConfigVersion run \<and> sStatisticsStatus s = ''backfilling'')
                (\<lambda>s. s\<lparr>sStatisticsStatus := status, sUpdatedAt := now\<rparr>) (sites db)\<rparr>)))
      else if rTargetType run = ''account'' then
        and_then (found (account_by_id db (rTargetID run))) (\<lambda>account.
          recalculateSiteFenceBackfillStatuses db [aID account] [aCustomerID account] now)
      else if rTargetType run = ''customer'' then
        recalculateSiteFenceBackfillStatuses db
          (map aID (sort_key aID (filter (\<lambda>a. aCustomerID a = rTargetID run) (accounts db)))) [rTargetID run] now
      else Inr db)"

section \<open>Frame\<close>

text \<open>None of these operations touches runs, windows or collection windows.\<close>

definition same_runs :: "store \<Rightarrow> store \<Rightarrow> bool" where
  "same_runs db db' \<longleftrightarrow> runs db' = runs db \<and> run_windows db' = run_windows db \<and> next_run_id db' = next_run_id db
     \<and> next_window_id db' = next_window_id db \<and> fact_windows db' = fact_windows db"

lemma same_runs_refl [simp]: "same_runs db db"
  by (simp add: same_runs_def)

lemma same_runs_trans: "same_runs a b \<Longrightarrow> same_runs b c \<Longrightarrow> same_runs a c"
  by (simp add: same_runs_def)

lemma finalize_same_runs: "finalizeLocalRebuildLifecycle db run now = Inr db' \<Longrightarrow> same_runs db db'"
  by (auto simp: finalizeLocalRebuildLifecycle_def finalizeAccountRebuildLifecycle_def
      finalizeCustomerRebuildLifecycle_def and_then_Inr_conv same_runs_def split: if_split_asm)

lemma batch_account_same_runs: "batchUpdateAccountStatuses db rows now = Inr db' \<Longrightarrow> same_runs db db'"
  by (auto simp: batchUpdateAccountStatuses_def backfill_statuses_def same_runs_def split: if_split_asm)

lemma batch_customer_same_runs: "batchUpdateCustomerStatuses db rows now = Inr db' \<Longrightarrow> same_runs db db'"
  by (auto simp: batchUpdateCustomerStatuses_def backfill_statuses_def same_runs_def split: if_split_asm)

lemma fence_statuses_same_runs:
  "recalculateSiteFenceBackfillStatuses db as cs now = Inr db' \<Longrightarrow> same_runs db db'"
  by (auto simp: recalculateSiteFenceBackfillStatuses_def and_then_Inr_conv Let_def split: if_split_asm
      dest!: batch_account_same_runs batch_customer_same_runs intro: same_runs_trans)

lemma statuses_same_runs: "recalculateTaskBackfillStatuses db run now = Inr db' \<Longrightarrow> same_runs db db'"
  by (auto simp: recalculateTaskBackfillStatuses_def and_then_Inr_conv Let_def split: if_split_asm
      dest: fence_statuses_same_runs) (auto simp: same_runs_def)

end
