(* ===== verification/Run_Claims.thy ===== *)
theory Run_Claims
  imports Local_Rebuild
begin

text \<open>
  Claiming, committing, releasing and recovering collection tasks (\<^verbatim>\<open>model/collection_task.go\<close>). A
  claim is fenced by the run's \<^verbatim>\<open>last_request_id\<close>. \<^verbatim>\<open>RowsAffected\<close> counts the rows an update really
  changes, which is what MySQL reports to a connection without \<^verbatim>\<open>clientFoundRows\<close> (the documented
  \<^verbatim>\<open>DATABASE_DSN\<close> has none). An update that does not name \<^verbatim>\<open>updated_at\<close> gets it from GORM as the
  wall-clock second \<open>autoNow\<close>. The business write of a window is the parameter \<open>mutation\<close>: of the
  tables modelled here it may only replace collection windows.
\<close>

section \<open>Task scopes\<close>

record collectionTaskScope =
  scSiteIDs :: "int list"
  scCustomerIDs :: "int list"
  scAccounts :: "(int \<times> int \<times> int) list"

definition appendUniqueSortedID :: "int list \<Rightarrow> int \<Rightarrow> int list" where
  "appendUniqueSortedID ids i =
     (if i \<le> 0 then ids
      else let front = takeWhile (\<lambda>x. x < i) ids; back = dropWhile (\<lambda>x. x < i) ids
           in if back \<noteq> [] \<and> hd back = i then ids else front @ i # back)"

definition account_ref :: "Account \<Rightarrow> int \<times> int \<times> int" where
  "account_ref a = (aID a, aSiteID a, aCustomerID a)"

definition resolveTaskScope :: "store \<Rightarrow> CollectionRun \<Rightarrow> collectionTaskScope result" where
  "resolveTaskScope db run =
     (if rTargetType run = ''site'' then
        (case rSiteID run of
           None \<Rightarrow> Inl ErrCollectionRunContract
         | Some s \<Rightarrow> (if s \<le> 0 \<or> s \<noteq> rTargetID run then Inl ErrCollectionRunContract
                     else Inr \<lparr>scSiteIDs = [s], scCustomerIDs = [], scAccounts = []\<rparr>))
      else if rTargetType run = ''account'' then
        and_then (found (account_by_id db (rTargetID run))) (\<lambda>a.
          Inr \<lparr>scSiteIDs = [aSiteID a], scCustomerIDs = [aCustomerID a], scAccounts = [account_ref a]\<rparr>)
      else if rTargetType run = ''customer'' then
        let refs = map account_ref (sort_key aID (filter (\<lambda>a. aCustomerID a = rTargetID run) (accounts db)))
        in Inr \<lparr>scSiteIDs = foldl (\<lambda>ids (i, s, c). appendUniqueSortedID ids s) [] refs,
                scCustomerIDs = [rTargetID run], scAccounts = refs\<rparr>
      else Inl ErrCollectionRunContract)"

definition lockTaskScope :: "store \<Rightarrow> collectionTaskScope \<Rightarrow> bool \<Rightarrow> unit result" where
  "lockTaskScope db scope skipLocked =
     (let lost = (if skipLocked then ErrCollectionTaskUnavailable else ErrCollectionRunContract)
      in if scSiteIDs scope \<noteq> []
            \<and> length (filter (\<lambda>s. sID s \<in> set (scSiteIDs scope)) (sites db)) \<noteq> length (scSiteIDs scope) then Inl lost
         else if scCustomerIDs scope \<noteq> []
            \<and> length (filter (\<lambda>c. cID c \<in> set (scCustomerIDs scope)) (customers db)) \<noteq> length (scCustomerIDs scope)
           then Inl lost
         else if scAccounts scope \<noteq> [] then
           (let rows = map account_ref (sort_key aID (filter (\<lambda>a. aID a \<in> fst ` set (scAccounts scope)) (accounts db)))
            in if length rows \<noteq> length (scAccounts scope) then Inl lost
               else if rows \<noteq> scAccounts scope then Inl ErrCollectionRunContract
               else Inr ())
         else Inr ())"

definition verifyTaskScopeLocked :: "store \<Rightarrow> CollectionRun \<Rightarrow> collectionTaskScope \<Rightarrow> unit result" where
  "verifyTaskScopeLocked db run scope =
     (if rTargetType run = ''site'' then
        and_then (found (site_by_id db (rTargetID run))) (\<lambda>site.
          if rSiteID run \<noteq> Some (sID site) \<or> rSiteConfigVersion run \<noteq> sConfigVersion site
             \<or> \<not> siteAllowsTask site (rTaskType run) then Inl ErrSiteRunConfigChanged
          else if CollectionTaskWindowed (rTaskType run)
            then ValidateRunnableSiteSnapshotForTask site (site_capabilities db (sID site))
                   (rSiteConfigVersion run) (rTaskType run)
          else Inr ())
      else if rSiteID run \<noteq> None \<or> rSiteConfigVersion run \<noteq> 0 then Inl ErrCollectionRunContract
      else if rTargetType run = ''account'' then
        (if map fst (scAccounts scope) \<noteq> [rTargetID run] then Inl ErrCollectionRunContract else Inr ())
      else if rTargetType run = ''customer'' then
        (if scCustomerIDs scope \<noteq> [rTargetID run] then Inl ErrCollectionRunContract else Inr ())
      else Inr ())"

definition scopeHasRunningTask :: "store \<Rightarrow> CollectionRun \<Rightarrow> collectionTaskScope \<Rightarrow> bool result" where
  "scopeHasRunningTask db run scope =
     (if rTargetType run = ''site'' then
        Inr (list_ex (\<lambda>r. rSiteID r = Some (hd (scSiteIDs scope)) \<and> rTaskType r = rTaskType run
               \<and> rStatus r = StRunning \<and> rID r \<noteq> rID run) (runs db))
      else case scCustomerIDs scope of
             [customer] \<Rightarrow>
               Inr (list_ex (\<lambda>r. rStatus r = StRunning \<and> rID r \<noteq> rID run \<and> rTaskType r = rTaskType run
                 \<and> ((rTargetType r = ''customer'' \<and> rTargetID r = customer)
                    \<or> (rTargetType r = ''account''
                        \<and> list_ex (\<lambda>a. aID a = rTargetID r \<and> aCustomerID a = customer) (accounts db)))) (runs db))
           | _ \<Rightarrow> Inl ErrCollectionRunContract)"

text \<open>The prologue shared by the methods that act on a claimed run: read the run, resolve its scope
  and lock it.\<close>

definition with_run :: "store \<Rightarrow> int \<Rightarrow> (CollectionRun \<Rightarrow> collectionTaskScope \<Rightarrow> 'a result) \<Rightarrow> 'a result" where
  "with_run db runID body =
     and_then (found (run_by_id db runID)) (\<lambda>run.
     and_then (resolveTaskScope db run) (\<lambda>scope.
     and_then (lockTaskScope db scope False) (\<lambda>_. body run scope)))"

definition rows_affected :: "('a \<Rightarrow> bool) \<Rightarrow> ('a \<Rightarrow> 'a) \<Rightarrow> 'a list \<Rightarrow> nat" where
  "rows_affected P f xs = length (filter (\<lambda>x. P x \<and> f x \<noteq> x) xs)"

section \<open>Claiming\<close>

record CollectionTaskClaimOptions =
  coTaskTypes :: "string list"
  coPriority :: "int option"
  coExcludePriority :: "int option"
  coNow :: int
  coRequestID :: string
  coMaxWindow :: int
  coScanLimit :: int

record CollectionTaskClaim =
  clRun :: CollectionRun
  clWindows :: "CollectionRunWindow list"
  clRequestID :: string

definition claimable_windows :: "store \<Rightarrow> int \<Rightarrow> CollectionTaskClaimOptions \<Rightarrow> CollectionRunWindow list" where
  "claimable_windows db runID opts =
     take (nat (coMaxWindow opts)) (sort_key (\<lambda>w. (- wHourTS w, - wID w))
       (filter (\<lambda>w. wStatus w = StPending \<and> (case wNextRetryAt w of None \<Rightarrow> 0 | Some n \<Rightarrow> n) \<le> coNow opts)
         (windows_of db runID)))"

definition start_window :: "int \<Rightarrow> CollectionRunWindow \<Rightarrow> CollectionRunWindow" where
  "start_window now w = w\<lparr>wStatus := StRunning, wAttemptCount := wAttemptCount w + 1, wNextRetryAt := None,
     wStartedAt := Some now, wFinishedAt := None, wUpdatedAt := now\<rparr>"

definition start_run :: "CollectionTaskClaimOptions \<Rightarrow> CollectionRun \<Rightarrow> CollectionRun" where
  "start_run opts r = r\<lparr>rStatus := StRunning, rHeartbeatAt := Some (coNow opts),
     rStartedAt := (case rStartedAt r of None \<Rightarrow> Some (coNow opts) | Some t \<Rightarrow> Some t),
     rLastRequestID := coRequestID opts, rUpdatedAt := coNow opts,
     rRetryCount := (if CollectionTaskWindowed (rTaskType r) then rRetryCount r else rRetryCount r + 1)\<rparr>"

text \<open>
  When no window is claimable the code also postpones the run, but the same call returns an error and
  the transaction is rolled back, so the store does not change.
\<close>

definition claimCandidate ::
    "store \<Rightarrow> CollectionRun \<Rightarrow> CollectionTaskClaimOptions \<Rightarrow> (store \<times> CollectionTaskClaim) result" where
  "claimCandidate db candidate opts =
     and_then (resolveTaskScope db candidate) (\<lambda>scope.
     and_then (lockTaskScope db scope True) (\<lambda>_.
       case run_by_id db (rID candidate) of
         None \<Rightarrow> Inl ErrCollectionTaskUnavailable
       | Some run \<Rightarrow>
           if rStatus run \<noteq> StPending \<or> rWindowsInitializedAt run = None \<or> rNextAttemptAt run > coNow opts
              \<or> rTaskType run \<noteq> rTaskType candidate \<or> rTargetType run \<noteq> rTargetType candidate
              \<or> rTargetID run \<noteq> rTargetID candidate \<or> rLastRequestID run = coRequestID opts
             then Inl ErrCollectionTaskClaimLost
           else and_then (verifyTaskScopeLocked db run scope) (\<lambda>_.
                and_then (scopeHasRunningTask db run scope) (\<lambda>busy.
                  if busy then Inl ErrCollectionTaskUnavailable
                  else
                    let windowed = CollectionTaskWindowed (rTaskType run);
                        chosen = (if windowed then claimable_windows db (rID run) opts else []);
                        ids = map wID chosen
                    in if windowed \<and> rTotalWindows run \<le> 0 then Inl ErrCollectionTaskUnavailable
                       else if windowed \<and> chosen = [] then Inl ErrCollectionTaskUnavailable
                       else if rows_affected (\<lambda>w. wID w \<in> set ids \<and> wStatus w = StPending)
                                 (start_window (coNow opts)) (run_windows db) \<noteq> length ids
                         then Inl ErrCollectionTaskClaimLost
                       else
                         let db1 = update_windows (\<lambda>w. wID w \<in> set ids \<and> wStatus w = StPending)
                                     (start_window (coNow opts)) db;
                             picked = (\<lambda>r. rID r = rID run \<and> rStatus r = StPending
                                        \<and> rLastRequestID r = rLastRequestID run)
                         in if rows_affected picked (start_run opts) (runs db1) \<noteq> 1
                              then Inl ErrCollectionTaskClaimLost
                            else
                              let db2 = update_runs picked (start_run opts) db1;
                                  run' = start_run opts run;
                                  claim = \<lparr>clRun = run', clWindows = map (start_window (coNow opts)) chosen,
                                           clRequestID = coRequestID opts\<rparr>
                              in and_then (recalculateTaskBackfillStatuses db2 run' (coNow opts)) (\<lambda>db3.
                                   Inr (db3, claim))))))"

text \<open>The sort key of \<^verbatim>\<open>collectionTaskClaimOrder\<close>, which is also the page cursor.\<close>

type_synonym claim_key = "int \<times> int \<times> int \<times> int \<times> int \<times> int \<times> int"

definition newCollectionTaskClaimCursor :: "CollectionRun \<Rightarrow> claim_key" where
  "newCollectionTaskClaimCursor run =
     (- rPriority run,
      (if rPriority run = PriorityInitialBackfill then (case rStartTimestamp run of Some s \<Rightarrow> s | None \<Rightarrow> -1) else -1),
      (if rPriority run \<noteq> PriorityInitialBackfill
       then (case rEndTimestamp run of Some e \<Rightarrow> - e | None \<Rightarrow> 9223372036854775807) else 9223372036854775807),
      (case rStartTimestamp run of None \<Rightarrow> rCreatedAt run | Some _ \<Rightarrow> -1),
      rNextAttemptAt run, rCreatedAt run, rID run)"

definition claim_eligible :: "CollectionTaskClaimOptions \<Rightarrow> CollectionRun \<Rightarrow> bool" where
  "claim_eligible opts r \<longleftrightarrow> rStatus r = StPending \<and> rWindowsInitializedAt r \<noteq> None
     \<and> rNextAttemptAt r \<le> coNow opts \<and> rTaskType r \<in> set (coTaskTypes opts)
     \<and> (case coPriority opts of None \<Rightarrow> True | Some p \<Rightarrow> rPriority r = p)
     \<and> (case coExcludePriority opts of None \<Rightarrow> True | Some p \<Rightarrow> rPriority r \<noteq> p)"

definition claim_page ::
    "store \<Rightarrow> CollectionTaskClaimOptions \<Rightarrow> claim_key option \<Rightarrow> CollectionRun list" where
  "claim_page db opts cursor =
     take (nat (coScanLimit opts)) (sort_key newCollectionTaskClaimCursor
       (filter (\<lambda>r. claim_eligible opts r
          \<and> (case cursor of None \<Rightarrow> True | Some c \<Rightarrow> newCollectionTaskClaimCursor r > c)) (runs db)))"

fun try_candidates ::
    "store \<Rightarrow> CollectionTaskClaimOptions \<Rightarrow> CollectionRun list \<Rightarrow> (store \<times> CollectionTaskClaim) result option" where
  "try_candidates db opts [] = None"
| "try_candidates db opts (c # cs) =
     (case claimCandidate db c opts of
        Inr r \<Rightarrow> Some (Inr r)
      | Inl e \<Rightarrow> (if e = ErrCollectionTaskUnavailable \<or> e = ErrCollectionTaskClaimLost
                 then try_candidates db opts cs else Some (Inl e)))"

definition rows_after :: "store \<Rightarrow> CollectionTaskClaimOptions \<Rightarrow> claim_key option \<Rightarrow> nat" where
  "rows_after db opts cursor =
     length (filter (\<lambda>r. claim_eligible opts r
       \<and> (case cursor of None \<Rightarrow> True | Some c \<Rightarrow> newCollectionTaskClaimCursor r > c)) (runs db))"

lemma claim_page_last_after:
  assumes "claim_page db opts cursor \<noteq> []"
  shows "rows_after db opts (Some (newCollectionTaskClaimCursor (last (claim_page db opts cursor))))
    < rows_after db opts cursor"
proof -
  let ?k = newCollectionTaskClaimCursor
  let ?P = "\<lambda>r. claim_eligible opts r \<and> (case cursor of None \<Rightarrow> True | Some c \<Rightarrow> ?k r > c)"
  let ?l = "last (claim_page db opts cursor)"
  have "?l \<in> set (claim_page db opts cursor)" using assms by (rule last_in_set)
  then have l: "?l \<in> set (runs db)" "?P ?l"
    using set_take_subset unfolding claim_page_def by fastforce+
  let ?Q = "\<lambda>r. claim_eligible opts r \<and> ?k r > ?k ?l"
  have "?Q r \<Longrightarrow> ?P r" for r using l(2) by (auto split: option.splits)
  then have "filter ?Q (runs db) = filter ?Q (filter ?P (runs db))" by (auto intro: filter_cong)
  moreover have "length (filter ?Q (filter ?P (runs db))) < length (filter ?P (runs db))"
    using l by (intro length_filter_less [of ?l]) auto
  ultimately show ?thesis by (simp add: rows_after_def)
qed

function claim_loop ::
    "store \<Rightarrow> CollectionTaskClaimOptions \<Rightarrow> claim_key option \<Rightarrow> (store \<times> CollectionTaskClaim) result" where
  "claim_loop db opts cursor =
     (let candidates = claim_page db opts cursor
      in case try_candidates db opts candidates of
           Some r \<Rightarrow> r
         | None \<Rightarrow> (if int (length candidates) < coScanLimit opts \<or> candidates = []
                   then Inl ErrCollectionTaskUnavailable
                   else claim_loop db opts (Some (newCollectionTaskClaimCursor (last candidates)))))"
  by pat_completeness auto
termination
  by (relation "measure (\<lambda>(db, opts, cursor). rows_after db opts cursor)") (auto intro: claim_page_last_after)

declare claim_loop.simps [simp del]

definition normal_options :: "CollectionTaskClaimOptions \<Rightarrow> CollectionTaskClaimOptions" where
  "normal_options opts =
     (let maxWindow = (if coPriority opts = Some PriorityInitialBackfill then 2048 else 24)
      in opts\<lparr>coMaxWindow := (if coMaxWindow opts \<le> 0 \<or> coMaxWindow opts > maxWindow then maxWindow else coMaxWindow opts),
             coScanLimit := (if coScanLimit opts \<le> 0 \<or> coScanLimit opts > 256 then 64 else coScanLimit opts)\<rparr>)"

definition ClaimNext :: "store \<Rightarrow> CollectionTaskClaimOptions \<Rightarrow> (store \<times> CollectionTaskClaim) result" where
  "ClaimNext db opts =
     (if coNow opts \<le> 0 \<or> \<not> validCollectionRequestID (coRequestID opts) \<or> coTaskTypes opts = []
         \<or> \<not> list_all ValidCollectionTaskType (coTaskTypes opts) then Inl ErrCollectionRunContract
      else claim_loop db (normal_options opts) None)"

section \<open>Committing\<close>

definition outcome_valid :: "CollectionTaskWindowResult \<Rightarrow> bool" where
  "outcome_valid o' \<longleftrightarrow> wrWindowID o' > 0 \<and> wrAttemptCount o' > 0 \<and> wrFetchedRows o' \<ge> 0 \<and> wrWrittenRows o' \<ge> 0
     \<and> (if wrStatus o' = StPending then (case wrNextRetryAt o' of None \<Rightarrow> False | Some n \<Rightarrow> n > 0)
        else if wrStatus o' = StSuccess \<or> wrStatus o' = StUnavailable then True
        else if wrStatus o' = StFailed then wrErrorCode o' \<noteq> []
        else False)"

definition apply_outcome :: "int \<Rightarrow> CollectionTaskWindowResult \<Rightarrow> CollectionRunWindow \<Rightarrow> CollectionRunWindow" where
  "apply_outcome now o' w = w\<lparr>wStatus := wrStatus o', wNextRetryAt := wrNextRetryAt o',
     wFetchedRows := wrFetchedRows o', wWrittenRows := wrWrittenRows o', wErrorCode := wrErrorCode o',
     wErrorParams := wrErrorParams o', wErrorMessage := None, wUpdatedAt := now,
     wFinishedAt := (if is_terminal (wrStatus o') then Some now else None)\<rparr>"

definition held_window :: "int \<Rightarrow> CollectionTaskWindowResult \<Rightarrow> CollectionRunWindow \<Rightarrow> bool" where
  "held_window runID o' w \<longleftrightarrow> wID w = wrWindowID o' \<and> wRunID w = runID \<and> wStatus w = StRunning
     \<and> wAttemptCount w = wrAttemptCount o'"

fun commit_outcomes :: "store \<Rightarrow> int \<Rightarrow> int \<Rightarrow> CollectionTaskWindowResult list \<Rightarrow> store result" where
  "commit_outcomes db runID now [] = Inr db"
| "commit_outcomes db runID now (o' # os) =
     (if rows_affected (held_window runID o') (apply_outcome now o') (run_windows db) \<noteq> 1
        then Inl ErrCollectionTaskClaimLost
      else commit_outcomes (update_windows (held_window runID o') (apply_outcome now o') db) runID now os)"

definition commitWindowResults ::
    "int \<Rightarrow> store \<Rightarrow> CollectionRun \<Rightarrow> string \<Rightarrow> int \<Rightarrow> CollectionTaskWindowResult list \<Rightarrow> (store \<times> CollectionRun) result" where
  "commitWindowResults autoNow db run requestID now outcomes =
     (if \<not> list_all outcome_valid outcomes \<or> \<not> distinct (map wrWindowID outcomes) then Inl ErrCollectionRunContract
      else if length (filter (\<lambda>w. wID w \<in> wrWindowID ` set outcomes) (windows_of db (rID run))) \<noteq> length outcomes
        then Inl ErrCollectionTaskClaimLost
      else and_then (commit_outcomes db (rID run) now outcomes) (\<lambda>db1.
        let fetched = sum_list (map wrFetchedRows outcomes);
            written = sum_list (map wrWrittenRows outcomes);
            held = (\<lambda>r. rID r = rID run \<and> rStatus r = StRunning \<and> rLastRequestID r = requestID);
            add = (\<lambda>r. r\<lparr>rFetchedRows := rFetchedRows r + fetched, rWrittenRows := rWrittenRows r + written,
                     rLastRequestID := requestID, rUpdatedAt := autoNow\<rparr>)
        in if rows_affected held add (runs db1) \<noteq> 1 then Inl ErrCollectionTaskClaimLost
           else
             let db2 = update_runs held add db1;
                 run1 = run\<lparr>rFetchedRows := rFetchedRows run + fetched, rWrittenRows := rWrittenRows run + written\<rparr>
             in and_then (if rPriority run1 = PriorityInitialBackfill then recalculateInitialBackfillRun db2 run1 now
                          else recalculate_stored db2 run1 (windows_by_hour db2 (rID run1)) now None) (\<lambda>(db3, run2).
                  if rStatus run2 = StPending
                  then let yielded = (\<lambda>r. rID r = rID run2 \<and> rStatus r = StPending \<and> rLastRequestID r = requestID);
                           clear = (\<lambda>r. r\<lparr>rHeartbeatAt := None, rUpdatedAt := autoNow\<rparr>)
                       in if rows_affected yielded clear (runs db3) \<noteq> 1 then Inl ErrCollectionTaskClaimLost
                          else Inr (update_runs yielded clear db3, run2\<lparr>rHeartbeatAt := None\<rparr>)
                  else Inr (db3, run2))))"

record CollectionTaskCommitRequest =
  cqRunID :: int
  cqRequestID :: string
  cqNow :: int
  cqRunStatus :: string
  cqNextAttemptAt :: "int option"
  cqFetchedRows :: int
  cqWrittenRows :: int
  cqErrorCode :: string
  cqErrorParams :: string
  cqWindows :: "CollectionTaskWindowResult list"

definition non_window_columns :: "CollectionTaskCommitRequest \<Rightarrow> (CollectionRun \<Rightarrow> CollectionRun) result" where
  "non_window_columns request =
     (let base = (\<lambda>r. r\<lparr>rFetchedRows := rFetchedRows r + cqFetchedRows request,
            rWrittenRows := rWrittenRows r + cqWrittenRows request, rLastRequestID := cqRequestID request,
            rUpdatedAt := cqNow request\<rparr>)
      in if cqFetchedRows request < 0 \<or> cqWrittenRows request < 0 then Inl ErrCollectionRunContract
         else if cqRunStatus request = StSuccess then
           Inr (\<lambda>r. (base r)\<lparr>rStatus := StSuccess, rActiveKey := None, rHeartbeatAt := None,
                  rFinishedAt := Some (cqNow request), rErrorCode := [], rErrorParams := []\<rparr>)
         else if cqRunStatus request = StPending then
           (case cqNextAttemptAt request of
              None \<Rightarrow> Inl ErrCollectionRunContract
            | Some n \<Rightarrow> (if n \<le> 0 then Inl ErrCollectionRunContract
                else Inr (\<lambda>r. (base r)\<lparr>rStatus := StPending, rHeartbeatAt := None, rNextAttemptAt := n,
                       rErrorCode := cqErrorCode request, rErrorParams := cqErrorParams request\<rparr>)))
         else if cqRunStatus request = StFailed then
           (if cqErrorCode request = [] then Inl ErrCollectionRunContract
            else Inr (\<lambda>r. (base r)\<lparr>rStatus := StFailed, rActiveKey := None, rHeartbeatAt := None,
                   rFinishedAt := Some (cqNow request), rErrorCode := cqErrorCode request,
                   rErrorParams := cqErrorParams request\<rparr>))
         else Inl ErrCollectionRunContract)"

text \<open>The caller's copy of the run keeps its old error columns; the row gets the new ones.\<close>

definition commitNonWindowResult ::
    "store \<Rightarrow> CollectionRun \<Rightarrow> CollectionTaskCommitRequest \<Rightarrow> (store \<times> CollectionRun) result" where
  "commitNonWindowResult db run request =
     and_then (non_window_columns request) (\<lambda>f.
       let held = (\<lambda>r. rID r = rID run \<and> rStatus r = StRunning \<and> rLastRequestID r = cqRequestID request)
       in if rows_affected held f (runs db) \<noteq> 1 then Inl ErrCollectionTaskClaimLost
          else Inr (update_runs held f db,
                 (f run)\<lparr>rErrorCode := rErrorCode run, rErrorParams := rErrorParams run, rLastRequestID := rLastRequestID run\<rparr>))"

definition CommitClaim ::
    "int \<Rightarrow> store \<Rightarrow> CollectionTaskCommitRequest \<Rightarrow> (store \<times> CollectionRun) result" where
  "CommitClaim autoNow db request =
     (if cqRunID request \<le> 0 \<or> cqNow request \<le> 0 \<or> \<not> validCollectionRequestID (cqRequestID request)
        then Inl ErrCollectionRunContract
      else with_run db (cqRunID request) (\<lambda>run scope.
        if rStatus run \<noteq> StRunning \<or> rLastRequestID run \<noteq> cqRequestID request then Inl ErrCollectionTaskClaimLost
        else and_then (verifyTaskScopeLocked db run scope) (\<lambda>_.
             and_then
               (if CollectionTaskWindowed (rTaskType run)
                then (if cqRunStatus request \<noteq> [] \<or> cqWindows request = [] then Inl ErrCollectionRunContract
                      else and_then (commitWindowResults autoNow db run (cqRequestID request) (cqNow request) (cqWindows request))
                             (\<lambda>(db1, run1). and_then (finalizeLocalRebuildLifecycle db1 run1 (cqNow request)) (\<lambda>db2.
                               Inr (db2, run1))))
                else (if cqWindows request \<noteq> [] then Inl ErrCollectionRunContract
                      else commitNonWindowResult db run request))
               (\<lambda>(db', run'). and_then (recalculateTaskBackfillStatuses db' run' (cqNow request)) (\<lambda>db''.
                  Inr (db'', run'))))))"

type_synonym window_mutation =
  "Site \<Rightarrow> CollectionRun \<Rightarrow> CollectionRunWindow \<Rightarrow> store \<Rightarrow> (CollectionWindow list \<times> int \<times> int) result"

definition CompleteClaimedWindow ::
    "int \<Rightarrow> store \<Rightarrow> int \<Rightarrow> string \<Rightarrow> int \<Rightarrow> CollectionTaskWindowResult \<Rightarrow> window_mutation option
       \<Rightarrow> (store \<times> CollectionRun) result" where
  "CompleteClaimedWindow autoNow db runID requestID now outcome mutation =
     (if runID \<le> 0 \<or> now \<le> 0 \<or> \<not> validCollectionRequestID requestID \<or> wrWindowID outcome \<le> 0
        then Inl ErrCollectionRunContract
      else with_run db runID (\<lambda>run scope.
        if rStatus run \<noteq> StRunning \<or> rLastRequestID run \<noteq> requestID \<or> \<not> CollectionTaskWindowed (rTaskType run)
          then Inl ErrCollectionTaskClaimLost
        else and_then (verifyTaskScopeLocked db run scope) (\<lambda>_.
          case find (\<lambda>w. wID w = wrWindowID outcome) (windows_of db (rID run)) of
            None \<Rightarrow> Inl ErrCollectionTaskClaimLost
          | Some window \<Rightarrow>
              if wStatus window \<noteq> StRunning \<or> wAttemptCount window \<noteq> wrAttemptCount outcome
                then Inl ErrCollectionTaskClaimLost
              else
                and_then
                  (case mutation of
                     None \<Rightarrow> Inr (db, outcome)
                   | Some apply_mutation \<Rightarrow>
                       (if wSiteID window \<le> 0 \<or> wSiteID window \<notin> set (scSiteIDs scope) then Inl ErrCollectionRunContract
                        else and_then (found (site_by_id db (wSiteID window))) (\<lambda>site.
                             and_then (apply_mutation site run window db) (\<lambda>(facts, fetched, written).
                               Inr (db\<lparr>fact_windows := facts\<rparr>,
                                    outcome\<lparr>wrFetchedRows := fetched, wrWrittenRows := written\<rparr>)))))
                  (\<lambda>(db1, outcome1).
                and_then (commitWindowResults autoNow db1 run requestID now [outcome1]) (\<lambda>(db2, run2).
                and_then (finalizeLocalRebuildLifecycle db2 run2 now) (\<lambda>db3.
                and_then (recalculateTaskBackfillStatuses db3 run2 now) (\<lambda>db4.
                  Inr (db4, run2))))))))"

section \<open>Releasing, heartbeats and recovery\<close>

definition release_outcome :: "int \<Rightarrow> CollectionRunWindow \<Rightarrow> CollectionTaskWindowResult" where
  "release_outcome now w = \<lparr>wrWindowID = wID w, wrAttemptCount = wAttemptCount w, wrStatus = StPending,
     wrNextRetryAt = Some now, wrFetchedRows = 0, wrWrittenRows = 0, wrErrorCode = [], wrErrorParams = []\<rparr>"

definition ReleaseClaim :: "int \<Rightarrow> store \<Rightarrow> CollectionTaskClaim \<Rightarrow> int \<Rightarrow> (store \<times> CollectionRun) result" where
  "ReleaseClaim autoNow db claim now =
     (let request = \<lparr>cqRunID = rID (clRun claim), cqRequestID = clRequestID claim, cqNow = now, cqRunStatus = [],
            cqNextAttemptAt = None, cqFetchedRows = 0, cqWrittenRows = 0, cqErrorCode = [], cqErrorParams = [],
            cqWindows = []\<rparr>
      in if CollectionTaskWindowed (rTaskType (clRun claim))
         then (if clWindows claim = [] then Inl ErrCollectionRunContract
               else CommitClaim autoNow db (request\<lparr>cqWindows := map (release_outcome now) (clWindows claim)\<rparr>))
         else CommitClaim autoNow db (request\<lparr>cqRunStatus := StPending, cqNextAttemptAt := Some now\<rparr>))"

text \<open>
  A running window goes back to pending while it has attempts left and fails otherwise. \<open>yield_row\<close>
  is what the row gets, \<open>yield_copy\<close> what the caller's copy of the window becomes before the run is
  recalculated: the copy keeps the old \<^verbatim>\<open>error_params\<close>.
\<close>

definition yield_row :: "string \<Rightarrow> int \<Rightarrow> int \<Rightarrow> CollectionRunWindow \<Rightarrow> CollectionRunWindow" where
  "yield_row code budget now w =
     (if wAttemptCount w < budget
      then w\<lparr>wStatus := StPending, wNextRetryAt := Some now, wFinishedAt := None, wUpdatedAt := now\<rparr>
      else w\<lparr>wStatus := StFailed, wNextRetryAt := None, wFinishedAt := Some now, wErrorCode := code,
             wErrorParams := [], wUpdatedAt := now\<rparr>)"

definition yield_copy :: "string \<Rightarrow> int \<Rightarrow> int \<Rightarrow> CollectionRunWindow \<Rightarrow> CollectionRunWindow" where
  "yield_copy code budget now w =
     (if wStatus w \<noteq> StRunning then w
      else if wAttemptCount w < budget then w\<lparr>wStatus := StPending, wNextRetryAt := Some now\<rparr>
      else w\<lparr>wStatus := StFailed, wErrorCode := code, wFinishedAt := Some now\<rparr>)"

definition release_running ::
    "store \<Rightarrow> CollectionRun \<Rightarrow> string \<Rightarrow> int \<Rightarrow> CollectionTaskAttemptPolicy \<Rightarrow> (store \<times> nat) result" where
  "release_running db run requestID now policy =
     (let held = (\<lambda>r. rID r = rID run \<and> rStatus r = StRunning \<and> rLastRequestID r = requestID)
      in if rStatus run \<noteq> StRunning \<or> rLastRequestID run \<noteq> requestID then Inr (db, 0)
         else if \<not> CollectionTaskWindowed (rTaskType run) then
           (let f = (\<lambda>r. r\<lparr>rStatus := StPending, rHeartbeatAt := None, rNextAttemptAt := now, rUpdatedAt := now\<rparr>)
            in Inr (update_runs held f db, rows_affected held f (runs db)))
         else
           let budget = maxAttempts policy (rTaskType run);
               code = CollectionTaskExecutionFailedCode;
               mine = (\<lambda>w. wRunID w = rID run \<and> wStatus w = StRunning);
               released = length (filter mine (run_windows db));
               db1 = update_windows mine (yield_row code budget now) db;
               clear = (\<lambda>r. r\<lparr>rHeartbeatAt := None, rUpdatedAt := now\<rparr>)
           in if rows_affected mine (yield_row code budget now) (run_windows db) \<noteq> released
                then Inl ErrCollectionTaskClaimLost
              else if released = 0 then Inr (db1, 0)
              else if rows_affected held clear (runs db1) \<noteq> 1 then Inl ErrCollectionTaskClaimLost
              else
                let db2 = update_runs held clear db1;
                    run1 = clear run
                in and_then (if rPriority run1 = PriorityInitialBackfill then recalculateInitialBackfillRun db2 run1 now
                             else recalculate_stored db2 run1
                                    (map (yield_copy code budget now)
                                      (sort_key (\<lambda>w. (wSiteID w, wHourTS w, wID w)) (windows_of db (rID run)))) now None)
                     (\<lambda>(db3, run2). and_then (recalculateTaskBackfillStatuses db3 run2 now) (\<lambda>db4.
                        Inr (db4, released))))"

definition ReleaseOwnedRunning ::
    "store \<Rightarrow> int \<Rightarrow> string \<Rightarrow> int \<Rightarrow> CollectionTaskAttemptPolicy \<Rightarrow> (store \<times> nat) result" where
  "ReleaseOwnedRunning db runID requestID now policy =
     (if runID \<le> 0 \<or> \<not> validCollectionRequestID requestID \<or> now \<le> 0 then Inl ErrCollectionRunContract
      else with_run db runID (\<lambda>run scope. release_running db run requestID now policy))"

definition Heartbeat :: "store \<Rightarrow> int \<Rightarrow> string \<Rightarrow> int \<Rightarrow> store result" where
  "Heartbeat db runID requestID now =
     (if runID \<le> 0 \<or> \<not> validCollectionRequestID requestID \<or> now \<le> 0 then Inl ErrCollectionRunContract
      else with_run db runID (\<lambda>run scope.
        let held = (\<lambda>r. rID r = runID \<and> rStatus r = StRunning \<and> rLastRequestID r = requestID);
            beat = (\<lambda>r. r\<lparr>rHeartbeatAt := Some now, rUpdatedAt := now\<rparr>)
        in if rows_affected held beat (runs db) \<noteq> 1 then Inl ErrCollectionTaskClaimLost
           else Inr (update_runs held beat db)))"

abbreviation CollectionTaskLeaseLostCode :: string where "CollectionTaskLeaseLostCode \<equiv> ''WORKER_LEASE_LOST''"

definition recover_running ::
    "int \<Rightarrow> store \<Rightarrow> CollectionRun \<Rightarrow> int \<Rightarrow> int option \<Rightarrow> CollectionTaskAttemptPolicy \<Rightarrow> (store \<times> bool) result" where
  "recover_running autoNow db run now staleBefore policy =
     (if rStatus run \<noteq> StRunning
         \<or> (case (staleBefore, rHeartbeatAt run) of (Some s, Some h) \<Rightarrow> h \<ge> s | _ \<Rightarrow> False) then Inr (db, False)
      else
        let budget = maxAttempts policy (rTaskType run);
            code = CollectionTaskLeaseLostCode
        in and_then
             (if CollectionTaskWindowed (rTaskType run)
              then
                and_then (recalculate_stored
                    (update_windows (\<lambda>w. wRunID w = rID run \<and> wStatus w = StRunning) (yield_row code budget now) db) run
                    (map (yield_copy code budget now) (windows_by_hour db (rID run))) now None) (\<lambda>(db2, run1).
                  if rStatus run1 = StPending
                  then Inr (update_runs (\<lambda>r. rID r = rID run) (\<lambda>r. r\<lparr>rHeartbeatAt := None, rUpdatedAt := autoNow\<rparr>) db2,
                            run1\<lparr>rHeartbeatAt := None\<rparr>)
                  else Inr (db2, run1))
              else
                let f = (\<lambda>r. let r1 = r\<lparr>rHeartbeatAt := None, rUpdatedAt := now, rErrorCode := code\<rparr>
                      in if rRetryCount run < budget then r1\<lparr>rStatus := StPending, rNextAttemptAt := now\<rparr>
                         else r1\<lparr>rStatus := StFailed, rActiveKey := None, rFinishedAt := Some now\<rparr>)
                in Inr (update_runs (\<lambda>r. rID r = rID run \<and> rStatus r = StRunning) f db, f run))
             (\<lambda>(db', run'). and_then (recalculateTaskBackfillStatuses db' run' now) (\<lambda>db''. Inr (db'', True))))"

definition recoverRun ::
    "int \<Rightarrow> store \<Rightarrow> int \<Rightarrow> int \<Rightarrow> int option \<Rightarrow> CollectionTaskAttemptPolicy \<Rightarrow> (store \<times> bool) result" where
  "recoverRun autoNow db runID now staleBefore policy =
     (case run_by_id db runID of
        None \<Rightarrow> Inr (db, False)
      | Some _ \<Rightarrow> with_run db runID (\<lambda>run scope. recover_running autoNow db run now staleBefore policy))"

text \<open>
  \<^verbatim>\<open>RecoverRunning\<close> commits one transaction per run; an error stops the loop and keeps what was
  recovered before it.
\<close>

fun recover_ids ::
    "int \<Rightarrow> store \<Rightarrow> int list \<Rightarrow> int \<Rightarrow> int option \<Rightarrow> CollectionTaskAttemptPolicy \<Rightarrow> store \<times> int \<times> run_error option" where
  "recover_ids autoNow db [] now staleBefore policy = (db, 0, None)"
| "recover_ids autoNow db (i # is) now staleBefore policy =
     (case recoverRun autoNow db i now staleBefore policy of
        Inl e \<Rightarrow> (db, 0, Some e)
      | Inr (db', changed) \<Rightarrow>
          (let (db'', n, e) = recover_ids autoNow db' is now staleBefore policy
           in (db'', (if changed then n + 1 else n), e)))"

definition RecoverRunning ::
    "int \<Rightarrow> store \<Rightarrow> int \<Rightarrow> int option \<Rightarrow> CollectionTaskAttemptPolicy \<Rightarrow> store \<times> int \<times> run_error option" where
  "RecoverRunning autoNow db now staleBefore policy =
     (if now \<le> 0 then (db, 0, Some ErrCollectionRunContract)
      else recover_ids autoNow db
        (sort (map rID (filter (\<lambda>r. rStatus r = StRunning
           \<and> (case staleBefore of None \<Rightarrow> True
              | Some s \<Rightarrow> (case rHeartbeatAt r of None \<Rightarrow> True | Some h \<Rightarrow> h < s))) (runs db))))
        now staleBefore policy)"

end
