(* ===== verification/Run_Materialize.thy ===== *)
theory Run_Materialize
  imports Run_Claims
begin

text \<open>
  Creating the windows of a run (\<^verbatim>\<open>MaterializeRunWindows\<close> of \<^verbatim>\<open>model/collection_task.go\<close>): the expected
  windows are computed once, inserted in batches of one transaction each, and a last transaction
  checks the inserted rows against the expectation before the run becomes claimable. A failure leaves
  the batches already committed, and a later attempt starts over on top of them.
\<close>

type_synonym window_key = "int \<times> int"

definition PendingMaterializationRunIDs :: "store \<Rightarrow> int \<Rightarrow> int list" where
  "PendingMaterializationRunIDs db limit =
     take (nat (if limit \<le> 0 \<or> limit > 1000 then 100 else limit))
       (map rID (sort_key (\<lambda>r. (- rPriority r, rCreatedAt r, rID r))
          (filter (\<lambda>r. rStatus r = StPending \<and> rWindowsInitializedAt r = None) (runs db))))"

definition expectedTaskWindowKeys :: "store \<Rightarrow> CollectionRun \<Rightarrow> collectionTaskScope \<Rightarrow> window_key list result" where
  "expectedTaskWindowKeys db run scope =
     (case (rStartTimestamp run, rEndTimestamp run) of
        (Some start, Some end') \<Rightarrow>
          (if \<not> CollectionTaskWindowed (rTaskType run) then Inl ErrCollectionRunContract
           else if rTargetType run = ''site''
             then and_then (expectedSiteRunWindowHours db run) (\<lambda>hours.
                    Inr (map (\<lambda>h. (the (rSiteID run), h)) hours))
           else if rTargetType run = ''account'' \<or> rTargetType run = ''customer''
             then Inr (concat (map (\<lambda>siteID. map (\<lambda>h. (siteID, h)) (hours_between start end')) (scSiteIDs scope)))
           else Inl ErrCollectionRunContract)
      | _ \<Rightarrow> Inl ErrCollectionRunContract)"

definition lockMaterializationExpectation ::
    "store \<Rightarrow> CollectionRun \<Rightarrow> (CollectionRun \<times> window_key list) result" where
  "lockMaterializationExpectation db base =
     and_then (resolveTaskScope db base) (\<lambda>scope.
     and_then (lockTaskScope db scope False) (\<lambda>_.
     and_then (found (run_by_id db (rID base))) (\<lambda>run.
       if rStatus run \<noteq> StPending \<or> rWindowsInitializedAt run \<noteq> None \<or> rTaskType run \<noteq> rTaskType base
          \<or> rTargetType run \<noteq> rTargetType base \<or> rTargetID run \<noteq> rTargetID base \<or> rSiteID run \<noteq> rSiteID base
          \<or> rStartTimestamp run \<noteq> rStartTimestamp base \<or> rEndTimestamp run \<noteq> rEndTimestamp base
         then Inl ErrCollectionTaskClaimLost
       else and_then (verifyTaskScopeLocked db run scope) (\<lambda>_.
            and_then (expectedTaskWindowKeys db run scope) (\<lambda>expected. Inr (run, expected))))))"

definition loadMaterializationExpectation :: "store \<Rightarrow> int \<Rightarrow> (CollectionRun \<times> window_key list) result" where
  "loadMaterializationExpectation db runID =
     and_then (found (run_by_id db runID)) (lockMaterializationExpectation db)"

text \<open>One inserted row; a duplicate of the unique key (run, site, hour) is ignored.\<close>

definition new_window :: "int \<Rightarrow> int \<Rightarrow> int \<Rightarrow> window_key \<Rightarrow> CollectionRunWindow" where
  "new_window i runID now key = \<lparr>wID = i, wRunID = runID, wSiteID = fst key, wHourTS = snd key,
     wStatus = StPending, wAttemptCount = 0, wNextRetryAt = None, wFetchedRows = 0, wWrittenRows = 0,
     wErrorCode = [], wErrorParams = [], wErrorMessage = None, wStartedAt = None, wFinishedAt = None,
     wUpdatedAt = now\<rparr>"

definition window_key :: "CollectionRunWindow \<Rightarrow> window_key" where
  "window_key w = (wSiteID w, wHourTS w)"

definition insert_window :: "int \<Rightarrow> int \<Rightarrow> store \<Rightarrow> window_key \<Rightarrow> store" where
  "insert_window runID now db key =
     (if list_ex (\<lambda>w. wRunID w = runID \<and> window_key w = key) (run_windows db) then db
      else db\<lparr>run_windows := run_windows db @ [new_window (next_window_id db) runID now key],
              next_window_id := next_window_id db + 1\<rparr>)"

definition materialize_batch ::
    "store \<Rightarrow> CollectionRun \<Rightarrow> window_key list \<Rightarrow> window_key list \<Rightarrow> int \<Rightarrow> store result" where
  "materialize_batch db base expected chunk now =
     and_then (lockMaterializationExpectation db base) (\<lambda>(run, lockedExpected).
       if expected \<noteq> lockedExpected then Inl ErrCollectionRunContract
       else Inr (foldl (insert_window (rID run) now) db chunk))"

function batches :: "nat \<Rightarrow> 'a list \<Rightarrow> 'a list list" where
  "batches n xs = (if xs = [] \<or> n = 0 then [] else take n xs # batches n (drop n xs))"
  by pat_completeness auto
termination by (relation "measure (\<lambda>(n, xs). length xs)") auto

declare batches.simps [simp del]

definition windows_by_site :: "store \<Rightarrow> int \<Rightarrow> CollectionRunWindow list" where
  "windows_by_site db i = sort_key (\<lambda>w. (wSiteID w, wHourTS w, wID w)) (windows_of db i)"

definition materialize_finish ::
    "store \<Rightarrow> CollectionRun \<Rightarrow> window_key list \<Rightarrow> int \<Rightarrow> (store \<times> CollectionRun) result" where
  "materialize_finish db base expected now =
     and_then (lockMaterializationExpectation db base) (\<lambda>(run, lockedExpected).
       let windows = windows_by_site db (rID run);
           initialise = (\<lambda>r. r\<lparr>rTotalWindows := int (length expected), rWindowsInitializedAt := Some now, rUpdatedAt := now\<rparr>);
           fresh = (\<lambda>r. rID r = rID run \<and> rStatus r = StPending \<and> rWindowsInitializedAt r = None)
       in if expected \<noteq> lockedExpected then Inl ErrCollectionRunContract
          else if map window_key windows \<noteq> expected \<or> \<not> list_all (\<lambda>w. wStatus w = StPending) windows
            then Inl ErrCollectionRunContract
          else if rows_affected fresh initialise (runs db) \<noteq> 1 then Inl ErrCollectionTaskClaimLost
          else
            and_then (recalculate_stored (update_runs fresh initialise db) (initialise run) windows now None) (\<lambda>(db1, run1).
            and_then (finalizeLocalRebuildLifecycle db1 run1 now) (\<lambda>db2.
            and_then (recalculateTaskBackfillStatuses db2 run1 now) (\<lambda>db3. Inr (db3, run1)))))"

fun materialize_batches ::
    "store \<Rightarrow> CollectionRun \<Rightarrow> window_key list \<Rightarrow> window_key list list \<Rightarrow> int \<Rightarrow> store \<times> run_error option" where
  "materialize_batches db base expected [] now = (db, None)"
| "materialize_batches db base expected (chunk # chunks) now =
     (case materialize_batch db base expected chunk now of
        Inl e \<Rightarrow> (db, Some e)
      | Inr db' \<Rightarrow> materialize_batches db' base expected chunks now)"

definition MaterializeRunWindows :: "store \<Rightarrow> int \<Rightarrow> int \<Rightarrow> int \<Rightarrow> store \<times> CollectionRun result" where
  "MaterializeRunWindows db runID now batchSize =
     (if runID \<le> 0 \<or> now \<le> 0 then (db, Inl ErrCollectionRunContract)
      else case loadMaterializationExpectation db runID of
             Inl e \<Rightarrow> (db, Inl e)
           | Inr (base, expected) \<Rightarrow>
               let size = nat (if batchSize \<le> 0 \<or> batchSize > 1000 then 1000 else batchSize)
               in case materialize_batches db base expected (batches size expected) now of
                    (db', Some e) \<Rightarrow> (db', Inl e)
                  | (db', None) \<Rightarrow>
                      (case materialize_finish db' base expected now of
                         Inl e \<Rightarrow> (db', Inl e)
                       | Inr (db'', run) \<Rightarrow> (db'', Inr run)))"

end
