(* ===== verification/Site_Fence.thy ===== *)
theory Site_Fence
  imports Run_Claims
begin

text \<open>
  The configuration fence of a site (\<^verbatim>\<open>BumpSiteFence\<close> of \<^verbatim>\<open>model/site_fence.go\<close>): every active run that
  could still write for the site is failed with \<^verbatim>\<open>SITE_CONFIG_CHANGED\<close>, the backfill statuses that
  depended on those runs are recomputed and the configuration version is increased, in one
  transaction. The plan is built twice around the row locks; in a serial model both are equal, so the
  second is the same expression. The error parameters are the JSON document the code marshals.
\<close>

record siteFencePlan =
  plRuns :: "CollectionRun list"
  plAccountRefs :: "(int \<times> int \<times> int) list"
  plCustomerIDs :: "int list"

definition fence_candidate :: "store \<Rightarrow> int \<Rightarrow> CollectionRun \<Rightarrow> bool" where
  "fence_candidate db siteID r \<longleftrightarrow> is_active (rStatus r)
     \<and> (rSiteID r = Some siteID \<or> (rTargetType r = ''site'' \<and> rTargetID r = siteID)
        \<or> list_ex (\<lambda>w. wRunID w = rID r \<and> wSiteID w = siteID) (run_windows db)
        \<or> (rTargetType r = ''account'' \<and> rTaskType r = TaskTypeAccountRebuild
            \<and> list_ex (\<lambda>a. aID a = rTargetID r \<and> aSiteID a = siteID) (accounts db))
        \<or> (rTargetType r = ''customer'' \<and> rTaskType r = TaskTypeCustomerRebuild
            \<and> list_ex (\<lambda>a. aCustomerID a = rTargetID r \<and> aSiteID a = siteID) (accounts db)))"

text \<open>The loop over the planned runs: account targets and customer targets, or a contract error.\<close>

fun fence_targets :: "int \<Rightarrow> CollectionRun list \<Rightarrow> int list \<Rightarrow> int list \<Rightarrow> (int list \<times> int list) result" where
  "fence_targets siteID [] accountIDs customerIDs = Inr (accountIDs, customerIDs)"
| "fence_targets siteID (r # rs) accountIDs customerIDs =
     (if rTargetType r = ''site'' then
        (if rTargetID r \<noteq> siteID then Inl ErrCollectionRunContract else fence_targets siteID rs accountIDs customerIDs)
      else if rTargetType r = ''account'' then
        (if rTaskType r \<noteq> TaskTypeAccountRebuild then Inl ErrCollectionRunContract
         else fence_targets siteID rs (appendUniqueSortedID accountIDs (rTargetID r)) customerIDs)
      else if rTargetType r = ''customer'' then
        (if rTaskType r \<noteq> TaskTypeCustomerRebuild then Inl ErrCollectionRunContract
         else fence_targets siteID rs accountIDs (appendUniqueSortedID customerIDs (rTargetID r)))
      else Inl ErrCollectionRunContract)"

definition fence_accounts :: "store \<Rightarrow> int \<Rightarrow> int list \<Rightarrow> int list \<Rightarrow> (int \<times> int \<times> int) list" where
  "fence_accounts db siteID accountIDs customerIDs =
     map account_ref (sort_key aID (filter (\<lambda>a. aID a \<in> set accountIDs
       \<or> (aCustomerID a \<in> set customerIDs \<and> aSiteID a = siteID)) (accounts db)))"

definition buildSiteFencePlan :: "store \<Rightarrow> int \<Rightarrow> siteFencePlan result" where
  "buildSiteFencePlan db siteID =
     (if siteID \<le> 0 then Inl ErrCollectionRunContract
      else
        let planned = sort_key rID (filter (fence_candidate db siteID) (runs db))
        in if planned = [] then Inr \<lparr>plRuns = [], plAccountRefs = [], plCustomerIDs = []\<rparr>
           else and_then (fence_targets siteID planned [] []) (\<lambda>(accountIDs, customerIDs).
             if accountIDs = [] \<and> customerIDs = []
             then Inr \<lparr>plRuns = planned, plAccountRefs = [], plCustomerIDs = customerIDs\<rparr>
             else
               let refs = fence_accounts db siteID accountIDs customerIDs
               in if \<not> list_all (\<lambda>(i, s, c). s = siteID) refs \<or> \<not> set accountIDs \<subseteq> fst ` set refs
                    then Inl ErrCollectionRunContract
                  else Inr \<lparr>plRuns = planned, plAccountRefs = refs,
                            plCustomerIDs = foldl (\<lambda>ids (i, s, c). appendUniqueSortedID ids c) customerIDs refs\<rparr>))"

definition lockSiteFenceCustomers :: "store \<Rightarrow> int list \<Rightarrow> unit result" where
  "lockSiteFenceCustomers db customerIDs =
     (if customerIDs \<noteq> [] \<and> sort (map cID (filter (\<lambda>c. cID c \<in> set customerIDs) (customers db))) \<noteq> customerIDs
      then Inl ErrCollectionRunContract else Inr ())"

definition siteFenceAccountRefs :: "store \<Rightarrow> int list \<Rightarrow> (int \<times> int \<times> int) list" where
  "siteFenceAccountRefs db accountIDs =
     map account_ref (sort_key aID (filter (\<lambda>a. aID a \<in> set accountIDs) (accounts db)))"

definition lockSiteFenceRuns :: "store \<Rightarrow> int list \<Rightarrow> CollectionRun list" where
  "lockSiteFenceRuns db runIDs =
     sort_key rID (filter (\<lambda>r. rID r \<in> set runIDs \<and> is_active (rStatus r)) (runs db))"

abbreviation CodeSiteConfigChanged :: string where "CodeSiteConfigChanged \<equiv> ''SITE_CONFIG_CHANGED''"

text \<open>\<^verbatim>\<open>json.Marshal\<close> of a map writes its keys in increasing order.\<close>

definition json_string :: "string \<Rightarrow> string" where
  "json_string s = [CHR 0x22] @ s @ [CHR 0x22]"

definition fence_params :: "int \<Rightarrow> int \<Rightarrow> int \<Rightarrow> string" where
  "fence_params siteID expectedVersion actualVersion =
     ''{'' @ json_string ''actual_config_version'' @ '':'' @ FormatInt actualVersion @ '',''
       @ json_string ''expected_config_version'' @ '':'' @ FormatInt expectedVersion @ '',''
       @ json_string ''site_id'' @ '':'' @ json_string (FormatInt siteID) @ ''}''"

fun fail_runs :: "int \<Rightarrow> int \<Rightarrow> store \<Rightarrow> (CollectionRun \<times> CollectionRunWindow list) list \<Rightarrow> int \<Rightarrow> store result" where
  "fail_runs siteID newVersion db [] now = Inr db"
| "fail_runs siteID newVersion db ((run, windows) # rest) now =
     and_then (FailLockedCollectionRun db run windows
         (CodeSiteConfigChanged, fence_params siteID (rSiteConfigVersion run) newVersion) now) (\<lambda>(db', _).
       fail_runs siteID newVersion db' rest now)"

text \<open>\<open>siteID\<close> and \<open>version\<close> are the identifier and version of the caller's copy of the site.\<close>

definition BumpSiteFence :: "store \<Rightarrow> int \<Rightarrow> int \<Rightarrow> int \<Rightarrow> store result" where
  "BumpSiteFence db siteID version now =
     (if siteID \<le> 0 \<or> version \<le> 0 \<or> now \<le> 0 then Inl ErrInvalidSiteFenceTarget
      else
        and_then (buildSiteFencePlan db siteID) (\<lambda>plan.
        and_then (found (site_by_id db siteID)) (\<lambda>site.
          if sConfigVersion site \<noteq> version then Inl ErrSiteRunConfigChanged
          else
            and_then (lockSiteFenceCustomers db (plCustomerIDs plan)) (\<lambda>_.
              let locked = lockSiteFenceRuns db (map rID (plRuns plan))
              in if plAccountRefs plan \<noteq> []
                    \<and> siteFenceAccountRefs db (map fst (plAccountRefs plan)) \<noteq> plAccountRefs plan
                   then Inl ErrSiteRunConfigChanged
                 else if map rID locked \<noteq> map rID (plRuns plan) then Inl ErrSiteRunConfigChanged
                 else
                   and_then (fail_runs siteID (version + 1) db
                       (map (\<lambda>r. (r, windows_by_hour db (rID r))) locked) now) (\<lambda>db1.
                   and_then (recalculateSiteFenceBackfillStatuses db1 (map fst (plAccountRefs plan)) (plCustomerIDs plan) now) (\<lambda>db2.
                     Inr (db2\<lparr>sites := update_where (\<lambda>s. sID s = siteID)
                       (\<lambda>s. s\<lparr>sConfigVersion := version + 1, sUpdatedAt := now\<rparr>) (sites db2)\<rparr>)))))))"

end
