(* ===== verification/Claim_Invariant.thy ===== *)
theory Claim_Invariant
  imports Run_Materialize Site_Fence
begin

text \<open>
  The invariant of claimed work. Every method of the claim protocol changes one run and the windows
  of that run; \<open>set_run\<close> and \<open>set_windows\<close> express such a change, and one lemma turns the local
  obligation on the changed run into the invariant of the store.
\<close>

section \<open>Changing one run\<close>

definition set_run :: "int \<Rightarrow> CollectionRun \<Rightarrow> store \<Rightarrow> store" where
  "set_run i r db = update_runs (\<lambda>q. rID q = i) (\<lambda>_. r) db"

definition set_windows :: "int \<Rightarrow> (CollectionRunWindow \<Rightarrow> CollectionRunWindow) \<Rightarrow> store \<Rightarrow> store" where
  "set_windows i f db = update_windows (\<lambda>w. wRunID w = i) f db"

lemma set_run_simps [simp]:
  "run_windows (set_run i r db) = run_windows db" "sites (set_run i r db) = sites db"
  "next_run_id (set_run i r db) = next_run_id db" "next_window_id (set_run i r db) = next_window_id db" "windows_of (set_run i r db) j = windows_of db j"
  "windows_by_hour (set_run i r db) j = windows_by_hour db j" "fact_windows (set_run i r db) = fact_windows db"
  by (simp_all add: set_run_def update_runs_def windows_of_def windows_by_hour_def)

lemma set_windows_simps [simp]:
  "runs (set_windows i f db) = runs db" "next_run_id (set_windows i f db) = next_run_id db"
  "next_window_id (set_windows i f db) = next_window_id db"
  "run_by_id (set_windows i f db) j = run_by_id db j" "fact_windows (set_windows i f db) = fact_windows db"
  by (simp_all add: set_windows_def update_windows_def run_by_id_def)

lemma set_run_twice [simp]: "rID b = i \<Longrightarrow> set_run i a (set_run i b db) = set_run i a db"
  by (simp add: set_run_def update_runs_def update_where_def)

lemma set_run_windows_commute: "set_run i r (set_windows j f db) = set_windows j f (set_run i r db)"
  by (simp add: set_run_def set_windows_def update_runs_def update_windows_def)

lemma ids_set_run: "rID r = i \<Longrightarrow> map rID (runs (set_run i r db)) = map rID (runs db)"
  by (simp add: set_run_def update_runs_def update_where_def)

lemma run_ids_set_run [simp]: "rID r = i \<Longrightarrow> run_ids_ok (set_run i r db) = run_ids_ok db"
proof -
  assume r: "rID r = i"
  have "(\<forall>q \<in> set (runs (set_run i r db)). rID q < n) \<longleftrightarrow> (\<forall>q \<in> set (runs db). rID q < n)" for n
    using arg_cong [OF ids_set_run [OF r], of "\<lambda>xs. \<forall>x \<in> set xs. x < n" db] by simp
  then show ?thesis using r by (simp add: run_ids_ok_def ids_set_run)
qed

lemma run_by_id_set_run [simp]:
  assumes "rID r = i" "run_by_id db i = Some q"
  shows "run_by_id (set_run i r db) i = Some r"
proof -
  have "find (\<lambda>x. rID x = i) (update_where (\<lambda>x. rID x = i) (\<lambda>_. r) xs) = Some r"
    if "find (\<lambda>x. rID x = i) xs = Some q" for xs
    using that assms(1) by (induction xs) (auto split: if_splits)
  then show ?thesis using assms(2) by (simp add: run_by_id_def set_run_def update_runs_def)
qed

lemma set_runs_set_run:
  "rID r = i \<Longrightarrow> run_by_id db i \<noteq> None \<Longrightarrow>
    set (runs (set_run i r db)) = insert r {q \<in> set (runs db). rID q \<noteq> i}"
  by (auto simp: set_run_def update_runs_def set_update_where run_by_id_def find_None_iff)

text \<open>A guarded update that can only hit run \<open>i\<close>, and does, replaces that run.\<close>

lemma update_runs_set_run:
  assumes "run_ids_ok db" "run_by_id db i = Some r" "P r" "\<And>q. P q \<Longrightarrow> rID q = i"
  shows "update_runs P f db = set_run i (f r) db"
proof -
  have "q = r" if "q \<in> set (runs db)" "rID q = i" for q
    using assms(1,2) that run_by_id_unique [of db i] by (simp add: run_ids_ok_def) (metis option.inject)
  then have "update_where P f (runs db) = update_where (\<lambda>q. rID q = i) (\<lambda>_. f r) (runs db)"
    using assms(3,4) by (auto simp: update_where_def)
  then show ?thesis by (simp add: set_run_def update_runs_def)
qed

lemma write_run_set_run:
  "run_ids_ok db \<Longrightarrow> run_by_id db i = Some r \<Longrightarrow> write_run i f db = set_run i (f r) db"
  unfolding write_run_def by (rule update_runs_set_run) (auto dest: run_by_id_Some)

lemma update_windows_set_windows:
  assumes "\<And>w. w \<in> set (run_windows db) \<Longrightarrow> P w \<Longrightarrow> wRunID w = i"
  shows "update_windows P f db = set_windows i (\<lambda>w. if P w then f w else w) db"
  using assms by (auto simp: set_windows_def update_windows_def update_where_def)

lemma set_windows_twice:
  "(\<And>w. wRunID (f w) = wRunID w) \<Longrightarrow> set_windows i g (set_windows i f db) = set_windows i (g \<circ> f) db"
  by (auto simp: set_windows_def update_windows_def update_where_def)

lemma windows_of_set_windows:
  assumes "\<And>w. wRunID (f w) = wRunID w"
  shows "windows_of (set_windows i f db) j = (if j = i then map f (windows_of db i) else windows_of db j)"
proof -
  have "filter (\<lambda>w. wRunID w = j) (update_where (\<lambda>w. wRunID w = i) f ws)
      = (if j = i then map f (filter (\<lambda>w. wRunID w = i) ws) else filter (\<lambda>w. wRunID w = j) ws)" for ws
    using assms by (induction ws) auto
  then show ?thesis by (simp add: windows_of_def set_windows_def update_windows_def)
qed

section \<open>The invariant\<close>

text \<open>What one run row and its windows \<open>ws\<close> satisfy together.\<close>

definition run_ok :: "CollectionRun \<Rightarrow> CollectionRunWindow list \<Rightarrow> bool" where
  "run_ok r ws \<longleftrightarrow> rStatus r \<in> {StPending, StRunning, StSuccess, StFailed}
     \<and> (is_active (rStatus r) \<longleftrightarrow> rActiveKey r \<noteq> None)
     \<and> (rWindowsInitializedAt r \<noteq> None \<and> CollectionTaskWindowed (rTaskType r) \<longrightarrow> rTotalWindows r = int (length ws))
     \<and> (\<not> CollectionTaskWindowed (rTaskType r) \<longrightarrow> ws = [])
     \<and> (rStatus r = StRunning \<longrightarrow> rWindowsInitializedAt r \<noteq> None)
     \<and> (\<forall>w \<in> set ws. known_status (wStatus w))
     \<and> (rStatus r \<noteq> StRunning \<longrightarrow> (\<forall>w \<in> set ws. wStatus w \<noteq> StRunning))
     \<and> (\<not> is_active (rStatus r) \<longrightarrow> (\<forall>w \<in> set ws. \<not> is_active (wStatus w)))"

definition same_slot :: "CollectionRun \<Rightarrow> CollectionRun \<Rightarrow> bool" where
  "same_slot r q \<longleftrightarrow> rTargetType r = ''site'' \<and> rTargetType q = ''site'' \<and> rSiteID r = rSiteID q
     \<and> rSiteID r \<noteq> None \<and> rTaskType r = rTaskType q"

definition same_key :: "CollectionRun \<Rightarrow> CollectionRun \<Rightarrow> bool" where
  "same_key r q \<longleftrightarrow> rActiveKey r \<noteq> None \<and> rActiveKey r = rActiveKey q"

definition both_running :: "CollectionRun \<Rightarrow> CollectionRun \<Rightarrow> bool" where
  "both_running r q \<longleftrightarrow> rStatus r = StRunning \<and> rStatus q = StRunning \<and> same_slot r q"

text \<open>No two different rows of a table are related by \<open>R\<close>.\<close>

definition exclusive :: "(CollectionRun \<Rightarrow> CollectionRun \<Rightarrow> bool) \<Rightarrow> CollectionRun set \<Rightarrow> bool" where
  "exclusive R S \<longleftrightarrow> (\<forall>a \<in> S. \<forall>b \<in> S. R a b \<longrightarrow> rID a = rID b)"

definition claims_ok :: "store \<Rightarrow> bool" where
  "claims_ok db \<longleftrightarrow> run_ids_ok db \<and> distinct (map wID (run_windows db))
     \<and> (\<forall>w \<in> set (run_windows db). wID w < next_window_id db \<and> wRunID w \<in> rID ` set (runs db))
     \<and> (\<forall>r \<in> set (runs db). run_ok r (windows_of db (rID r)))
     \<and> exclusive same_key (set (runs db)) \<and> exclusive both_running (set (runs db))"

lemma symp_same_key: "symp same_key"
  unfolding same_key_def by (rule sympI) metis

lemma symp_both_running: "symp both_running"
  unfolding both_running_def same_slot_def by (rule sympI) metis

lemma exclusive_change:
  assumes "exclusive R S" "symp R" "\<And>q. q \<in> S \<Longrightarrow> rID q \<noteq> rID r' \<Longrightarrow> \<not> R r' q"
  shows "exclusive R (insert r' {q \<in> S. rID q \<noteq> rID r'})"
  using assms unfolding exclusive_def by (auto dest: sympD)

text \<open>The obligation on the changed run.\<close>

lemma claims_ok_change:
  assumes ok: "claims_ok db" and r: "run_by_id db i = Some r" and r': "rID r' = i"
    and f: "\<And>w. wRunID (f w) = wRunID w" "\<And>w. wID (f w) = wID w"
    and loc: "run_ok r' (map f (windows_of db i))"
    and key: "rActiveKey r' = None \<or> rActiveKey r' = rActiveKey r"
    and slot: "rStatus r' = StRunning \<Longrightarrow> rStatus r = StRunning \<or>
      (\<forall>q \<in> set (runs db). rID q \<noteq> i \<longrightarrow> \<not> both_running r' q)"
    and same: "rTargetType r' = rTargetType r" "rSiteID r' = rSiteID r" "rTaskType r' = rTaskType r"
  shows "claims_ok (set_windows i f (set_run i r' db))"
proof -
  let ?db = "set_windows i f (set_run i r' db)"
  have mem: "r \<in> set (runs db)" "rID r = i" using run_by_id_Some [OF r] by auto
  have runs': "set (runs ?db) = insert r' {q \<in> set (runs db). rID q \<noteq> rID r'}"
    using set_runs_set_run [OF r', of db] r r' by simp
  have ids: "run_ids_ok ?db"
    using ok run_ids_set_run [OF r', of db] by (simp add: claims_ok_def run_ids_ok_def)
  have wids: "distinct (map wID (run_windows ?db))"
    using ok f(2) by (simp add: claims_ok_def set_windows_def update_windows_def map_update_where)
  have "rID ` set (runs ?db) = rID ` set (runs db)"
    using arg_cong [OF ids_set_run [OF r', of db], of set] by simp
  then have refs: "\<forall>w \<in> set (run_windows ?db). wID w < next_window_id ?db \<and> wRunID w \<in> rID ` set (runs ?db)"
    using ok f by (auto simp: claims_ok_def set_windows_def update_windows_def set_update_where)
  have runs_ok: "\<forall>q \<in> set (runs ?db). run_ok q (windows_of ?db (rID q))"
    using ok loc r' unfolding runs' by (auto simp: windows_of_set_windows [OF f(1)] claims_ok_def)
  have old: "exclusive same_key (set (runs db))" "exclusive both_running (set (runs db))"
    using ok by (simp_all add: claims_ok_def)
  have "\<not> same_key r' q" if "q \<in> set (runs db)" "rID q \<noteq> rID r'" for q
    using old(1) that mem r' key unfolding exclusive_def same_key_def by metis
  then have keys: "exclusive same_key (set (runs ?db))"
    unfolding runs' by (intro exclusive_change [OF old(1) symp_same_key])
  have "both_running r' q \<Longrightarrow> rStatus r = StRunning \<Longrightarrow> both_running r q" for q
    using same unfolding both_running_def same_slot_def by metis
  then have "\<not> both_running r' q" if "q \<in> set (runs db)" "rID q \<noteq> rID r'" for q
    using old(2) that mem r' slot unfolding exclusive_def by (metis both_running_def)
  then have slots: "exclusive both_running (set (runs ?db))"
    unfolding runs' by (intro exclusive_change [OF old(2) symp_both_running])
  from ids wids refs runs_ok keys slots show ?thesis unfolding claims_ok_def by blast
qed

section \<open>Recalculated runs\<close>

definition windows_status :: "string set \<Rightarrow> string" where
  "windows_status S =
     (if \<forall>s \<in> S. \<not> is_active s then (if StFailed \<in> S then StFailed else StSuccess)
      else if StRunning \<in> S then StRunning else StPending)"

definition run_identity where
  "run_identity r = (rID r, rSiteID r, rTaskType r, rTargetType r, rWindowsInitializedAt r, rTotalWindows r)"

definition settled :: "CollectionRun \<Rightarrow> CollectionRun \<Rightarrow> string set \<Rightarrow> bool" where
  "settled r r' S \<longleftrightarrow> run_identity r' = run_identity r \<and> rStatus r' = windows_status S
     \<and> rActiveKey r' = (if \<forall>s \<in> S. \<not> is_active s then None else rActiveKey r)"

lemma active_statuses [simp]:
  "is_active StPending" "is_active StRunning" "\<not> is_active StSuccess" "\<not> is_active StFailed" "\<not> is_active StUnavailable"
  by (simp_all add: is_active_def)

lemma windows_status_cases:
  obtains (terminal) "\<forall>s \<in> S. \<not> is_active s" "windows_status S \<in> {StFailed, StSuccess}"
  | (running) "\<not> (\<forall>s \<in> S. \<not> is_active s)" "windows_status S = StRunning"
  | (pending) "\<not> (\<forall>s \<in> S. \<not> is_active s)" "StRunning \<notin> S" "windows_status S = StPending"
proof (cases "\<forall>s \<in> S. \<not> is_active s")
  case True
  then show thesis using terminal by (simp add: windows_status_def)
next
  case False
  then show thesis using running pending unfolding windows_status_def by metis
qed

lemma some_status: "(\<exists>w \<in> set ws. wStatus w = st) \<longleftrightarrow> st \<in> wStatus ` set ws"
  by auto

lemma count_pos: "count_status st ws > 0 \<longleftrightarrow> st \<in> wStatus ` set ws"
  using count_zero [of st ws] count_nonneg [of st ws] some_status [of ws st] by (metis less_le)

lemma recalc_settled:
  assumes "RecalculateLockedCollectionRun run ws now None = Inr f" "is_active (rStatus run)"
  shows "settled r (f r) (wStatus ` set ws)"
proof -
  have "run_identity (f r) = run_identity r"
    using assms by (cases rule: recalc_cases)
      (auto simp: run_identity_def terminal_columns_def Let_def split: option.splits)
  then show ?thesis
    using recalc_columns_eq [OF assms, of r] unfolding some_status count_pos settled_def windows_status_def progress_columns_def
    by (simp split: if_split_asm)
qed

lemma initial_settled:
  assumes "initial_backfill_columns run ws now = Inr f" "rTotalWindows run = int (length ws)"
  shows "settled r (f r) (wStatus ` set ws)"
proof -
  from assms(1) have k: "list_all (\<lambda>w. known_status (wStatus w)) ws"
    by (auto simp: initial_backfill_columns_def split: if_split_asm)
  define S where "S = wStatus ` set ws"
  have tm: "count_status StSuccess ws + count_status StFailed ws + count_status StUnavailable ws = rTotalWindows run
      \<longleftrightarrow> (\<forall>s \<in> S. \<not> is_active s)"
    using counts_terminal [OF k] assms(2) by (simp add: S_def)
  have rn: "count_status StRunning ws = 0 \<longleftrightarrow> StRunning \<notin> S" using count_pos [of StRunning ws] count_nonneg [of StRunning ws]
    by (metis S_def less_irrefl less_le)
  have act: "\<not> (\<forall>s \<in> S. \<not> is_active s) \<Longrightarrow> StRunning \<notin> S \<Longrightarrow> StPending \<in> S" by (auto simp: is_active_def)
  note f = assms(1) [unfolded initial_backfill_columns_def Let_def tm rn count_pos S_def [symmetric]]
  show ?thesis
  proof (cases "\<forall>s \<in> S. \<not> is_active s")
    case True
    then have "StPending \<notin> S" using active_statuses(1) by blast
    with True f k show ?thesis unfolding settled_def windows_status_def S_def [symmetric]
      by (auto simp: run_identity_def split: if_split_asm)
  next
    case False
    then have "(StRunning \<notin> S \<and> StPending \<in> S) = (StRunning \<notin> S)" using act by blast
    with False f k show ?thesis unfolding settled_def windows_status_def S_def [symmetric]
      by (auto simp: run_identity_def split: if_split_asm option.splits)
  qed
qed

lemma run_ok_settled:
  assumes "settled r r' (wStatus ` set ws)" "rActiveKey r \<noteq> None" "rWindowsInitializedAt r \<noteq> None" "rTotalWindows r = int (length ws)"
    and "CollectionTaskWindowed (rTaskType r)" "\<forall>w \<in> set ws. known_status (wStatus w)"
  shows "run_ok r' ws"
proof -
  define S where "S = wStatus ` set ws"
  note a = assms [unfolded settled_def run_identity_def S_def [symmetric] prod.inject]
  have known: "\<forall>w \<in> set ws. known_status (wStatus w)" by (rule assms(6))
  have no_running: "StRunning \<notin> S" if "\<forall>s \<in> S. \<not> is_active s" using that active_statuses(2) by blast
  show ?thesis
  proof (cases S rule: windows_status_cases)
    case terminal
    then have "\<forall>w \<in> set ws. \<not> is_active (wStatus w)" "\<forall>w \<in> set ws. wStatus w \<noteq> StRunning"
      using no_running by (auto simp: S_def)
    with terminal a known show ?thesis unfolding run_ok_def by auto
  next
    case running
    with a known show ?thesis unfolding run_ok_def by simp
  next
    case pending
    then have "\<forall>w \<in> set ws. wStatus w \<noteq> StRunning" unfolding S_def by (metis imageI)
    with pending a known show ?thesis unfolding run_ok_def by auto
  qed
qed

lemma claims_ok_cong:
  assumes "runs db' = runs db" "run_windows db' = run_windows db" "next_run_id db' = next_run_id db"
    "next_window_id db' = next_window_id db"
  shows "claims_ok db' = claims_ok db"
  using assms by (simp add: claims_ok_def run_ids_ok_def windows_of_def)

lemma claims_ok_same_runs: "same_runs db db' \<Longrightarrow> claims_ok db' = claims_ok db"
  by (rule claims_ok_cong) (simp_all add: same_runs_def)

lemma claims_ok_ids: "claims_ok db \<Longrightarrow> run_ids_ok db"
  by (simp add: claims_ok_def)

lemma claims_ok_run: "claims_ok db \<Longrightarrow> run_by_id db i = Some r \<Longrightarrow> run_ok r (windows_of db i)"
  using run_by_id_Some by (fastforce simp: claims_ok_def)

text \<open>A running run is recalculated from its changed windows.\<close>

lemma claims_ok_settle:
  assumes ok: "claims_ok db" and r: "run_by_id db i = Some r" and st: "rStatus r = StRunning"
    and f: "\<And>w. wRunID (f w) = wRunID w" "\<And>w. wID (f w) = wID w" "\<And>w. known_status (wStatus w) \<Longrightarrow> known_status (wStatus (f w))"
    and w: "CollectionTaskWindowed (rTaskType r)"
    and s: "settled r r' (wStatus ` f ` set (windows_of db i))"
  shows "claims_ok (set_windows i f (set_run i r' db))"
proof -
  have rok: "run_ok r (windows_of db i)" using claims_ok_run [OF ok r] .
  have s': "settled r r' (wStatus ` set (map f (windows_of db i)))" using s by simp
  have id: "run_identity r' = run_identity r" using s by (simp add: settled_def)
  have "rWindowsInitializedAt r \<noteq> None" "rActiveKey r \<noteq> None" "rTotalWindows r = int (length (windows_of db i))"
    "\<forall>w \<in> set (windows_of db i). known_status (wStatus w)"
    using rok st w by (auto simp: run_ok_def is_active_def)
  then have loc: "run_ok r' (map f (windows_of db i))"
    using run_ok_settled [OF s'] w f(3) by auto
  have ri: "rID r' = i" using id run_by_id_Some [OF r] by (simp add: run_identity_def)
  have key: "rActiveKey r' = None \<or> rActiveKey r' = rActiveKey r" using s by (auto simp: settled_def)
  show ?thesis
    using id st by (intro claims_ok_change [OF ok r ri f(1,2) loc key]) (auto simp: run_identity_def)
qed

end
