(* ===== verification/Claim_Steps.thy ===== *)
theory Claim_Steps
  imports Claim_Invariant
begin

text \<open>
  Every transaction of the claim protocol keeps the invariant \<open>claims_ok\<close>: creating and materializing
  runs, claiming, committing, releasing, heartbeats, recovery and the site fence. The transactions are
  the steps of a transition system, so the invariant holds in every reachable store.
\<close>

section \<open>Helpers\<close>

lemma rows_affected_pos:
  "rows_affected P f xs \<noteq> 0 \<Longrightarrow> \<exists>x \<in> set xs. P x"
  by (auto simp: rows_affected_def filter_empty_conv)

lemma with_run_Inr:
  assumes "with_run db i body = Inr y"
  obtains run scope where "run_by_id db i = Some run" "resolveTaskScope db run = Inr scope"
    "lockTaskScope db scope False = Inr ()" "body run scope = Inr y"
  using assms by (auto simp: with_run_def and_then_Inr_conv)

lemma yield_row_simps [simp]:
  "wRunID (yield_row c b n w) = wRunID w" "wID (yield_row c b n w) = wID w"
  "wStatus (yield_row c b n w) = (if wAttemptCount w < b then StPending else StFailed)"
  by (simp_all add: yield_row_def)

lemma yield_copy_status:
  "wStatus (yield_copy c b n w) = wStatus (if wStatus w = StRunning then yield_row c b n w else w)"
  by (simp add: yield_copy_def yield_row_def)

lemma known_statuses [simp]:
  "known_status StPending" "known_status StRunning" "known_status StSuccess" "known_status StFailed" "known_status StUnavailable"
  by (simp_all add: known_status_def)

lemma set_windows_id [simp]: "set_windows i (\<lambda>w. w) db = db"
  by (simp add: set_windows_def update_windows_def update_where_def)

lemma windows_of_member: "w \<in> set (windows_of db i) \<longleftrightarrow> w \<in> set (run_windows db) \<and> wRunID w = i"
  by (auto simp: windows_of_def)

lemma window_unique:
  "claims_ok db \<Longrightarrow> w \<in> set (run_windows db) \<Longrightarrow> v \<in> set (run_windows db) \<Longrightarrow> wID w = wID v \<Longrightarrow> w = v"
  by (auto simp: claims_ok_def distinct_map inj_on_def)

text \<open>A run whose windows are untouched and whose status stays in the same group.\<close>

lemma claims_ok_run_only:
  assumes ok: "claims_ok db" and r: "run_by_id db i = Some r"
    and r': "run_identity r' = run_identity r" "rStatus r' = rStatus r" "rActiveKey r' = rActiveKey r"
  shows "claims_ok (set_run i r' db)"
proof -
  have ri: "rID r' = i" using r'(1) run_by_id_Some [OF r] by (simp add: run_identity_def)
  have "run_ok r' (map (\<lambda>w. w) (windows_of db i))"
    using claims_ok_run [OF ok r] r' by (simp add: run_ok_def run_identity_def)
  from claims_ok_change [OF ok r ri _ _ this] r' show ?thesis by (auto simp: run_identity_def)
qed

text \<open>Clearing columns that the invariant does not read.\<close>

lemma claims_ok_columns:
  assumes ok: "claims_ok db" and f: "\<And>r. run_identity (f r) = run_identity r" "\<And>r. rStatus (f r) = rStatus r"
    "\<And>r. rActiveKey (f r) = rActiveKey r" and P: "\<And>r. P r \<Longrightarrow> rID r = i"
  shows "claims_ok (update_runs P f db)"
proof (cases "\<exists>r \<in> set (runs db). P r")
  case True
  then obtain r where r: "r \<in> set (runs db)" "P r" by blast
  then have ri: "run_by_id db i = Some r" using run_by_id_unique [of db i r] claims_ok_ids [OF ok] P by (simp add: run_ids_ok_def)
  show ?thesis
    using update_runs_set_run [of db i r P f, OF claims_ok_ids [OF ok] ri r(2) P] claims_ok_run_only [OF ok ri f] by simp
next
  case False
  then have "update_runs P f db = db" by (auto simp: update_runs_def update_where_def map_idI)
  then show ?thesis using ok by simp
qed

lemma set_windows_by_hour_of: "set (windows_by_hour db i) = set (windows_of db i)"
  by (auto simp: windows_of_def)

section \<open>Claiming\<close>

lemma start_window_simps [simp]:
  "wRunID (start_window n w) = wRunID w" "wID (start_window n w) = wID w" "wStatus (start_window n w) = StRunning"
  by (simp_all add: start_window_def)

lemma start_run_simps [simp]:
  "run_identity (start_run opts r) = run_identity r" "rStatus (start_run opts r) = StRunning"
  "rActiveKey (start_run opts r) = rActiveKey r" "rID (start_run opts r) = rID r" "rSiteID (start_run opts r) = rSiteID r"
  "rTargetType (start_run opts r) = rTargetType r" "rTaskType (start_run opts r) = rTaskType r"
  by (simp_all add: start_run_def run_identity_def)

lemma claim_scope_free:
  assumes "resolveTaskScope db c = Inr scope" "verifyTaskScopeLocked db run scope = Inr ()"
    and "scopeHasRunningTask db run scope = Inr False" "rTargetType run = rTargetType c" "rTargetID run = rTargetID c"
    and "q \<in> set (runs db)" "rID q \<noteq> rID run"
  shows "\<not> both_running (start_run opts run) q"
proof
  assume b: "both_running (start_run opts run) q"
  then have t: "rTargetType run = ''site''" "rStatus q = StRunning" "rSiteID q = rSiteID run" "rTaskType q = rTaskType run"
    by (auto simp: both_running_def same_slot_def)
  have "scSiteIDs scope = [rTargetID c]"
    using assms(1,4) t(1) by (auto simp: resolveTaskScope_def split: option.splits if_split_asm)
  moreover have "rSiteID run = Some (rTargetID run)"
    using assms(2) t(1) by (auto simp: verifyTaskScopeLocked_def and_then_Inr_conv site_by_id_def
        dest: find_Some_set split: if_split_asm)
  ultimately show False
    using assms(3,5,6,7) t by (auto simp: scopeHasRunningTask_def list_ex_iff)
qed

definition claim_windows :: "store \<Rightarrow> CollectionRun \<Rightarrow> CollectionTaskClaimOptions \<Rightarrow> CollectionRunWindow list" where
  "claim_windows db run opts = (if CollectionTaskWindowed (rTaskType run) then claimable_windows db (rID run) opts else [])"

text \<open>What a successful claim did.\<close>

lemma claimCandidate_Inr:
  assumes "claimCandidate db c opts = Inr (db', claim)"
  obtains scope run where "resolveTaskScope db c = Inr scope" "run_by_id db (rID c) = Some run"
    "rStatus run = StPending" "rWindowsInitializedAt run \<noteq> None" "rNextAttemptAt run \<le> coNow opts"
    "rTaskType run = rTaskType c" "rTargetType run = rTargetType c" "rTargetID run = rTargetID c"
    "rLastRequestID run \<noteq> coRequestID opts"
    "verifyTaskScopeLocked db run scope = Inr ()" "scopeHasRunningTask db run scope = Inr False"
    "CollectionTaskWindowed (rTaskType run) \<Longrightarrow> claim_windows db run opts \<noteq> []"
    "recalculateTaskBackfillStatuses
        (update_runs (\<lambda>r. rID r = rID run \<and> rStatus r = StPending \<and> rLastRequestID r = rLastRequestID run) (start_run opts)
          (update_windows (\<lambda>w. wID w \<in> set (map wID (claim_windows db run opts)) \<and> wStatus w = StPending)
            (start_window (coNow opts)) db))
        (start_run opts run) (coNow opts) = Inr db'"
    "claim = \<lparr>clRun = start_run opts run, clWindows = map (start_window (coNow opts)) (claim_windows db run opts),
       clRequestID = coRequestID opts\<rparr>"
proof -
  note u = assms [unfolded claimCandidate_def Let_def, folded claim_windows_def]
  from u obtain scope where sc: "resolveTaskScope db c = Inr scope" by (elim and_then_InrE)
  with u obtain run where run: "run_by_id db (rID c) = Some run"
    by (elim and_then_InrE) (simp split: option.split_asm)
  from u sc run have chk: "\<not> (rStatus run \<noteq> StPending \<or> rWindowsInitializedAt run = None \<or> rNextAttemptAt run > coNow opts
        \<or> rTaskType run \<noteq> rTaskType c \<or> rTargetType run \<noteq> rTargetType c \<or> rTargetID run \<noteq> rTargetID c
        \<or> rLastRequestID run = coRequestID opts)"
    by (elim and_then_InrE) (simp split: if_split_asm)
  note v = u [unfolded sc run option.case if_not_P [OF chk] claim_windows_def [symmetric]]
  have rc: "rTaskType c = rTaskType run" using chk by simp
  have vf: "verifyTaskScopeLocked db run scope = Inr ()" "scopeHasRunningTask db run scope = Inr False"
    using v by (auto elim!: and_then_InrE split: if_split_asm)
  note w = v [unfolded vf and_then_simps if_False]
  show thesis
    by (rule that [OF sc run _ _ _ _ _ _ _ vf]; use w chk in \<open>auto elim!: and_then_InrE split: if_split_asm\<close>)
qed

lemma claim_windows_subset: "set (claim_windows db run opts) \<subseteq> set (windows_of db (rID run))"
  unfolding claim_windows_def claimable_windows_def using set_take_subset by fastforce

lemma claimCandidate_keeps:
  assumes "claimCandidate db c opts = Inr (db', claim)" and ok: "claims_ok db"
  shows "claims_ok db'"
  using assms(1)
proof (cases rule: claimCandidate_Inr)
  case (1 scope run)
  note sc = 1(1) and run = 1(2) and chk = 1(3,4,7,8) and vf = 1(10) and free = 1(11)
  let ?chosen = "claim_windows db run opts"
  have ch: "set ?chosen \<subseteq> set (windows_of db (rID run))" by (rule claim_windows_subset)
  have st: "same_runs (update_runs (\<lambda>r. rID r = rID run \<and> rStatus r = StPending \<and> rLastRequestID r = rLastRequestID run) (start_run opts)
          (update_windows (\<lambda>w. wID w \<in> set (map wID ?chosen) \<and> wStatus w = StPending) (start_window (coNow opts)) db)) db'"
    using statuses_same_runs [OF 1(13)] .
  let ?i = "rID run" and ?P = "\<lambda>w. wID w \<in> set (map wID ?chosen) \<and> wStatus w = StPending"
  let ?f = "\<lambda>w. if ?P w then start_window (coNow opts) w else w"
  have i: "?i = rID c" "run_by_id db ?i = Some run" using run run_by_id_Some [OF run] by auto
  have "wRunID w = ?i" if w: "w \<in> set (run_windows db)" "?P w" for w
  proof -
    from w(2) obtain v where "v \<in> set ?chosen" "wID w = wID v" by auto
    moreover from this(1) ch have v: "v \<in> set (run_windows db)" "wRunID v = ?i" using windows_of_member by blast+
    ultimately show ?thesis using window_unique [OF ok w(1) v(1)] by simp
  qed
  then have "update_windows ?P (start_window (coNow opts)) db = set_windows ?i ?f db"
    by (rule update_windows_set_windows)
  moreover have "update_runs (\<lambda>r. rID r = ?i \<and> rStatus r = StPending \<and> rLastRequestID r = rLastRequestID run) (start_run opts)
      (set_windows ?i ?f db) = set_run ?i (start_run opts run) (set_windows ?i ?f db)"
    using claims_ok_ids [OF ok] i chk(1) by (intro update_runs_set_run) (auto simp: run_ids_ok_def)
  ultimately have eq: "same_runs (set_windows ?i ?f (set_run ?i (start_run opts run) db)) db'"
    using st by (simp add: set_run_windows_commute)
  have rok: "run_ok run (windows_of db ?i)" using claims_ok_run [OF ok i(2)] .
  have "run_ok (start_run opts run) (map ?f (windows_of db ?i))"
    using rok chk unfolding run_ok_def by (auto simp: start_run_def)
  then have "claims_ok (set_windows ?i ?f (set_run ?i (start_run opts run) db))"
    using claim_scope_free [OF sc vf free chk(3,4)]
    by (intro claims_ok_change [OF ok i(2)]) auto
  then show ?thesis using claims_ok_same_runs [OF eq] by simp
qed

lemma try_candidates_Inr:
  "try_candidates db opts cs = Some (Inr y) \<Longrightarrow> \<exists>c \<in> set cs. claimCandidate db c opts = Inr y"
  by (induction cs) (auto split: sum.splits if_split_asm)

lemma claim_loop_Inr: "claim_loop db opts cursor = Inr y \<Longrightarrow> \<exists>c. claimCandidate db c opts = Inr y"
proof (induction db opts cursor rule: claim_loop.induct)
  case (1 db opts cursor)
  from 1(2) [unfolded claim_loop.simps [of db opts cursor] Let_def] 1(1) [OF refl]
    try_candidates_Inr [of db opts "claim_page db opts cursor" y]
  show ?case by (auto split: option.split_asm if_split_asm)
qed

lemma ClaimNext_keeps: "ClaimNext db opts = Inr (db', claim) \<Longrightarrow> claims_ok db \<Longrightarrow> claims_ok db'"
  using claim_loop_Inr claimCandidate_keeps by (fastforce simp: ClaimNext_def split: if_split_asm)

section \<open>Committing\<close>

definition window_change :: "(CollectionRunWindow \<Rightarrow> CollectionRunWindow) \<Rightarrow> bool" where
  "window_change f \<longleftrightarrow> (\<forall>w. wRunID (f w) = wRunID w \<and> wID (f w) = wID w
     \<and> (known_status (wStatus w) \<longrightarrow> known_status (wStatus (f w))))"

lemma window_changeD:
  assumes "window_change f"
  shows "wRunID (f w) = wRunID w" "wID (f w) = wID w" "known_status (wStatus w) \<Longrightarrow> known_status (wStatus (f w))"
  using assms by (simp_all add: window_change_def)

lemma window_change_id [simp]: "window_change (\<lambda>w. w)"
  by (simp add: window_change_def)

lemma window_change_comp: "window_change f \<Longrightarrow> window_change g \<Longrightarrow> window_change (g \<circ> f)"
  by (simp add: window_change_def)

lemma apply_outcome_change: "outcome_valid o' \<Longrightarrow> window_change (\<lambda>w. if P w then apply_outcome now o' w else w)"
  by (auto simp: window_change_def apply_outcome_def outcome_valid_def known_status_def split: if_split_asm)

lemma commit_outcomes_windows:
  assumes "commit_outcomes db i now os = Inr db1" "list_all outcome_valid os"
  shows "\<exists>f. db1 = set_windows i f db \<and> window_change f"
  using assms
proof (induction os arbitrary: db)
  case Nil
  then show ?case by (intro exI [of _ "\<lambda>w. w"]) simp
next
  case (Cons o' os)
  let ?g = "\<lambda>w. if held_window i o' w then apply_outcome now o' w else w"
  have u: "update_windows (held_window i o') (apply_outcome now o') db = set_windows i ?g db"
    by (rule update_windows_set_windows) (simp add: held_window_def)
  have g: "window_change ?g" using Cons.prems(2) by (simp add: apply_outcome_change)
  obtain f where f: "db1 = set_windows i f (set_windows i ?g db)" "window_change f"
    using Cons.IH [of "set_windows i ?g db"] Cons.prems u by (auto split: if_split_asm)
  then have "db1 = set_windows i (f \<circ> ?g) db" using set_windows_twice [of ?g i f db] window_changeD(1) [OF g] by simp
  then show ?case using window_change_comp [OF g f(2)] by blast
qed

text \<open>The recalculation after a change of windows, as both code paths write it.\<close>

lemma recalculated_initial:
  assumes "recalculateInitialBackfillRun db run now = Inr (db', run')" "run_ids_ok db" "run_by_id db (rID run) = Some row"
    and "rStatus row = StRunning" "rLastRequestID row = rLastRequestID run"
    and "rTotalWindows run = int (length (windows_of db (rID run)))"
  shows "\<exists>f. db' = set_run (rID run) (f row) db \<and> run' = f run \<and> (\<forall>r. settled r (f r) (wStatus ` set (windows_of db (rID run))))"
proof -
  obtain f where f: "initial_backfill_columns run (windows_of db (rID run)) now = Inr f" "run' = f run"
    "db' = update_runs (\<lambda>r. rID r = rID run \<and> rStatus r = StRunning \<and> rLastRequestID r = rLastRequestID run) f db"
    using assms(1) by (auto simp: recalculateInitialBackfillRun_def and_then_Inr_conv)
  have "update_runs (\<lambda>r. rID r = rID run \<and> rStatus r = StRunning \<and> rLastRequestID r = rLastRequestID run) f db
      = set_run (rID run) (f row) db"
    using assms(4,5) run_by_id_Some [OF assms(3)] by (intro update_runs_set_run [OF assms(2,3)]) auto
  then show ?thesis using f initial_settled [OF f(1) assms(6)] by blast
qed

lemma recalculated_stored:
  assumes "recalculate_stored db run ws now None = Inr (db', run')" "run_ids_ok db" "run_by_id db (rID run) = Some row"
    and "is_active (rStatus run)"
  shows "\<exists>f. db' = set_run (rID run) (f row) db \<and> run' = f run \<and> (\<forall>r. settled r (f r) (wStatus ` set ws))"
  using assms recalc_settled [OF _ assms(4)] write_run_set_run [OF assms(2,3)]
  by (auto simp: recalculate_stored_def and_then_Inr_conv)

lemma commitWindowResults_keeps:
  assumes c: "commitWindowResults autoNow db run q now os = Inr (db', run')" and ok: "claims_ok db"
    and r: "run_by_id db (rID run) = Some run" "rStatus run = StRunning" "rLastRequestID run = q"
    and w: "CollectionTaskWindowed (rTaskType run)"
  shows "claims_ok db'"
proof -
  let ?i = "rID run"
  define add where "add = (\<lambda>r :: CollectionRun. r\<lparr>rFetchedRows := rFetchedRows r + sum_list (map wrFetchedRows os),
    rWrittenRows := rWrittenRows r + sum_list (map wrWrittenRows os), rLastRequestID := q, rUpdatedAt := autoNow\<rparr>)"
  define run1 where "run1 = run\<lparr>rFetchedRows := rFetchedRows run + sum_list (map wrFetchedRows os),
    rWrittenRows := rWrittenRows run + sum_list (map wrWrittenRows os)\<rparr>"
  define held where "held = (\<lambda>r :: CollectionRun. rID r = ?i \<and> rStatus r = StRunning \<and> rLastRequestID r = q)"
  define clear where "clear = (\<lambda>r :: CollectionRun. r\<lparr>rHeartbeatAt := None, rUpdatedAt := autoNow\<rparr>)"
  from c obtain db1 db3 run2 where v: "list_all outcome_valid os" and db1: "commit_outcomes db ?i now os = Inr db1"
    and rec: "(if rPriority run1 = PriorityInitialBackfill then recalculateInitialBackfillRun (update_runs held add db1) run1 now
        else recalculate_stored (update_runs held add db1) run1 (windows_by_hour (update_runs held add db1) (rID run1)) now None) = Inr (db3, run2)"
    and fin: "db' = (if rStatus run2 = StPending then update_runs (\<lambda>r. rID r = rID run2 \<and> rStatus r = StPending \<and> rLastRequestID r = q) clear db3 else db3)"
    unfolding commitWindowResults_def Let_def add_def run1_def held_def clear_def
    by (auto elim!: and_then_InrE split: if_split_asm prod.split_asm)
  obtain f where f: "db1 = set_windows ?i f db" "window_change f" using commit_outcomes_windows [OF db1 v] by blast
  note fD = window_changeD [OF f(2)]
  have rok: "run_ok run (windows_of db ?i)" using claims_ok_run [OF ok r(1)] .
  have ids1: "run_ids_ok db1" using claims_ok_ids [OF ok] by (simp add: f(1) run_ids_ok_def)
  have "update_runs held add db1 = set_run ?i (add run) db1"
    using r by (intro update_runs_set_run [OF ids1]) (auto simp: held_def f(1))
  then have db2: "update_runs held add db1 = set_windows ?i f (set_run ?i (add run) db)" (is "_ = ?db2")
    by (simp add: f(1) set_run_windows_commute)
  have b2: "run_ids_ok ?db2" "run_by_id ?db2 ?i = Some (add run)" "windows_of ?db2 ?i = map f (windows_of db ?i)"
    using ids1 f(1) r(1) claims_ok_ids [OF ok]
    by (auto simp: windows_of_set_windows [OF fD(1)] add_def run_ids_ok_def ids_set_run set_runs_set_run
        dest: run_by_id_Some)
  have addr: "rStatus (add run) = StRunning" "rLastRequestID (add run) = q" using r by (simp_all add: add_def)
  have run1: "rID run1 = ?i" "rStatus run1 = StRunning" "rLastRequestID run1 = q" "rTotalWindows run1 = rTotalWindows run"
    using r by (simp_all add: run1_def)
  have tot: "rTotalWindows run1 = int (length (windows_of ?db2 ?i))"
    using rok r(2) w b2(3) run1(4) by (simp add: run_ok_def)
  have "\<exists>g. db3 = set_run ?i (g (add run)) ?db2 \<and> run2 = g run1 \<and> (\<forall>r. settled r (g r) (wStatus ` f ` set (windows_of db ?i)))"
  proof (cases "rPriority run1 = PriorityInitialBackfill")
    case True
    then have "recalculateInitialBackfillRun ?db2 run1 now = Inr (db3, run2)" using rec unfolding db2 by simp
    from recalculated_initial [where row = "add run", OF this b2(1)] show ?thesis
      using b2(2,3) run1 tot addr by (simp add: image_image)
  next
    case False
    then have "recalculate_stored ?db2 run1 (windows_by_hour ?db2 ?i) now None = Inr (db3, run2)"
      using rec run1(1) unfolding db2 by simp
    from recalculated_stored [where row = "add run", OF this b2(1)] show ?thesis
      using b2(2,3) run1 unfolding set_windows_by_hour_of by (simp add: image_image)
  qed
  then obtain g where g: "db3 = set_run ?i (g (add run)) ?db2" "run2 = g run1"
    "\<And>r. settled r (g r) (wStatus ` f ` set (windows_of db ?i))" by blast
  have st: "settled run (g (add run)) (wStatus ` f ` set (windows_of db ?i))"
    using g(3) [of "add run"] by (simp add: settled_def add_def run_identity_def)
  have "db3 = set_windows ?i f (set_run ?i (g (add run)) db)"
    using g(1) by (simp add: set_run_windows_commute add_def)
  moreover have "claims_ok (set_windows ?i f (set_run ?i (g (add run)) db))"
    by (rule claims_ok_settle [OF ok r(1,2) fD w st])
  ultimately have ok3: "claims_ok db3" by simp
  show ?thesis
  proof (cases "rStatus run2 = StPending")
    case True
    have i2: "rID run2 = ?i" using g(2) g(3) [of run1] run1(1) by (simp add: settled_def run_identity_def)
    have "claims_ok (update_runs (\<lambda>r. rID r = rID run2 \<and> rStatus r = StPending \<and> rLastRequestID r = q) clear db3)"
      by (rule claims_ok_columns [OF ok3, where i = ?i]) (auto simp: i2 clear_def run_identity_def)
    with True fin show ?thesis by simp
  qed (use ok3 fin in simp)
qed

text \<open>A run without windows leaves the running state.\<close>

lemma claims_ok_plain:
  assumes ok: "claims_ok db" and r: "run_by_id db i = Some r" and nw: "\<not> CollectionTaskWindowed (rTaskType r)"
    and st: "rStatus r = StRunning" "run_identity r' = run_identity r"
    and r': "rStatus r' = StPending \<and> rActiveKey r' = rActiveKey r \<or> rStatus r' \<in> {StSuccess, StFailed} \<and> rActiveKey r' = None"
  shows "claims_ok (set_run i r' db)"
proof -
  have rok: "run_ok r (windows_of db i)" using claims_ok_run [OF ok r] .
  then have none: "windows_of db i = []" using nw by (simp add: run_ok_def)
  have ri: "rID r' = i" using st(2) run_by_id_Some [OF r] by (simp add: run_identity_def)
  have "rTaskType r' = rTaskType r" "rWindowsInitializedAt r' = rWindowsInitializedAt r"
    using st(2) by (simp_all add: run_identity_def)
  then have "run_ok r' (map (\<lambda>w. w) (windows_of db i))"
    using rok r' nw st(1) unfolding none by (auto simp: run_ok_def)
  from claims_ok_change [OF ok r ri _ _ this] r' st show ?thesis by (auto simp: run_identity_def)
qed

lemma non_window_columns_effect:
  assumes "non_window_columns request = Inr f"
  shows "run_identity (f r) = run_identity r"
    and "rStatus (f r) = StPending \<and> rActiveKey (f r) = rActiveKey r \<or> rStatus (f r) \<in> {StSuccess, StFailed} \<and> rActiveKey (f r) = None"
  using assms by (auto simp: non_window_columns_def Let_def run_identity_def split: if_split_asm option.split_asm)

lemma commitNonWindow_keeps:
  assumes c: "commitNonWindowResult db run request = Inr (db', run')" and ok: "claims_ok db"
    and r: "run_by_id db (rID run) = Some run" "rStatus run = StRunning" "rLastRequestID run = cqRequestID request"
    and nw: "\<not> CollectionTaskWindowed (rTaskType run)"
  shows "claims_ok db'"
proof -
  let ?held = "\<lambda>r. rID r = rID run \<and> rStatus r = StRunning \<and> rLastRequestID r = cqRequestID request"
  from c obtain f where f: "non_window_columns request = Inr f" "db' = update_runs ?held f db"
    by (auto simp: commitNonWindowResult_def Let_def elim!: and_then_InrE split: if_split_asm)
  have "update_runs ?held f db = set_run (rID run) (f run) db"
    using r by (intro update_runs_set_run [OF claims_ok_ids [OF ok]]) auto
  then show ?thesis using claims_ok_plain [OF ok r(1) nw r(2) non_window_columns_effect [OF f(1)]] f(2) by simp
qed

lemma CommitClaim_keeps:
  assumes c: "CommitClaim autoNow db request = Inr (db', run')" and ok: "claims_ok db"
  shows "claims_ok db'"
proof -
  from c have "with_run db (cqRunID request) (\<lambda>run scope.
        if rStatus run \<noteq> StRunning \<or> rLastRequestID run \<noteq> cqRequestID request then Inl ErrCollectionTaskClaimLost
        else and_then (verifyTaskScopeLocked db run scope) (\<lambda>_.
             and_then
               (if CollectionTaskWindowed (rTaskType run)
                then (if cqRunStatus request \<noteq> [] \<or> cqWindows request = [] then Inl ErrCollectionRunContract
                      else and_then (commitWindowResults autoNow db run (cqRequestID request) (cqNow request) (cqWindows request))
                             (\<lambda>(db1, run1). and_then (finalizeLocalRebuildLifecycle db1 run1 (cqNow request)) (\<lambda>db2.
                               Inr (db2, run1))))
                else (if cqWindows request \<noteq> [] then Inl ErrCollectionRunContract
                      else commitNonWindowResult db run request))
               (\<lambda>(db', run'). and_then (recalculateTaskBackfillStatuses db' run' (cqNow request)) (\<lambda>db''.
                  Inr (db'', run'))))) = Inr (db', run')"
    by (simp add: CommitClaim_def split: if_split_asm)
  then obtain run db2 run2 where run: "run_by_id db (cqRunID request) = Some run" "rStatus run = StRunning"
      "rLastRequestID run = cqRequestID request"
    and st: "recalculateTaskBackfillStatuses db2 run2 (cqNow request) = Inr db'"
    and body: "(if CollectionTaskWindowed (rTaskType run)
        then and_then (commitWindowResults autoNow db run (cqRequestID request) (cqNow request) (cqWindows request))
               (\<lambda>(db1, run1). and_then (finalizeLocalRebuildLifecycle db1 run1 (cqNow request)) (\<lambda>db2. Inr (db2, run1)))
        else commitNonWindowResult db run request) = Inr (db2, run2)"
    by (elim with_run_Inr) (auto elim!: and_then_InrE split: if_split_asm)
  have r: "run_by_id db (rID run) = Some run" using run(1) run_by_id_Some [OF run(1)] by simp
  have "claims_ok db2"
  proof (cases "CollectionTaskWindowed (rTaskType run)")
    case True
    with body obtain db1 run1 where "commitWindowResults autoNow db run (cqRequestID request) (cqNow request) (cqWindows request) = Inr (db1, run1)"
      "finalizeLocalRebuildLifecycle db1 run1 (cqNow request) = Inr db2" by (auto elim!: and_then_InrE)
    then show ?thesis
      using commitWindowResults_keeps [OF _ ok r run(2,3) True] claims_ok_same_runs [OF finalize_same_runs] by blast
  qed (use body commitNonWindow_keeps [OF _ ok r run(2,3)] in auto)
  then show ?thesis using claims_ok_same_runs [OF statuses_same_runs [OF st]] by simp
qed

lemma fact_windows_frame [simp]:
  "claims_ok (db\<lparr>fact_windows := fs\<rparr>) = claims_ok db" "run_by_id (db\<lparr>fact_windows := fs\<rparr>) i = run_by_id db i"
  by (rule claims_ok_cong) (simp_all add: run_by_id_def)

lemma CompleteClaimedWindow_keeps:
  assumes c: "CompleteClaimedWindow autoNow db i q now out m = Inr (db', run')" and ok: "claims_ok db"
  shows "claims_ok db'"
proof -
  from c obtain run dbf out1 db2 db3 where run: "run_by_id db i = Some run" "rStatus run = StRunning"
      "rLastRequestID run = q" "CollectionTaskWindowed (rTaskType run)"
    and cm: "commitWindowResults autoNow dbf run q now [out1] = Inr (db2, run')"
    and fr: "claims_ok dbf = claims_ok db" "run_by_id dbf i = run_by_id db i"
    and fin: "finalizeLocalRebuildLifecycle db2 run' now = Inr db3" "recalculateTaskBackfillStatuses db3 run' now = Inr db'"
    unfolding CompleteClaimedWindow_def
    by (auto elim!: with_run_Inr and_then_InrE split: if_split_asm option.split_asm)
  have r: "run_by_id dbf (rID run) = Some run" using run(1) run_by_id_Some [OF run(1)] fr(2) by simp
  have "claims_ok db2" using commitWindowResults_keeps [OF cm _ r run(2,3,4)] ok fr(1) by simp
  then show ?thesis
    using claims_ok_same_runs [OF finalize_same_runs [OF fin(1)]] claims_ok_same_runs [OF statuses_same_runs [OF fin(2)]] by simp
qed

lemma run_by_id_self: "run_by_id db i = Some r \<Longrightarrow> run_by_id db (rID r) = Some r"
  using run_by_id_Some by fastforce

section \<open>Releasing, heartbeats and recovery\<close>

lemma yield_change: "window_change (\<lambda>w. if P w then yield_row c b n w else w)"
  by (simp add: window_change_def)

lemma yielded_statuses:
  assumes "set ws = set (windows_of db i)"
  shows "wStatus ` yield_copy c b n ` set ws
    = wStatus ` (\<lambda>w. if wRunID w = i \<and> wStatus w = StRunning then yield_row c b n w else w) ` set (windows_of db i)"
proof -
  have "wStatus (yield_copy c b n w) = wStatus (if wRunID w = i \<and> wStatus w = StRunning then yield_row c b n w else w)"
    if "w \<in> set (windows_of db i)" for w
    using that by (simp add: yield_copy_status windows_of_member)
  then show ?thesis unfolding assms image_image by (rule image_cong [OF refl])
qed

text \<open>The part that releasing and recovery share: running windows are yielded, then the run follows.\<close>

lemma yielded_keeps:
  fixes db :: store and i :: int and c :: string and b now :: int
  defines "mine \<equiv> (\<lambda>w. wRunID w = i \<and> wStatus w = StRunning)"
  assumes ok: "claims_ok db" and r: "run_by_id db i = Some run" "rStatus run = StRunning"
    and w: "CollectionTaskWindowed (rTaskType run)"
    and col: "run_identity cur = run_identity run" "rStatus cur = StRunning" "rActiveKey cur = rActiveKey run"
      "rLastRequestID cur = rLastRequestID run"
    and ws: "set ws = set (windows_of db i)"
    and rec: "(if initial then recalculateInitialBackfillRun (set_run i cur (update_windows mine (yield_row c b now) db)) cur now
        else recalculate_stored (set_run i cur (update_windows mine (yield_row c b now) db)) cur (map (yield_copy c b now) ws) now None)
        = Inr (db', run')"
  shows "claims_ok db'"
proof -
  let ?f = "\<lambda>w. if mine w then yield_row c b now w else w"
  have u: "update_windows mine (yield_row c b now) db = set_windows i ?f db"
    by (rule update_windows_set_windows) (simp add: mine_def)
  have f: "window_change ?f" by (rule yield_change)
  note fD = window_changeD [OF f]
  let ?db = "set_windows i ?f (set_run i cur db)"
  have e: "set_run i cur (update_windows mine (yield_row c b now) db) = ?db" by (simp add: u set_run_windows_commute)
  have ri: "rID cur = i" using col(1) run_by_id_Some [OF r(1)] by (simp add: run_identity_def)
  have b: "run_ids_ok ?db" "run_by_id ?db (rID cur) = Some cur" "windows_of ?db (rID cur) = map ?f (windows_of db i)"
    using claims_ok_ids [OF ok] run_ids_set_run [OF ri, of db] r(1) ri
    by (auto simp: windows_of_set_windows [OF fD(1)] run_ids_ok_def)
  have rok: "run_ok run (windows_of db i)" using claims_ok_run [OF ok r(1)] .
  have tot: "rTotalWindows cur = int (length (windows_of ?db (rID cur)))"
    using rok r(2) w b(3) col(1) by (simp add: run_ok_def run_identity_def)
  have "\<exists>g. db' = set_run i (g cur) ?db \<and> settled cur (g cur) (wStatus ` ?f ` set (windows_of db i))"
  proof (cases initial)
    case True
    then have "recalculateInitialBackfillRun ?db cur now = Inr (db', run')" using rec unfolding e by simp
    from recalculated_initial [OF this b(1,2) col(2) refl tot] show ?thesis using ri b(3) by (auto simp: image_image)
  next
    case False
    then have "recalculate_stored ?db cur (map (yield_copy c b now) ws) now None = Inr (db', run')" using rec unfolding e by simp
    from recalculated_stored [OF this b(1,2)] show ?thesis
      using ri col(2) yielded_statuses [OF ws, of c b now] by (auto simp: mine_def image_image)
  qed
  then obtain g where g: "db' = set_run i (g cur) ?db" "settled cur (g cur) (wStatus ` ?f ` set (windows_of db i))" by blast
  have "settled run (g cur) (wStatus ` ?f ` set (windows_of db i))" using g(2) col by (simp add: settled_def)
  from claims_ok_settle [OF ok r fD w this] show ?thesis using g(1) ri by (simp add: set_run_windows_commute)
qed

lemma release_running_keeps:
  assumes c: "release_running db run q now policy = Inr (db', n)" and ok: "claims_ok db"
    and r: "run_by_id db (rID run) = Some run"
  shows "claims_ok db'"
proof (cases "rStatus run = StRunning \<and> rLastRequestID run = q")
  case False
  then have "db' = db" using c by (auto simp: release_running_def)
  then show ?thesis using ok by simp
next
  case True
  let ?i = "rID run"
  define held where "held = (\<lambda>r :: CollectionRun. rID r = ?i \<and> rStatus r = StRunning \<and> rLastRequestID r = q)"
  define clear where "clear = (\<lambda>r :: CollectionRun. r\<lparr>rHeartbeatAt := None, rUpdatedAt := now\<rparr>)"
  define idle where "idle = (\<lambda>r :: CollectionRun. r\<lparr>rStatus := StPending, rHeartbeatAt := None, rNextAttemptAt := now, rUpdatedAt := now\<rparr>)"
  define mine where "mine = (\<lambda>w :: CollectionRunWindow. wRunID w = ?i \<and> wStatus w = StRunning)"
  define row where "row = yield_row CollectionTaskExecutionFailedCode (maxAttempts policy (rTaskType run)) now"
  define copies where "copies = map (yield_copy CollectionTaskExecutionFailedCode (maxAttempts policy (rTaskType run)) now)
    (sort_key (\<lambda>w. (wSiteID w, wHourTS w, wID w)) (windows_of db ?i))"
  let ?db1 = "update_windows mine row db"
  have live: "(rStatus run \<noteq> StRunning \<or> rLastRequestID run \<noteq> q) = False" using True by simp
  note u = c [unfolded release_running_def Let_def, folded held_def clear_def idle_def mine_def row_def copies_def, unfolded live if_False]
  have hr: "held run" "\<And>x. held x \<Longrightarrow> rID x = ?i" using True by (auto simp: held_def)
  have ids1: "run_ids_ok ?db1" "run_by_id ?db1 ?i = Some run"
    using claims_ok_ids [OF ok] r by (auto simp: run_ids_ok_def update_windows_def run_by_id_def)
  show ?thesis
  proof (cases "CollectionTaskWindowed (rTaskType run)")
    case False
    then have "db' = update_runs held idle db" using u by simp
    then have "db' = set_run ?i (idle run) db"
      using update_runs_set_run [of db ?i run held idle, OF claims_ok_ids [OF ok] r hr] by simp
    then show ?thesis using claims_ok_plain [OF ok r False, of "idle run"] True by (simp add: idle_def run_identity_def)
  next
    case w: True
    show ?thesis
    proof (cases "length (filter mine (run_windows db)) = 0")
      case none: True
      then have "db' = ?db1" using u w by (simp split: if_split_asm)
      also have "?db1 = db" using none by (auto simp: update_windows_def update_where_def filter_empty_conv map_idI)
      finally show ?thesis using ok by simp
    next
      case False
      with u w obtain db3 run2 where "(if rPriority (clear run) = PriorityInitialBackfill
          then recalculateInitialBackfillRun (update_runs held clear ?db1) (clear run) now
          else recalculate_stored (update_runs held clear ?db1) (clear run) copies now None) = Inr (db3, run2)"
        and st: "recalculateTaskBackfillStatuses db3 run2 now = Inr db'"
        by (auto simp: clear_def elim!: and_then_InrE split: if_split_asm)
      moreover have "update_runs held clear ?db1 = set_run ?i (clear run) ?db1"
        by (rule update_runs_set_run [of _ _ _ held, OF ids1 hr])
      ultimately have rec: "(if rPriority (clear run) = PriorityInitialBackfill
          then recalculateInitialBackfillRun (set_run ?i (clear run) ?db1) (clear run) now
          else recalculate_stored (set_run ?i (clear run) ?db1) (clear run) copies now None) = Inr (db3, run2)" by (simp only:)
      have "claims_ok db3"
        by (rule yielded_keeps [OF ok r _ w _ _ _ _ _ rec [unfolded row_def copies_def mine_def]])
          (use True in \<open>simp_all add: clear_def run_identity_def\<close>)
      then show ?thesis using claims_ok_same_runs [OF statuses_same_runs [OF st]] by simp
    qed
  qed
qed

lemma ReleaseOwnedRunning_keeps:
  assumes "ReleaseOwnedRunning db i q now policy = Inr (db', n)" "claims_ok db"
  shows "claims_ok db'"
proof -
  from assms(1) obtain run where "run_by_id db i = Some run" "release_running db run q now policy = Inr (db', n)"
    by (auto simp: ReleaseOwnedRunning_def elim!: with_run_Inr split: if_split_asm)
  then show ?thesis using release_running_keeps [OF _ assms(2)] run_by_id_self by blast
qed

lemma Heartbeat_keeps:
  assumes "Heartbeat db i q now = Inr db'" "claims_ok db"
  shows "claims_ok db'"
proof -
  let ?held = "\<lambda>r. rID r = i \<and> rStatus r = StRunning \<and> rLastRequestID r = q"
  let ?beat = "\<lambda>r :: CollectionRun. r\<lparr>rHeartbeatAt := Some now, rUpdatedAt := now\<rparr>"
  have "db' = update_runs ?held ?beat db"
    using assms(1) by (auto simp: Heartbeat_def Let_def elim!: with_run_Inr split: if_split_asm)
  moreover have "claims_ok (update_runs ?held ?beat db)"
    by (rule claims_ok_columns [OF assms(2), where i = i]) (auto simp: run_identity_def)
  ultimately show ?thesis by simp
qed

lemma recover_running_keeps:
  assumes c: "recover_running autoNow db run now stale policy = Inr (db', b)" and ok: "claims_ok db"
    and r: "run_by_id db (rID run) = Some run"
  shows "claims_ok db'"
proof -
  let ?i = "rID run" and ?code = CollectionTaskLeaseLostCode
  let ?budget = "maxAttempts policy (rTaskType run)"
  let ?db1 = "update_windows (\<lambda>w. wRunID w = ?i \<and> wStatus w = StRunning) (yield_row ?code ?budget now) db"
  let ?f = "\<lambda>r :: CollectionRun. let r1 = r\<lparr>rHeartbeatAt := None, rUpdatedAt := now, rErrorCode := ?code\<rparr>
      in if rRetryCount run < ?budget then r1\<lparr>rStatus := StPending, rNextAttemptAt := now\<rparr>
         else r1\<lparr>rStatus := StFailed, rActiveKey := None, rFinishedAt := Some now\<rparr>"
  consider (idle) "db' = db"
    | (plain) run2 where "rStatus run = StRunning" "\<not> CollectionTaskWindowed (rTaskType run)"
        "recalculateTaskBackfillStatuses (update_runs (\<lambda>r. rID r = ?i \<and> rStatus r = StRunning) ?f db) run2 now = Inr db'"
    | (windows) db2 run1 run3 where "rStatus run = StRunning" "CollectionTaskWindowed (rTaskType run)"
        "recalculate_stored ?db1 run (map (yield_copy ?code ?budget now) (windows_by_hour db ?i)) now None = Inr (db2, run1)"
        "recalculateTaskBackfillStatuses (if rStatus run1 = StPending
           then update_runs (\<lambda>r. rID r = ?i) (\<lambda>r. r\<lparr>rHeartbeatAt := None, rUpdatedAt := autoNow\<rparr>) db2 else db2) run3 now = Inr db'"
    using c unfolding recover_running_def
    by (cases "CollectionTaskWindowed (rTaskType run)") (auto simp: Let_def elim!: and_then_InrE split: if_split_asm)
  then show ?thesis
  proof cases
    case plain
    have "update_runs (\<lambda>r. rID r = ?i \<and> rStatus r = StRunning) ?f db = set_run ?i (?f run) db"
      using r plain by (intro update_runs_set_run [OF claims_ok_ids [OF ok]]) auto
    moreover have "claims_ok (set_run ?i (?f run) db)"
      by (rule claims_ok_plain [OF ok r plain(2,1)]) (auto simp: run_identity_def Let_def)
    ultimately show ?thesis using claims_ok_same_runs [OF statuses_same_runs [OF plain(3)]] by simp
  next
    case windows
    have "run_ids_ok ?db1" "run_by_id ?db1 ?i = Some run"
      using claims_ok_ids [OF ok] r by (auto simp: run_ids_ok_def update_windows_def run_by_id_def)
    from update_runs_set_run [OF this, of "\<lambda>q. rID q = ?i" "\<lambda>q. q"]
    have same: "set_run ?i run ?db1 = ?db1" by (simp add: update_runs_def update_where_def)
    have "claims_ok db2"
      by (rule yielded_keeps [OF ok r windows(1,2), where cur = run and c = ?code and b = ?budget and now = now
            and ws = "windows_by_hour db ?i" and initial = False])
        (use windows same in \<open>auto simp: set_windows_by_hour_of simp del: set_windows_by_hour\<close>)
    then have "claims_ok (update_runs (\<lambda>r. rID r = ?i) (\<lambda>r. r\<lparr>rHeartbeatAt := None, rUpdatedAt := autoNow\<rparr>) db2)"
      by (rule claims_ok_columns) (auto simp: run_identity_def)
    with \<open>claims_ok db2\<close> show ?thesis
      using claims_ok_same_runs [OF statuses_same_runs [OF windows(4)]] by (simp split: if_split_asm)
  qed (use ok in simp)
qed

lemma recoverRun_keeps:
  assumes "recoverRun autoNow db i now stale policy = Inr (db', b)" "claims_ok db"
  shows "claims_ok db'"
proof (cases "run_by_id db i")
  case (Some r)
  with assms(1) obtain run where "run_by_id db i = Some run" "recover_running autoNow db run now stale policy = Inr (db', b)"
    by (auto simp: recoverRun_def elim!: with_run_Inr)
  then show ?thesis using recover_running_keeps [OF _ assms(2)] run_by_id_self by blast
qed (use assms in \<open>simp add: recoverRun_def\<close>)

section \<open>Creating runs and their windows\<close>

lemma claims_ok_insert:
  assumes ok: "claims_ok db" and r: "rStatus r = StPending \<and> rActiveKey r \<noteq> None \<or> rStatus r = StFailed \<and> rActiveKey r = None"
    and tot: "rTotalWindows r = 0" and key: "\<forall>q \<in> set (runs db). rActiveKey r \<noteq> None \<longrightarrow> rActiveKey q \<noteq> rActiveKey r"
  shows "claims_ok (fst (insert_run db r))"
proof -
  let ?n = "next_run_id db" and ?r = "r\<lparr>rID := next_run_id db\<rparr>" and ?db = "fst (insert_run db r)"
  have ids: "\<forall>q \<in> set (runs db). rID q < ?n" "distinct (map rID (runs db))"
    using claims_ok_ids [OF ok] by (simp_all add: run_ids_ok_def)
  have w: "run_windows ?db = run_windows db" "next_window_id ?db = next_window_id db"
    by (simp_all add: insert_run_def Let_def)
  have runs: "set (runs ?db) = insert ?r {q \<in> set (runs db). rID q \<noteq> rID ?r}"
    using ids(1) by auto
  have none: "windows_of db ?n = []"
    using ok ids(1) by (fastforce simp: claims_ok_def windows_of_def filter_empty_conv)
  have "run_ids_ok ?db" using ids by (auto simp: run_ids_ok_def)
  moreover have "\<forall>v \<in> set (run_windows ?db). wID v < next_window_id ?db \<and> wRunID v \<in> rID ` set (runs ?db)"
    using ok unfolding w by (auto simp: claims_ok_def)
  moreover have "\<forall>q \<in> set (runs ?db). run_ok q (windows_of ?db (rID q))"
  proof -
    have wins: "windows_of ?db j = windows_of db j" for j by (simp add: windows_of_def w)
    have new: "run_ok ?r []" using r tot by (auto simp: run_ok_def)
    show ?thesis using ok new none unfolding runs wins by (simp add: claims_ok_def)
  qed
  moreover have "exclusive same_key (set (runs ?db))"
    unfolding runs using ok key by (intro exclusive_change [OF _ symp_same_key]) (auto simp: claims_ok_def same_key_def)
  moreover have "exclusive both_running (set (runs ?db))"
    unfolding runs using ok r by (intro exclusive_change [OF _ symp_both_running]) (auto simp: claims_ok_def both_running_def)
  ultimately show ?thesis using ok w by (simp add: claims_ok_def)
qed

lemma CreateOrGetRun_keeps:
  assumes "CreateOrGetRun db run = Inr (db', r, dedup)" and ok: "claims_ok db"
  shows "claims_ok db'"
proof -
  have v: "ValidateCollectionRunForCreate run = Inr ()" using assms(1) by (auto simp: CreateOrGetRun_def split: if_split_asm)
  then have p: "rStatus run = StPending" "rActiveKey run \<noteq> None" "rTotalWindows run = 0"
    by (auto simp: ValidateCollectionRunForCreate_def split: if_split_asm)
  from assms(1) consider "db' = db" | "db' = fst (insert_run db run)"
      "find (\<lambda>r. rActiveKey r \<noteq> None \<and> rActiveKey r = rActiveKey run) (runs db) = None"
    using v by (auto simp: CreateOrGetRun_def Let_def split_beta split: option.split_asm if_split_asm)
  then show ?thesis
  proof cases
    case 2
    then have "\<forall>q \<in> set (runs db). rActiveKey run \<noteq> None \<longrightarrow> rActiveKey q \<noteq> rActiveKey run"
      unfolding find_None_iff by metis
    then show ?thesis using claims_ok_insert [OF ok, of run] p 2(1) by simp
  qed (use ok in simp)
qed

lemma diagnostic_keeps:
  assumes "RecordScheduledSiteTaskDiagnostic db siteID t q e now = Inr (db', r, dedup)" and ok: "claims_ok db"
  shows "claims_ok db'"
proof -
  have tot: "NewSiteCollectionRun site spec = Inr run \<Longrightarrow> rTotalWindows run = 0" for site spec run
    by (auto simp: NewSiteCollectionRun_def and_then_Inr_conv split: if_split_asm)
  from assms(1) consider "db' = db" | site spec run where "NewSiteCollectionRun site spec = Inr run"
      "db' = fst (insert_run db (run\<lparr>rStatus := StFailed, rActiveKey := None, rErrorCode := e, rFinishedAt := Some now\<rparr>))"
    by (auto simp: RecordScheduledSiteTaskDiagnostic_def Let_def split_beta elim!: and_then_InrE
        split: option.split_asm if_split_asm)
  then show ?thesis
  proof cases
    case 2
    then show ?thesis using claims_ok_insert [OF ok] tot by simp
  qed (use ok in simp)
qed

text \<open>A run that is being materialized: no window of it is claimable yet.\<close>

definition materializing :: "store \<Rightarrow> int \<Rightarrow> bool" where
  "materializing db i \<longleftrightarrow> (\<exists>r. run_by_id db i = Some r \<and> rStatus r = StPending \<and> rWindowsInitializedAt r = None
     \<and> CollectionTaskWindowed (rTaskType r))"

lemma lockMaterialization_Inr:
  assumes "lockMaterializationExpectation db base = Inr (run, expected)"
  shows "run_by_id db (rID run) = Some run" "rStatus run = StPending" "rWindowsInitializedAt run = None"
    "CollectionTaskWindowed (rTaskType run)" "rID run = rID base"
proof -
  from assms have r: "run_by_id db (rID base) = Some run" "rStatus run = StPending \<and> rWindowsInitializedAt run = None
      \<and> CollectionTaskWindowed (rTaskType run)"
    by (auto simp: lockMaterializationExpectation_def expectedTaskWindowKeys_def elim!: and_then_InrE
        split: if_split_asm option.split_asm)
  then show "run_by_id db (rID run) = Some run" "rStatus run = StPending" "rWindowsInitializedAt run = None"
    "CollectionTaskWindowed (rTaskType run)" "rID run = rID base"
    using run_by_id_self [OF r(1)] run_by_id_Some [OF r(1)] by auto
qed

lemma insert_window_simps [simp]:
  "runs (insert_window i now db k) = runs db" "run_by_id (insert_window i now db k) j = run_by_id db j"
  by (simp_all add: insert_window_def run_by_id_def)

lemma insert_window_keeps:
  assumes ok: "claims_ok db" and m: "materializing db i"
  shows "claims_ok (insert_window i now db k)"
proof (cases "list_ex (\<lambda>w. wRunID w = i \<and> window_key w = k) (run_windows db)")
  case True
  then show ?thesis using ok by (simp add: insert_window_def)
next
  case False
  obtain r where r: "r \<in> set (runs db)" "rID r = i" "rStatus r = StPending" "rWindowsInitializedAt r = None"
    "CollectionTaskWindowed (rTaskType r)" "run_by_id db i = Some r"
    using m run_by_id_Some by (auto simp: materializing_def)
  let ?w = "new_window (next_window_id db) i now k" and ?db = "insert_window i now db k"
  have db: "run_windows ?db = run_windows db @ [?w]" "next_window_id ?db = next_window_id db + 1" "next_run_id ?db = next_run_id db"
    using False by (simp_all add: insert_window_def)
  have ids: "wID ?w = next_window_id db" "wRunID ?w = i" "wStatus ?w = StPending" by (simp_all add: new_window_def)
  have wins: "windows_of ?db j = (if j = i then windows_of db i @ [?w] else windows_of db j)" for j
    by (simp add: windows_of_def db ids)
  have "q = r" if "q \<in> set (runs db)" "rID q = i" for q
    using that r run_by_id_unique [of db i] claims_ok_ids [OF ok] by (simp add: run_ids_ok_def) (metis option.inject)
  moreover have "run_ok r (windows_of db i @ [?w])"
    using claims_ok_run [OF ok r(6)] r ids by (auto simp: run_ok_def)
  ultimately have "\<forall>q \<in> set (runs ?db). run_ok q (windows_of ?db (rID q))"
    using ok by (auto simp: wins claims_ok_def)
  moreover have "distinct (map wID (run_windows ?db))"
    using ok ids(1) by (fastforce simp: claims_ok_def db)
  moreover have "\<forall>w \<in> set (run_windows ?db). wID w < next_window_id ?db \<and> wRunID w \<in> rID ` set (runs ?db)"
  proof -
    have "\<forall>w \<in> set (run_windows db). wID w < next_window_id db \<and> wRunID w \<in> rID ` set (runs db)"
      using ok by (simp add: claims_ok_def)
    moreover have "i \<in> rID ` set (runs db)" using r(1,2) by blast
    ultimately show ?thesis by (auto simp: db ids)
  qed
  ultimately show ?thesis using ok db(3) by (simp add: claims_ok_def run_ids_ok_def)
qed

lemma insert_windows_keep:
  "claims_ok db \<Longrightarrow> materializing db i \<Longrightarrow> claims_ok (foldl (insert_window i now) db ks)"
  by (induction ks arbitrary: db) (auto simp: insert_window_keeps materializing_def)

lemma materialize_batch_keeps:
  assumes "materialize_batch db base expected chunk now = Inr db'" "claims_ok db"
  shows "claims_ok db'"
proof -
  from assms(1) obtain run where "lockMaterializationExpectation db base = Inr (run, expected)"
    "db' = foldl (insert_window (rID run) now) db chunk"
    by (auto simp: materialize_batch_def elim!: and_then_InrE split: if_split_asm)
  then show ?thesis
    using lockMaterialization_Inr [of db base run expected] insert_windows_keep [OF assms(2), of "rID run" now chunk]
    by (auto simp: materializing_def)
qed

lemma materialize_finish_keeps:
  assumes c: "materialize_finish db base expected now = Inr (db', run')" and ok: "claims_ok db"
  shows "claims_ok db'"
proof -
  define init where "init = (\<lambda>r :: CollectionRun. r\<lparr>rTotalWindows := int (length expected), rWindowsInitializedAt := Some now, rUpdatedAt := now\<rparr>)"
  from c obtain run db1 db2 where l: "lockMaterializationExpectation db base = Inr (run, expected)"
    and ws: "map window_key (windows_by_site db (rID run)) = expected" "\<forall>w \<in> set (windows_by_site db (rID run)). wStatus w = StPending"
    and rec: "recalculate_stored (update_runs (\<lambda>r. rID r = rID run \<and> rStatus r = StPending \<and> rWindowsInitializedAt r = None) init db)
        (init run) (windows_by_site db (rID run)) now None = Inr (db1, run')"
    and fin: "finalizeLocalRebuildLifecycle db1 run' now = Inr db2" "recalculateTaskBackfillStatuses db2 run' now = Inr db'"
    unfolding materialize_finish_def init_def
    by (auto simp: list_all_iff Let_def elim!: and_then_InrE split: if_split_asm)
  note lk = lockMaterialization_Inr [OF l]
  let ?i = "rID run" and ?ws = "windows_of db (rID run)"
  have "update_runs (\<lambda>r. rID r = ?i \<and> rStatus r = StPending \<and> rWindowsInitializedAt r = None) init db = set_run ?i (init run) db"
    using lk by (intro update_runs_set_run [OF claims_ok_ids [OF ok]]) auto
  with rec have rec': "recalculate_stored (set_run ?i (init run) db) (init run) (windows_by_site db ?i) now None = Inr (db1, run')" by simp
  have ini: "rID (init run) = ?i" "rStatus (init run) = StPending" "rActiveKey (init run) = rActiveKey run" by (simp_all add: init_def lk)
  have set: "set (windows_by_site db ?i) = set ?ws" "length ?ws = length expected"
    using arg_cong [OF ws(1), of length] by (simp_all add: windows_by_site_def)
  obtain f where f: "db1 = set_run ?i (f (init run)) (set_run ?i (init run) db)" "settled (init run) (f (init run)) (wStatus ` set ?ws)"
    using recalculated_stored [OF rec', of "init run"] ini lk(1) claims_ok_ids [OF ok] set(1) by auto
  have key: "rActiveKey run \<noteq> None" using claims_ok_run [OF ok lk(1)] lk(2) by (simp add: run_ok_def)
  have "run_ok (f (init run)) ?ws"
    by (rule run_ok_settled [OF f(2)]) (use key set ws(2) lk(4) in \<open>auto simp: init_def\<close>)
  then have rok: "run_ok (f (init run)) (map (\<lambda>w. w) ?ws)" by simp
  have id: "run_identity (f (init run)) = run_identity (init run)" using f(2) by (simp add: settled_def)
  have st: "rStatus (f (init run)) \<noteq> StRunning"
    using f(2) ws(2) set(1) by (auto simp: settled_def windows_status_def)
  have "claims_ok (set_windows ?i (\<lambda>w. w) (set_run ?i (f (init run)) db))"
    using id st f(2)
    by (intro claims_ok_change [OF ok lk(1) _ _ _ rok]) (auto simp: run_identity_def init_def settled_def)
  then have "claims_ok db1" using f(1) ini(1) by simp
  then show ?thesis
    using claims_ok_same_runs [OF finalize_same_runs [OF fin(1)]] claims_ok_same_runs [OF statuses_same_runs [OF fin(2)]] by simp
qed

section \<open>The site fence\<close>

lemma run_by_id_other: "rID r = i \<Longrightarrow> j \<noteq> i \<Longrightarrow> run_by_id (set_run i r db) j = run_by_id db j"
proof -
  assume "rID r = i" "j \<noteq> i"
  then have "find (\<lambda>x. rID x = j) (update_where (\<lambda>x. rID x = i) (\<lambda>_. r) xs) = find (\<lambda>x. rID x = j) xs" for xs
    by (induction xs) auto
  then show ?thesis by (simp add: run_by_id_def set_run_def update_runs_def)
qed

lemma inj_on_filter_ids: "inj_on rID (set (runs db)) \<Longrightarrow> inj_on rID {r \<in> set (runs db). P r}"
  by (auto simp: inj_on_def)

lemma forced_failure:
  assumes "RecalculateLockedCollectionRun run ws now (Some failure) = Inr f"
  shows "run_identity (f r) = run_identity r" "rStatus (f r) = StFailed" "rActiveKey (f r) = None"
  using assms by (auto simp: RecalculateLockedCollectionRun_def Let_def terminal_columns_def run_identity_def
      split: if_split_asm prod.split_asm)

lemma run_ok_terminal:
  assumes rok: "run_ok r ws" and r': "run_identity r' = run_identity r" "rStatus r' = StFailed" "rActiveKey r' = None"
    and g: "\<forall>w \<in> set ws. \<not> is_active (wStatus (g w)) \<and> known_status (wStatus (g w)) \<and> wStatus (g w) \<noteq> StRunning"
  shows "run_ok r' (map g ws)"
proof -
  have "rTaskType r' = rTaskType r" "rWindowsInitializedAt r' = rWindowsInitializedAt r" "rTotalWindows r' = rTotalWindows r"
    using r'(1) by (simp_all add: run_identity_def)
  moreover have "\<forall>w \<in> set (map g ws). \<not> is_active (wStatus w)" "\<forall>w \<in> set (map g ws). known_status (wStatus w)"
    "\<forall>w \<in> set (map g ws). wStatus w \<noteq> StRunning" using g by auto
  ultimately show ?thesis using rok r'(2,3) unfolding run_ok_def by auto
qed

lemma FailLocked_keeps:
  assumes c: "FailLockedCollectionRun db run ws failure now = Inr (db', run')" and ok: "claims_ok db"
    and r: "run_by_id db (rID run) = Some run" "is_active (rStatus run)"
  shows "claims_ok db' \<and> (\<forall>i. i \<noteq> rID run \<longrightarrow> run_by_id db' i = run_by_id db i \<and> windows_of db' i = windows_of db i)"
proof -
  let ?i = "rID run"
  let ?g = "\<lambda>w. if wRunID w = ?i \<and> is_active (wStatus w) then fail_window failure now w else w"
  have g: "window_change ?g" by (simp add: window_change_def fail_window_def)
  note gD = window_changeD [OF g]
  have u: "update_windows (\<lambda>w. wRunID w = ?i \<and> is_active (wStatus w)) (fail_window failure now) db = set_windows ?i ?g db"
    by (rule update_windows_set_windows) simp
  from c obtain ws1 f where f: "RecalculateLockedCollectionRun run ws1 now (Some failure) = Inr f"
    "db' = write_run ?i f (set_windows ?i ?g db)"
    unfolding u [symmetric] by (auto simp: FailLockedCollectionRun_def recalculate_stored_def Let_def elim!: and_then_InrE split: if_split_asm)
  note ff = forced_failure [OF f(1)]
  have ri: "rID (f run) = ?i" using ff(1) [of run] by (simp add: run_identity_def)
  have ids: "run_ids_ok (set_windows ?i ?g db)" using claims_ok_ids [OF ok] by (simp add: run_ids_ok_def)
  have db': "db' = set_windows ?i ?g (set_run ?i (f run) db)"
    using f(2) write_run_set_run [OF ids, of ?i run f] r(1) by (simp add: set_run_windows_commute)
  have rok: "run_ok run (windows_of db ?i)" using claims_ok_run [OF ok r(1)] .
  have "\<forall>w \<in> set (windows_of db ?i). \<not> is_active (wStatus (?g w)) \<and> known_status (wStatus (?g w)) \<and> wStatus (?g w) \<noteq> StRunning"
    using rok by (auto simp: run_ok_def fail_window_def windows_of_member)
  then have loc: "run_ok (f run) (map ?g (windows_of db ?i))"
    by (intro run_ok_terminal [OF rok]) (use ff [of run] in auto)
  have "claims_ok db'"
    unfolding db' using ff [of run] by (intro claims_ok_change [OF ok r(1) ri gD(1,2) loc]) (auto simp: run_identity_def)
  moreover have "run_by_id db' i = run_by_id db i" if "i \<noteq> ?i" for i
    unfolding db' using that ri by (simp add: run_by_id_other)
  moreover have "windows_of db' i = windows_of db i" if "i \<noteq> ?i" for i
    unfolding db' using that by (simp add: windows_of_set_windows [OF gD(1)])
  ultimately show ?thesis by blast
qed

lemma fail_runs_keep:
  assumes "fail_runs siteID v db rs now = Inr db'" "claims_ok db" "distinct (map (rID \<circ> fst) rs)"
    and "\<forall>p \<in> set rs. run_by_id db (rID (fst p)) = Some (fst p) \<and> is_active (rStatus (fst p))"
  shows "claims_ok db'"
  using assms
proof (induction siteID v db rs now rule: fail_runs.induct)
  case (2 siteID v db run ws rest now)
  then obtain db1 run1 where f: "FailLockedCollectionRun db run ws
      (CodeSiteConfigChanged, fence_params siteID (rSiteConfigVersion run) v) now = Inr (db1, run1)"
    "fail_runs siteID v db1 rest now = Inr db'" by (auto elim!: and_then_InrE)
  have k: "claims_ok db1" "\<And>i. i \<noteq> rID run \<Longrightarrow> run_by_id db1 i = run_by_id db i"
    using FailLocked_keeps [OF f(1) 2(3)] 2(5) by auto
  have "run_by_id db1 (rID (fst p)) = Some (fst p) \<and> is_active (rStatus (fst p))" if "p \<in> set rest" for p
    using that 2(4,5) k(2) [of "rID (fst p)"] by (auto simp: image_iff)
  then show ?case using 2(1) [of db1] f(2) k(1) 2(4) by simp
qed simp

lemma BumpSiteFence_keeps:
  assumes c: "BumpSiteFence db siteID v now = Inr db'" and ok: "claims_ok db"
  shows "claims_ok db'"
proof -
  from c obtain ids db1 db2 as cs where fr: "fail_runs siteID (v + 1) db (map (\<lambda>r. (r, windows_by_hour db (rID r))) (lockSiteFenceRuns db ids)) now = Inr db1"
    "recalculateSiteFenceBackfillStatuses db1 as cs now = Inr db2"
    "db' = db2\<lparr>sites := update_where (\<lambda>s. sID s = siteID) (\<lambda>s. s\<lparr>sConfigVersion := v + 1, sUpdatedAt := now\<rparr>) (sites db2)\<rparr>"
    by (auto simp: BumpSiteFence_def Let_def elim!: and_then_InrE split: if_split_asm)
  have d: "distinct (map rID (runs db))" using claims_ok_ids [OF ok] by (simp add: run_ids_ok_def)
  have "distinct (map rID (lockSiteFenceRuns db ids))"
    using d unfolding lockSiteFenceRuns_def by (simp add: distinct_map distinct_filter inj_on_filter_ids)
  then have "claims_ok db1"
    by (intro fail_runs_keep [OF fr(1) ok])
      (auto simp: lockSiteFenceRuns_def run_by_id_unique [OF d] comp_def)
  then show ?thesis
    using claims_ok_same_runs [OF fence_statuses_same_runs [OF fr(2)]] claims_ok_cong [of db' db2] fr(3) by simp
qed

end
