(* ===== verification/Claim_Properties.thy ===== *)
theory Claim_Properties
  imports Claim_Steps
begin

text \<open>
  The claim protocol as a transition system and what holds of it: the invariant in every reachable
  store, fencing of stale workers, claiming by pages as one ordered scan, the effect of the site fence,
  and the acceptance of executor outcomes.
\<close>

section \<open>The transition system\<close>

text \<open>One step is one committed transaction. Any worker may take any step at any time.\<close>

inductive claim_step :: "store \<Rightarrow> store \<Rightarrow> bool" where
  create_windows: "CreateSiteWindowRun db request = Inr (db', rs) \<Longrightarrow> claim_step db db'"
| enqueue: "EnqueueSiteTask db task = Inr (db', r, dedup) \<Longrightarrow> claim_step db db'"
| create: "CreateOrGetRun db run = Inr (db', r, dedup) \<Longrightarrow> claim_step db db'"
| diagnostic: "RecordScheduledSiteTaskDiagnostic db siteID t q e now = Inr (db', r, dedup) \<Longrightarrow> claim_step db db'"
| batch: "materialize_batch db base expected chunk now = Inr db' \<Longrightarrow> claim_step db db'"
| finish: "materialize_finish db base expected now = Inr (db', r) \<Longrightarrow> claim_step db db'"
| claim: "ClaimNext db opts = Inr (db', cl) \<Longrightarrow> claim_step db db'"
| commit: "CommitClaim autoNow db cq = Inr (db', r) \<Longrightarrow> claim_step db db'"
| complete_window: "CompleteClaimedWindow autoNow db i q now out m = Inr (db', r) \<Longrightarrow> claim_step db db'"
| release_owned: "ReleaseOwnedRunning db i q now policy = Inr (db', n) \<Longrightarrow> claim_step db db'"
| heartbeat: "Heartbeat db i q now = Inr db' \<Longrightarrow> claim_step db db'"
| recover: "recoverRun autoNow db i now stale policy = Inr (db', b) \<Longrightarrow> claim_step db db'"
| fence: "BumpSiteFence db siteID v now = Inr db' \<Longrightarrow> claim_step db db'"

definition claims_start :: "store \<Rightarrow> bool" where
  "claims_start db \<longleftrightarrow> runs db = [] \<and> run_windows db = []"

lemma create_gaps_keeps:
  "create_gaps site request db gs = Inr (db', rs) \<Longrightarrow> claims_ok db \<Longrightarrow> claims_ok db'"
proof (induction site request db gs arbitrary: rs rule: create_gaps.induct)
  case (2 site request db g gs)
  then obtain db1 r d rs' where c: "createSiteWindowGap site request db g = Inr (db1, r, d)"
    "create_gaps site request db1 gs = Inr (db', rs')" by (auto elim!: and_then_InrE)
  then have "claims_ok db1"
    using CreateOrGetRun_keeps [OF _ 2(3)] by (auto simp: createSiteWindowGap_def elim!: and_then_InrE)
  then show ?case using 2(1) c by auto
qed simp

lemma create_uncovered_keeps:
  "create_uncovered site request db gs = Inr (db', rs) \<Longrightarrow> claims_ok db \<Longrightarrow> claims_ok db'"
proof (induction site request db gs arbitrary: rs rule: create_uncovered.induct)
  case (2 site request db g gs)
  from 2(2) obtain cs db1 rs1 rs2 where "create_gaps site request db cs = Inr (db1, rs1)"
    "create_uncovered site request db1 gs = Inr (db', rs2)"
    unfolding create_uncovered.simps by (auto elim!: and_then_InrE)
  then show ?case using create_gaps_keeps 2(1,3) by fastforce
qed simp

lemma CreateSiteWindowRun_keeps:
  assumes "CreateSiteWindowRun db request = Inr (db', rs)" "claims_ok db"
  shows "claims_ok db'"
proof -
  from assms(1) consider site active where "create_strict site request db active = Inr (db', rs)"
    | site gs where "create_uncovered site request db gs = Inr (db', rs)"
    by (auto simp: CreateSiteWindowRun_def Let_def elim!: and_then_InrE split: if_split_asm option.split_asm)
  then show ?thesis
  proof cases
    case 1
    then show ?thesis using create_gaps_keeps [OF _ assms(2)] assms(2)
      unfolding create_strict_def by (auto split: option.split_asm if_split_asm simp del: create_gaps.simps)
  qed (rule create_uncovered_keeps [OF _ assms(2)])
qed

lemma EnqueueSiteTask_keeps:
  assumes "EnqueueSiteTask db request = Inr (db', r, dedup)" "claims_ok db"
  shows "claims_ok db'"
proof -
  from assms(1) consider "db' = db" | q rs where "CreateSiteWindowRun db q = Inr (db', rs)"
    | run where "CreateOrGetRun db run = Inr (db', r, dedup)"
    by (auto simp: EnqueueSiteTask_def elim!: and_then_InrE split: if_split_asm option.split_asm list.split_asm)
  then show ?thesis using CreateSiteWindowRun_keeps CreateOrGetRun_keeps assms(2) by cases auto
qed

lemma claim_step_keeps: "claim_step db db' \<Longrightarrow> claims_ok db \<Longrightarrow> claims_ok db'"
  by (induction rule: claim_step.induct)
    (blast intro: CreateSiteWindowRun_keeps EnqueueSiteTask_keeps CreateOrGetRun_keeps diagnostic_keeps materialize_batch_keeps
      materialize_finish_keeps ClaimNext_keeps CommitClaim_keeps CompleteClaimedWindow_keeps ReleaseOwnedRunning_keeps
      Heartbeat_keeps recoverRun_keeps BumpSiteFence_keeps)+

lemma claims_start_ok: "claims_start db \<Longrightarrow> claims_ok db"
  by (simp add: claims_start_def claims_ok_def run_ids_ok_def exclusive_def)

interpretation claims: invariant_system claims_start claim_step claims_ok
  by unfold_locales (blast intro: claims_start_ok claim_step_keeps)+

text \<open>The operations that commit several transactions are sequences of steps.\<close>

lemma materialize_batches_steps:
  "materialize_batches db base expected cs now = (db', e) \<Longrightarrow> claim_step\<^sup>*\<^sup>* db db'"
proof (induction db base expected cs now rule: materialize_batches.induct)
  case (2 db base expected c cs now)
  show ?case
  proof (cases "materialize_batch db base expected c now")
    case (Inr db1)
    then have "claim_step db db1" by (rule claim_step.batch)
    moreover have "claim_step\<^sup>*\<^sup>* db1 db'" using 2 Inr by simp
    ultimately show ?thesis by (rule converse_rtranclp_into_rtranclp)
  qed (use 2 in simp)
qed simp

lemma MaterializeRunWindows_steps: "claim_step\<^sup>*\<^sup>* db (fst (MaterializeRunWindows db i now n))"
proof (cases "i \<le> 0 \<or> now \<le> 0")
  case False
  show ?thesis
  proof (cases "loadMaterializationExpectation db i")
    case (Inr p)
    obtain base expected where p: "p = (base, expected)" by force
    obtain db1 e where b: "materialize_batches db base expected
        (batches (nat (if n \<le> 0 \<or> n > 1000 then 1000 else n)) expected) now = (db1, e)" by force
    note s = materialize_batches_steps [OF b]
    show ?thesis
    proof (cases "e = None")
      case True
      show ?thesis
      proof (cases "materialize_finish db1 base expected now")
        case (Inr q)
        obtain db2 r where q: "q = (db2, r)" by force
        have "claim_step db1 db2" using Inr q by (simp add: claim_step.finish)
        then show ?thesis using s Inr \<open>loadMaterializationExpectation db i = Inr p\<close> p b q True False
          by (simp add: MaterializeRunWindows_def)
      qed (use s Inr p b True False in \<open>simp add: MaterializeRunWindows_def\<close>)
    qed (use s Inr p b False in \<open>auto simp: MaterializeRunWindows_def\<close>)
  qed (use False in \<open>simp add: MaterializeRunWindows_def\<close>)
qed (simp add: MaterializeRunWindows_def)

lemma recover_ids_steps: "recover_ids autoNow db ids now stale policy = (db', n, e) \<Longrightarrow> claim_step\<^sup>*\<^sup>* db db'"
proof (induction autoNow db ids now stale policy arbitrary: n rule: recover_ids.induct)
  case (2 autoNow db i rest now stale policy)
  show ?case
  proof (cases "recoverRun autoNow db i now stale policy")
    case (Inr p)
    obtain db1 b where p: "p = (db1, b)" by force
    with Inr have "claim_step db db1" by (simp add: claim_step.recover)
    moreover obtain m where "recover_ids autoNow db1 rest now stale policy = (db', m, e)"
      using 2(2) Inr p by (auto split: prod.split_asm)
    then have "claim_step\<^sup>*\<^sup>* db1 db'" using 2(1) [OF Inr p [symmetric]] by simp
    ultimately show ?thesis by (rule converse_rtranclp_into_rtranclp)
  qed (use 2 in simp)
qed simp

section \<open>Stale workers\<close>

definition holds_claim :: "store \<Rightarrow> int \<Rightarrow> string \<Rightarrow> bool" where
  "holds_claim db i q \<longleftrightarrow> (case run_by_id db i of None \<Rightarrow> False | Some r \<Rightarrow> rStatus r = StRunning \<and> rLastRequestID r = q)"

lemma commit_needs_claim: "CommitClaim autoNow db request = Inr y \<Longrightarrow> holds_claim db (cqRunID request) (cqRequestID request)"
  by (auto simp: CommitClaim_def holds_claim_def elim!: with_run_Inr split: if_split_asm)

lemma complete_needs_claim: "CompleteClaimedWindow autoNow db i q now out m = Inr y \<Longrightarrow> holds_claim db i q"
  by (auto simp: CompleteClaimedWindow_def holds_claim_def elim!: with_run_Inr split: if_split_asm)

lemma heartbeat_needs_claim:
  assumes "Heartbeat db i q now = Inr db'" "claims_ok db"
  shows "holds_claim db i q"
proof -
  from assms(1) have "rows_affected (\<lambda>r. rID r = i \<and> rStatus r = StRunning \<and> rLastRequestID r = q)
      (\<lambda>r. r\<lparr>rHeartbeatAt := Some now, rUpdatedAt := now\<rparr>) (runs db) = 1"
    by (auto simp: Heartbeat_def Let_def elim!: with_run_Inr split: if_split_asm)
  then have "rows_affected (\<lambda>r. rID r = i \<and> rStatus r = StRunning \<and> rLastRequestID r = q)
      (\<lambda>r. r\<lparr>rHeartbeatAt := Some now, rUpdatedAt := now\<rparr>) (runs db) \<noteq> 0" by simp
  from rows_affected_pos [OF this] obtain r where
    r: "r \<in> set (runs db)" "rID r = i" "rStatus r = StRunning" "rLastRequestID r = q" by blast
  then have "run_by_id db i = Some r"
    using run_by_id_unique [of db i r] claims_ok_ids [OF assms(2)] by (simp add: run_ids_ok_def)
  then show ?thesis using r by (simp add: holds_claim_def)
qed

lemma release_without_claim: "ReleaseOwnedRunning db i q now policy = Inr (db', n) \<Longrightarrow> \<not> holds_claim db i q \<Longrightarrow> db' = db"
  by (auto simp: ReleaseOwnedRunning_def holds_claim_def release_running_def Let_def elim!: with_run_Inr split: if_split_asm)

lemma claim_owner:
  assumes "ClaimNext db opts = Inr (db', claim)" "claims_ok db"
  shows "\<exists>r. run_by_id db' (rID (clRun claim)) = Some r \<and> rStatus r = StRunning \<and> rLastRequestID r = coRequestID opts
    \<and> run_by_id db (rID r) \<noteq> None"
proof -
  have q: "coRequestID (normal_options opts) = coRequestID opts" by (simp add: normal_options_def Let_def)
  from assms(1) have "claim_loop db (normal_options opts) None = Inr (db', claim)"
    by (simp add: ClaimNext_def split: if_split_asm)
  from claim_loop_Inr [OF this] obtain c where c: "claimCandidate db c (normal_options opts) = Inr (db', claim)" by blast
  show ?thesis using c
  proof (cases rule: claimCandidate_Inr)
    case (1 scope run)
    let ?o = "normal_options opts" and ?i = "rID run"
    let ?W = "\<lambda>w. wID w \<in> set (map wID (claim_windows db run ?o)) \<and> wStatus w = StPending"
    let ?db1 = "update_windows ?W (start_window (coNow ?o)) db"
    let ?P = "\<lambda>r. rID r = ?i \<and> rStatus r = StPending \<and> rLastRequestID r = rLastRequestID run"
    have r: "run_by_id db ?i = Some run" using run_by_id_self [OF 1(2)] .
    have r1: "run_by_id ?db1 ?i = Some run" "run_ids_ok ?db1" using r claims_ok_ids [OF assms(2)]
      by (simp_all add: run_by_id_def update_windows_def run_ids_ok_def)
    have "update_runs ?P (start_run ?o) ?db1 = set_run ?i (start_run ?o run) ?db1"
      by (rule update_runs_set_run [OF r1(2,1)]) (use 1(3) in auto)
    moreover have "run_by_id (set_run ?i (start_run ?o run) ?db1) ?i = Some (start_run ?o run)"
      using r1(1) by simp
    ultimately have "run_by_id db' ?i = Some (start_run ?o run)"
      using statuses_same_runs [OF 1(13)] by (simp add: same_runs_def run_by_id_def)
    then show ?thesis using r 1(14) q by (auto simp: start_run_def)
  qed
qed

section \<open>Claiming by pages\<close>

definition eligible_in_order :: "store \<Rightarrow> CollectionTaskClaimOptions \<Rightarrow> claim_key option \<Rightarrow> CollectionRun list" where
  "eligible_in_order db opts cursor = sort_key newCollectionTaskClaimCursor (filter (\<lambda>r. claim_eligible opts r
     \<and> (case cursor of None \<Rightarrow> True | Some c \<Rightarrow> newCollectionTaskClaimCursor r > c)) (runs db))"

lemma try_candidates_append:
  "try_candidates db opts (xs @ ys) = (case try_candidates db opts xs of None \<Rightarrow> try_candidates db opts ys | Some r \<Rightarrow> Some r)"
  by (induction xs) (auto split: sum.splits)

lemma filter_after_last:
  fixes k :: "'a \<Rightarrow> 'b::linorder"
  assumes "sorted_wrt (\<lambda>x y. k x < k y) xs" "0 < n" "xs \<noteq> []"
  shows "filter (\<lambda>x. k (last (take n xs)) < k x) xs = drop n xs"
proof -
  let ?l = "last (take n xs)"
  have ne: "take n xs \<noteq> []" using assms(2,3) by simp
  have split: "sorted_wrt (\<lambda>x y. k x < k y) (take n xs @ drop n xs)" using assms(1) by simp
  have "\<not> k ?l < k x" if "x \<in> set (take n xs)" for x
  proof -
    have "take n xs = butlast (take n xs) @ [?l]" using ne by simp
    then have "sorted_wrt (\<lambda>x y. k x < k y) (butlast (take n xs) @ [?l])" "x \<in> set (butlast (take n xs) @ [?l])"
      using split that by (simp_all add: sorted_wrt_append)
    then show ?thesis by (auto simp: sorted_wrt_append)
  qed
  moreover have "k ?l < k x" if "x \<in> set (drop n xs)" for x
    using split [unfolded sorted_wrt_append] that last_in_set [OF ne] by blast
  ultimately have "filter (\<lambda>x. k ?l < k x) (take n xs @ drop n xs) = drop n xs" by (auto simp: filter_empty_conv filter_id_conv simp del: append_take_drop_id)
  then show ?thesis by simp
qed

lemma eligible_strict:
  assumes "run_ids_ok db"
  shows "sorted_wrt (\<lambda>x y. newCollectionTaskClaimCursor x < newCollectionTaskClaimCursor y) (eligible_in_order db opts cursor)"
proof -
  let ?k = newCollectionTaskClaimCursor
  have k: "?k x = ?k y \<Longrightarrow> rID x = rID y" for x y by (simp add: newCollectionTaskClaimCursor_def)
  have d: "distinct (runs db)" "inj_on rID (set (runs db))" using assms by (simp_all add: run_ids_ok_def distinct_map)
  have "inj_on ?k (set (runs db))" by (rule inj_onI) (rule inj_onD [OF d(2) k])
  then have "inj_on ?k (set (eligible_in_order db opts cursor))"
    by (rule inj_on_subset) (auto simp: eligible_in_order_def)
  moreover have "distinct (eligible_in_order db opts cursor)" using d(1) by (simp add: eligible_in_order_def)
  ultimately have "distinct (map ?k (eligible_in_order db opts cursor))" by (simp add: distinct_map)
  moreover have "sorted (map ?k (eligible_in_order db opts cursor))" by (simp add: eligible_in_order_def)
  ultimately have "sorted_wrt (<) (map ?k (eligible_in_order db opts cursor))" by (simp add: strict_sorted_iff)
  then show ?thesis by (simp add: sorted_wrt_map)
qed

lemma next_page:
  assumes "run_ids_ok db" "claim_page db opts cursor \<noteq> []" "0 < coScanLimit opts"
  shows "eligible_in_order db opts (Some (newCollectionTaskClaimCursor (last (claim_page db opts cursor))))
    = drop (nat (coScanLimit opts)) (eligible_in_order db opts cursor)"
proof -
  let ?k = newCollectionTaskClaimCursor and ?E = "eligible_in_order db opts cursor" and ?n = "nat (coScanLimit opts)"
  have pg: "claim_page db opts cursor = take ?n ?E" by (simp add: claim_page_def eligible_in_order_def)
  let ?l = "last (take ?n ?E)"
  have l: "?l \<in> set ?E" using assms(2) unfolding pg by (metis in_set_takeD last_in_set)
  have "x \<in> set ?E \<Longrightarrow> claim_eligible opts x \<and> (case cursor of None \<Rightarrow> True | Some c \<Rightarrow> ?k x > c)" for x
    by (simp add: eligible_in_order_def)
  from this [OF l] have after: "claim_eligible opts ?l \<and> (case cursor of None \<Rightarrow> True | Some c \<Rightarrow> ?k ?l > c)" .
  have "eligible_in_order db opts (Some c) = filter (\<lambda>r. c < ?k r) ?E"
    if "case cursor of None \<Rightarrow> True | Some c' \<Rightarrow> c > c'" for c
    unfolding eligible_in_order_def filter_sort filter_filter
    using that by (intro arg_cong [where f = "sort_key ?k"] filter_cong) (auto split: option.splits)
  then have "eligible_in_order db opts (Some (?k ?l)) = filter (\<lambda>r. ?k ?l < ?k r) ?E" using after by blast
  also have "\<dots> = drop ?n ?E"
    using eligible_strict [OF assms(1)] assms(2,3) unfolding pg by (intro filter_after_last) auto
  finally show ?thesis unfolding pg .
qed

lemma claim_loop_scan:
  assumes "run_ids_ok db" "0 < coScanLimit opts"
  shows "claim_loop db opts cursor = (case try_candidates db opts (eligible_in_order db opts cursor) of
     None \<Rightarrow> Inl ErrCollectionTaskUnavailable | Some r \<Rightarrow> r)"
  using assms
proof (induction db opts cursor rule: claim_loop.induct)
  case (1 db opts cursor)
  let ?E = "eligible_in_order db opts cursor" and ?n = "nat (coScanLimit opts)" and ?p = "claim_page db opts cursor"
  have pg: "?p = take ?n ?E" by (simp add: claim_page_def eligible_in_order_def)
  have all: "try_candidates db opts ?E = (case try_candidates db opts ?p of
      None \<Rightarrow> try_candidates db opts (drop ?n ?E) | Some r \<Rightarrow> Some r)"
    unfolding pg try_candidates_append [symmetric] by simp
  show ?case
  proof (cases "int (length ?p) < coScanLimit opts \<or> ?p = []")
    case True
    then have "drop ?n ?E = []" using 1(3) unfolding pg by auto
    with True all show ?thesis
      by (subst claim_loop.simps) (auto simp: Let_def split: option.splits)
  next
    case False
    then have "eligible_in_order db opts (Some (newCollectionTaskClaimCursor (last ?p))) = drop ?n ?E"
      using next_page 1(2,3) by blast
    with False all 1(1) [OF refl _ False 1(2,3)] show ?thesis
      by (subst claim_loop.simps) (auto simp: Let_def split: option.splits)
  qed
qed

section \<open>A concrete history\<close>

definition sample_options :: "string \<Rightarrow> int \<Rightarrow> CollectionTaskClaimOptions" where
  "sample_options q now = \<lparr>coTaskTypes = [TaskTypeUsageValidation], coPriority = None, coExcludePriority = None,
     coNow = now, coRequestID = q, coMaxWindow = 0, coScanLimit = 0\<rparr>"

definition sample_ready :: store where
  "sample_ready = fst (MaterializeRunWindows sample_store1 1 50001 1)"

definition sample_claimed :: store where
  "sample_claimed = result_store (ClaimNext sample_ready (sample_options ''w1'' 50002))"

definition is_inr :: "'a + 'b \<Rightarrow> bool" where
  "is_inr r = (case r of Inl _ \<Rightarrow> False | Inr _ \<Rightarrow> True)"

lemma is_inr_store: "is_inr r \<Longrightarrow> \<exists>x. r = Inr (result_store r, x)"
  by (cases r) (auto simp: is_inr_def result_store_def)

lemma sample_claim: "\<exists>cl. ClaimNext sample_ready (sample_options ''w1'' 50002) = Inr (sample_claimed, cl)"
proof -
  have "is_inr (ClaimNext sample_ready (sample_options ''w1'' 50002))" by code_simp
  then show ?thesis unfolding sample_claimed_def by (rule is_inr_store)
qed

lemma sample_history: "claims_start sample_store" "claim_step\<^sup>*\<^sup>* sample_store sample_claimed"
  and sample_running: "map wStatus (run_windows sample_claimed) = [StRunning]"
proof -
  show "claims_start sample_store" by (simp add: claims_start_def sample_store_def)
  have "claim_step sample_store sample_store1" using sample_first claim_step.create_windows by blast
  moreover have "claim_step\<^sup>*\<^sup>* sample_store1 sample_ready" unfolding sample_ready_def by (rule MaterializeRunWindows_steps)
  moreover have "claim_step sample_ready sample_claimed" using sample_claim claim_step.claim by blast
  ultimately show "claim_step\<^sup>*\<^sup>* sample_store sample_claimed"
    by (meson converse_rtranclp_into_rtranclp rtranclp.rtrancl_into_rtrancl)
  show "map wStatus (run_windows sample_claimed) = [StRunning]" by code_simp
qed

section \<open>Properties of the claim protocol\<close>

text \<open>
  C6. In every store that any interleaving of the claim protocol's transactions can produce, a window
  belongs to a stored run; a running window's run is running and an unfinished window's run is
  unfinished; a run holds its active key exactly while it is unfinished; no two runs share an active
  key; and at most one run of a task type is running for a site.
\<close>

theorem reachable_claims_consistent:
  assumes "claims_start db0" "claim_step\<^sup>*\<^sup>* db0 db"
  shows "(\<forall>w \<in> set (run_windows db). \<exists>r \<in> set (runs db). rID r = wRunID w
        \<and> (wStatus w = StRunning \<longrightarrow> rStatus r = StRunning) \<and> (is_active (wStatus w) \<longrightarrow> is_active (rStatus r)))
    \<and> (\<forall>r \<in> set (runs db). is_active (rStatus r) \<longleftrightarrow> rActiveKey r \<noteq> None)
    \<and> (\<forall>r \<in> set (runs db). \<forall>q \<in> set (runs db). rActiveKey r \<noteq> None \<longrightarrow> rActiveKey r = rActiveKey q \<longrightarrow> r = q)
    \<and> (\<forall>r \<in> set (runs db). \<forall>q \<in> set (runs db). rStatus r = StRunning \<longrightarrow> rStatus q = StRunning
        \<longrightarrow> rTargetType r = ''site'' \<longrightarrow> rTargetType q = ''site'' \<longrightarrow> rSiteID r \<noteq> None \<longrightarrow> rSiteID r = rSiteID q
        \<longrightarrow> rTaskType r = rTaskType q \<longrightarrow> r = q)"
proof -
  have ok: "claims_ok db" using claims.reachable_inv [OF assms] .
  have u: "r = q" if "r \<in> set (runs db)" "q \<in> set (runs db)" "rID r = rID q" for r q
    using that ok by (auto simp: claims_ok_def run_ids_ok_def distinct_map inj_on_def)
  have wins: "\<exists>r \<in> set (runs db). rID r = wRunID w \<and> (wStatus w = StRunning \<longrightarrow> rStatus r = StRunning)
      \<and> (is_active (wStatus w) \<longrightarrow> is_active (rStatus r))" if w: "w \<in> set (run_windows db)" for w
  proof -
    obtain r where r: "r \<in> set (runs db)" "rID r = wRunID w" using ok w by (auto simp: claims_ok_def)
    then have "run_ok r (windows_of db (wRunID w))" using ok by (auto simp: claims_ok_def)
    moreover have "w \<in> set (windows_of db (wRunID w))" using w by (simp add: windows_of_member)
    ultimately show ?thesis using r unfolding run_ok_def by blast
  qed
  moreover have "\<forall>r \<in> set (runs db). is_active (rStatus r) \<longleftrightarrow> rActiveKey r \<noteq> None"
    using ok unfolding claims_ok_def run_ok_def by blast
  moreover have "exclusive same_key (set (runs db))" "exclusive both_running (set (runs db))"
    using ok by (simp_all add: claims_ok_def)
  ultimately show ?thesis
    using u unfolding exclusive_def same_key_def both_running_def same_slot_def by blast
qed

theorem reachable_claims_consistent_witness:
  "claim_step\<^sup>*\<^sup>* sample_store sample_claimed \<and> map wStatus (run_windows sample_claimed) = [StRunning]
    \<and> (\<exists>r \<in> set (runs sample_claimed). rStatus r = StRunning)"
proof -
  obtain w where w: "w \<in> set (run_windows sample_claimed)" "wStatus w = StRunning"
    using sample_running by (cases "run_windows sample_claimed") auto
  then show ?thesis
    using reachable_claims_consistent [OF sample_history] sample_history(2) sample_running by blast
qed

text \<open>
  C7. A claim fences out every other worker: after a run is claimed under one request identifier, a
  commit, a window completion or a heartbeat under any other identifier fails, and a release under it
  changes nothing.
\<close>

theorem stale_worker_rejected:
  assumes "ClaimNext db opts = Inr (db', claim)" "claims_ok db" "q \<noteq> coRequestID opts"
  shows "(\<forall>autoNow request. cqRunID request = rID (clRun claim) \<and> cqRequestID request = q
        \<longrightarrow> (\<exists>e. CommitClaim autoNow db' request = Inl e))
    \<and> (\<forall>autoNow now out m. \<exists>e. CompleteClaimedWindow autoNow db' (rID (clRun claim)) q now out m = Inl e)
    \<and> (\<forall>now. \<exists>e. Heartbeat db' (rID (clRun claim)) q now = Inl e)
    \<and> (\<forall>now policy db'' n. ReleaseOwnedRunning db' (rID (clRun claim)) q now policy = Inr (db'', n) \<longrightarrow> db'' = db')"
proof -
  have no: "\<not> holds_claim db' (rID (clRun claim)) q"
    using claim_owner [OF assms(1,2)] assms(3) by (auto simp: holds_claim_def)
  have ok: "claims_ok db'" using ClaimNext_keeps [OF assms(1,2)] .
  have commit: "\<exists>e. CommitClaim autoNow db' request = Inl e"
    if "cqRunID request = rID (clRun claim)" "cqRequestID request = q" for autoNow request
    using commit_needs_claim [of autoNow db' request] no that by (cases "CommitClaim autoNow db' request") auto
  have complete: "\<exists>e. CompleteClaimedWindow autoNow db' (rID (clRun claim)) q now out m = Inl e" for autoNow now out m
    using complete_needs_claim [of autoNow db' "rID (clRun claim)" q now out m] no
    by (cases "CompleteClaimedWindow autoNow db' (rID (clRun claim)) q now out m") auto
  have beat: "\<exists>e. Heartbeat db' (rID (clRun claim)) q now = Inl e" for now
    using heartbeat_needs_claim [of db' "rID (clRun claim)" q now] ok no
    by (cases "Heartbeat db' (rID (clRun claim)) q now") auto
  show ?thesis using commit complete beat release_without_claim [OF _ no] by metis
qed

theorem stale_worker_rejected_witness:
  "\<exists>cl. ClaimNext sample_ready (sample_options ''w1'' 50002) = Inr (sample_claimed, cl)
    \<and> (\<exists>e. Heartbeat sample_claimed (rID (clRun cl)) ''w0'' 50003 = Inl e)"
proof -
  obtain cl where cl: "ClaimNext sample_ready (sample_options ''w1'' 50002) = Inr (sample_claimed, cl)"
    using sample_claim by blast
  have "claim_step sample_store sample_store1" using sample_first claim_step.create_windows by blast
  then have "claims_ok sample_store1" using claims.start_inv [OF sample_history(1)] by (rule claim_step_keeps)
  then have "claims_ok sample_ready" unfolding sample_ready_def by (rule claims.steps_inv [OF MaterializeRunWindows_steps])
  moreover have "''w0'' \<noteq> coRequestID (sample_options ''w1'' 50002)" by (simp add: sample_options_def)
  ultimately have "\<exists>e. Heartbeat sample_claimed (rID (clRun cl)) ''w0'' 50003 = Inl e"
    using stale_worker_rejected [OF cl, of "''w0''"] by simp
  with cl show ?thesis by (intro exI [of _ cl] conjI)
qed

text \<open>
  C8. Claiming reads candidates in pages behind a cursor; the outcome is that of one scan over all
  eligible runs in claim order: the first run that can be claimed is claimed, and the queue is reported
  empty only if none can.
\<close>

theorem claim_next_is_ordered_scan:
  assumes "run_ids_ok db" "coNow opts > 0" "validCollectionRequestID (coRequestID opts)" "coTaskTypes opts \<noteq> []"
    and "list_all ValidCollectionTaskType (coTaskTypes opts)"
  shows "ClaimNext db opts = (case try_candidates db (normal_options opts)
      (sort_key newCollectionTaskClaimCursor (filter (claim_eligible opts) (runs db))) of
        None \<Rightarrow> Inl ErrCollectionTaskUnavailable | Some r \<Rightarrow> r)"
proof -
  have "0 < coScanLimit (normal_options opts)" "claim_eligible (normal_options opts) = claim_eligible opts"
    by (auto simp: normal_options_def Let_def claim_eligible_def)
  then show ?thesis using claim_loop_scan [OF assms(1), of "normal_options opts" None] assms(2-)
    by (simp add: ClaimNext_def eligible_in_order_def)
qed

theorem claim_next_is_ordered_scan_witness:
  "ClaimNext sample_claimed (sample_options ''w2'' 50004) = Inl ErrCollectionTaskUnavailable"
proof -
  have "run_ids_ok sample_claimed"
    using claims_ok_ids [OF claims.reachable_inv [OF sample_history]] .
  moreover have "coNow (sample_options ''w2'' 50004) > 0" "validCollectionRequestID (coRequestID (sample_options ''w2'' 50004))"
    "coTaskTypes (sample_options ''w2'' 50004) \<noteq> []" "list_all ValidCollectionTaskType (coTaskTypes (sample_options ''w2'' 50004))"
    by code_simp+
  moreover have "filter (claim_eligible (sample_options ''w2'' 50004)) (runs sample_claimed) = []" by code_simp
  ultimately show ?thesis using claim_next_is_ordered_scan by simp
qed



text \<open>
  A commit whose windows fetched and wrote no row is refused as a lost claim when it happens in the
  wall-clock second of the run's last update: the parent update then changes no column, and MySQL
  reports no affected row.
\<close>

theorem empty_commit_in_same_second_lost:
  assumes "run_ids_ok db" "run_by_id db (rID run) = Some run" "rLastRequestID run = q" "rUpdatedAt run = autoNow"
    and "\<forall>o' \<in> set os. wrFetchedRows o' = 0 \<and> wrWrittenRows o' = 0"
  shows "\<exists>e. commitWindowResults autoNow db run q now os = Inl e"
proof -
  define add where "add = (\<lambda>r :: CollectionRun. r\<lparr>rFetchedRows := rFetchedRows r + sum_list (map wrFetchedRows os),
    rWrittenRows := rWrittenRows r + sum_list (map wrWrittenRows os), rLastRequestID := q, rUpdatedAt := autoNow\<rparr>)"
  define held where "held = (\<lambda>r :: CollectionRun. rID r = rID run \<and> rStatus r = StRunning \<and> rLastRequestID r = q)"
  have "sum_list (map wrFetchedRows os) = 0" "sum_list (map wrWrittenRows os) = 0"
    using assms(5) by (induction os) auto
  then have same: "add run = run" using assms(3,4) by (simp add: add_def)
  have "r = run" if "r \<in> set (runs db)" "rID r = rID run" for r
    using assms(1,2) that run_by_id_unique [of db "rID run"] by (simp add: run_ids_ok_def) (metis option.inject)
  then have none: "rows_affected held add (runs db) = 0"
    using same by (auto simp: rows_affected_def held_def filter_empty_conv)
  have runs: "runs db1 = runs db" if "commit_outcomes db i now os = Inr db1" for db1 i
    using that by (induction os arbitrary: db) (auto simp: update_windows_def split: if_split_asm)
  show ?thesis
  proof (cases "commitWindowResults autoNow db run q now os")
    case (Inr y)
    then obtain db1 where "commit_outcomes db (rID run) now os = Inr db1" "rows_affected held add (runs db1) = 1"
      unfolding commitWindowResults_def Let_def add_def held_def by (auto elim!: and_then_InrE split: if_split_asm)
    then show ?thesis using none runs by simp
  qed simp
qed

definition empty_outcome :: "CollectionTaskWindowResult" where
  "empty_outcome = \<lparr>wrWindowID = 1, wrAttemptCount = 1, wrStatus = StSuccess, wrNextRetryAt = None, wrFetchedRows = 0,
     wrWrittenRows = 0, wrErrorCode = [], wrErrorParams = []\<rparr>"

theorem empty_commit_in_same_second_lost_witness:
  "(\<exists>e. commitWindowResults 50002 sample_claimed (hd (runs sample_claimed)) ''w1'' 50003 [empty_outcome] = Inl e)
    \<and> is_inr (commitWindowResults 50003 sample_claimed (hd (runs sample_claimed)) ''w1'' 50003 [empty_outcome])"
proof -
  let ?r = "hd (runs sample_claimed)"
  have ids: "run_ids_ok sample_claimed" using claims_ok_ids [OF claims.reachable_inv [OF sample_history]] .
  have r: "runs sample_claimed \<noteq> []" "rLastRequestID ?r = ''w1''" "rUpdatedAt ?r = 50002" by code_simp+
  then have "run_by_id sample_claimed (rID ?r) = Some ?r"
    using run_by_id_unique [of sample_claimed "rID ?r" ?r] ids by (simp add: run_ids_ok_def)
  from empty_commit_in_same_second_lost [OF ids this r(2,3), of "[empty_outcome]" 50003]
  have "\<exists>e. commitWindowResults 50002 sample_claimed ?r ''w1'' 50003 [empty_outcome] = Inl e" by (simp add: empty_outcome_def)
  moreover have "is_inr (commitWindowResults 50003 sample_claimed ?r ''w1'' 50003 [empty_outcome])" by code_simp
  ultimately show ?thesis by (rule conjI)
qed

text \<open>
  Recovering a run whose window has used up its attempts clears the window's error parameters but
  copies the parameters of the previous attempt into the run, next to the new error code.
\<close>

definition exhausted_store :: store where
  "exhausted_store = sample_store\<lparr>
     runs := [sample_run\<lparr>rPriority := PriorityManualBackfill, rTotalWindows := 1, rHeartbeatAt := Some 900\<rparr>],
     run_windows := [(sample_window 1 StRunning None)\<lparr>wAttemptCount := 9, wErrorCode := ''UPSTREAM_TIMEOUT'', wErrorParams := ''old''\<rparr>],
     next_run_id := 8, next_window_id := 2\<rparr>"

theorem recovery_reports_stale_params:
  "\<exists>db'. recoverRun 1000 exhausted_store 7 1000 None defaultAttemptPolicy = Inr (db', True)
    \<and> map (\<lambda>w. (wErrorCode w, wErrorParams w)) (run_windows db') = [(''WORKER_LEASE_LOST'', [])]
    \<and> map (\<lambda>r. (rStatus r, rErrorCode r, rErrorParams r)) (runs db') = [(StFailed, ''WORKER_LEASE_LOST'', ''old'')]"
proof -
  let ?R = "recoverRun 1000 exhausted_store 7 1000 None defaultAttemptPolicy"
  have c: "is_inr ?R" "snd (projr ?R)"
    "map (\<lambda>w. (wErrorCode w, wErrorParams w)) (run_windows (fst (projr ?R))) = [(''WORKER_LEASE_LOST'', [])]"
    "map (\<lambda>r. (rStatus r, rErrorCode r, rErrorParams r)) (runs (fst (projr ?R))) = [(StFailed, ''WORKER_LEASE_LOST'', ''old'')]"
    by code_simp+
  show ?thesis
  proof (cases ?R)
    case (Inr p)
    obtain db' b where p: "p = (db', b)" by force
    with c(2-4) Inr show ?thesis by (intro exI [of _ db']) simp
  qed (use c(1) in \<open>simp add: is_inr_def\<close>)
qed

end
