(* ===== verification/Materialize_Properties.thy ===== *)
theory Materialize_Properties
  imports Claim_Properties
begin

text \<open>
  What \<^verbatim>\<open>MaterializeRunWindows\<close> achieves: the windows of the run are the expected ones, and an attempt
  succeeds on top of whatever a failed earlier attempt left behind.
\<close>

section \<open>Batches\<close>

lemma concat_batches: "0 < n \<Longrightarrow> concat (batches n xs) = xs"
proof (induction n xs rule: batches.induct)
  case (1 n xs)
  then show ?case by (cases "xs = []") (simp_all add: batches.simps [of n xs] batches.simps [of n "[]"])
qed

lemma lock_insert_window [simp]:
  "lockMaterializationExpectation (insert_window i now db k) base = lockMaterializationExpectation db base"
proof -
  have f: "sites (insert_window i now db k) = sites db" "accounts (insert_window i now db k) = accounts db"
    "customers (insert_window i now db k) = customers db" "capabilities (insert_window i now db k) = capabilities db"
    "fact_windows (insert_window i now db k) = fact_windows db" "runs (insert_window i now db k) = runs db"
    by (simp_all add: insert_window_def)
  have "resolveTaskScope (insert_window i now db k) = resolveTaskScope db"
    "lockTaskScope (insert_window i now db k) = lockTaskScope db"
    "verifyTaskScopeLocked (insert_window i now db k) = verifyTaskScopeLocked db"
    "expectedTaskWindowKeys (insert_window i now db k) = expectedTaskWindowKeys db"
    by (intro ext; simp add: resolveTaskScope_def lockTaskScope_def verifyTaskScopeLocked_def expectedTaskWindowKeys_def
        expectedSiteRunWindowHours_def account_by_id_def site_by_id_def site_capabilities_def f cong: if_cong option.case_cong)+
  then show ?thesis unfolding lockMaterializationExpectation_def by (simp only: insert_window_simps)
qed

lemma lock_insert_windows [simp]:
  "lockMaterializationExpectation (foldl (insert_window i now) db ks) base = lockMaterializationExpectation db base"
  by (induction ks arbitrary: db) simp_all

text \<open>All batches together insert all keys.\<close>

lemma materialize_batches_all:
  assumes "lockMaterializationExpectation db base = Inr (run, expected)"
  shows "materialize_batches db base expected cs now = (foldl (insert_window (rID run) now) db (concat cs), None)"
  using assms by (induction cs arbitrary: db) (simp_all add: materialize_batch_def)

section \<open>The inserted windows\<close>

lemma windows_of_insert:
  "windows_of (insert_window i now db k) i =
     (if k \<in> window_key ` set (windows_of db i) then windows_of db i
      else windows_of db i @ [new_window (next_window_id db) i now k])"
proof -
  have "list_ex (\<lambda>w. wRunID w = i \<and> window_key w = k) (run_windows db) \<longleftrightarrow> k \<in> window_key ` set (windows_of db i)"
    by (auto simp: list_ex_iff windows_of_member)
  then show ?thesis by (simp add: insert_window_def windows_of_def new_window_def)
qed

lemma windows_of_inserts:
  defines "keys ws \<equiv> window_key ` set ws"
  assumes "distinct (map window_key (windows_of db i))" "\<forall>w \<in> set (windows_of db i). wStatus w = StPending"
  shows "distinct (map window_key (windows_of (foldl (insert_window i now) db ks) i))
    \<and> (\<forall>w \<in> set (windows_of (foldl (insert_window i now) db ks) i). wStatus w = StPending)
    \<and> keys (windows_of (foldl (insert_window i now) db ks) i) = keys (windows_of db i) \<union> set ks"
  using assms(2,3)
proof (induction ks arbitrary: db)
  case (Cons k ks)
  have n: "window_key (new_window j i now k) = k" "wStatus (new_window j i now k) = StPending" for j
    by (simp_all add: window_key_def new_window_def)
  have "distinct (map window_key (windows_of (insert_window i now db k) i))"
    "\<forall>w \<in> set (windows_of (insert_window i now db k) i). wStatus w = StPending"
    "keys (windows_of (insert_window i now db k) i) = insert k (keys (windows_of db i))"
    using Cons.prems n by (auto simp: windows_of_insert keys_def)
  with Cons.IH [of "insert_window i now db k"] show ?case by simp
qed (simp add: keys_def)

text \<open>Sorting by site, hour and identifier gives the keys in order.\<close>

lemma keys_in_order:
  assumes "distinct (map window_key (windows_of db i))" "window_key ` set (windows_of db i) = set ks" "sorted_wrt (<) ks"
  shows "map window_key (windows_by_site db i) = ks"
proof -
  let ?k = "\<lambda>w. (wSiteID w, wHourTS w, wID w)"
  have "sorted (map ?k (windows_by_site db i))" by (simp add: windows_by_site_def)
  then have "sorted_wrt (\<lambda>v w. ?k v \<le> ?k w) (windows_by_site db i)" by (simp add: sorted_map)
  then have "sorted_wrt (\<lambda>v w. window_key v \<le> window_key w) (windows_by_site db i)"
    by (rule sorted_wrt_mono_rel [rotated]) (auto simp: window_key_def)
  then have "sorted (map window_key (windows_by_site db i))" by (simp add: sorted_map)
  moreover have "distinct (map window_key (windows_by_site db i))"
    using assms(1) by (simp add: windows_by_site_def distinct_map)
  moreover have "set (map window_key (windows_by_site db i)) = set ks" using assms(2) by (simp add: windows_by_site_def)
  moreover have "sorted ks" "distinct ks" using assms(3) by (simp_all add: strict_sorted_iff)
  ultimately show ?thesis by (metis sorted_distinct_set_unique)
qed

lemma sorted_site_keys: "sorted_wrt (<) hs \<Longrightarrow> sorted_wrt (<) (map (\<lambda>h. (s, h)) hs)" for s :: int and hs :: "int list"
  by (simp add: sorted_wrt_map)

lemma sorted_expected_site:
  assumes "expectedTaskWindowKeys db run scope = Inr ks" "rTargetType run = ''site''"
  shows "sorted_wrt (<) ks"
proof -
  from assms obtain hs where hs: "expectedSiteRunWindowHours db run = Inr hs" "ks = map (\<lambda>h. (the (rSiteID run), h)) hs"
    by (auto simp: expectedTaskWindowKeys_def elim!: and_then_InrE split: option.split_asm if_split_asm)
  then have "sorted_wrt (<) hs"
    by (auto simp: expectedSiteRunWindowHours_def elim!: and_then_InrE split: option.split_asm if_split_asm
        intro!: sorted_wrt_filter sorted_hours_between)
  then show ?thesis using sorted_site_keys hs(2) by blast
qed

section \<open>The final transaction\<close>

lemma rows_affected_one:
  assumes "run_ids_ok db" "run_by_id db i = Some r" "P r" "f r \<noteq> r" "\<And>q. P q \<Longrightarrow> rID q = i"
  shows "rows_affected P f (runs db) = 1"
proof -
  have d: "distinct (runs db)" "inj_on rID (set (runs db))" using assms(1) by (simp_all add: run_ids_ok_def distinct_map)
  have r: "r \<in> set (runs db)" "rID r = i" using run_by_id_Some [OF assms(2)] by auto
  have "set (filter (\<lambda>x. P x \<and> f x \<noteq> x) (runs db)) = {r}"
    using assms(3-5) r d(2) by (auto simp: inj_on_def)
  then show ?thesis unfolding rows_affected_def using d(1) by (metis distinct_card distinct_filter card.empty card_insert_disjoint
        empty_iff finite.emptyI One_nat_def)
qed

lemma materialize_finish_Inr:
  assumes "materialize_finish db base expected now = Inr (db', run')" "run_ids_ok db"
  shows "map window_key (windows_by_site db' (rID base)) = expected \<and> rTotalWindows run' = int (length expected)
    \<and> rWindowsInitializedAt run' = Some now \<and> rStatus run' = (if expected = [] then StSuccess else StPending)"
proof -
  define init where "init = (\<lambda>r :: CollectionRun. r\<lparr>rTotalWindows := int (length expected), rWindowsInitializedAt := Some now, rUpdatedAt := now\<rparr>)"
  from assms(1) obtain run db1 db2 where l: "lockMaterializationExpectation db base = Inr (run, expected)"
    and ws: "map window_key (windows_by_site db (rID run)) = expected" "\<forall>w \<in> set (windows_by_site db (rID run)). wStatus w = StPending"
    and rec: "recalculate_stored (update_runs (\<lambda>r. rID r = rID run \<and> rStatus r = StPending \<and> rWindowsInitializedAt r = None) init db)
        (init run) (windows_by_site db (rID run)) now None = Inr (db1, run')"
    and fin: "finalizeLocalRebuildLifecycle db1 run' now = Inr db2" "recalculateTaskBackfillStatuses db2 run' now = Inr db'"
    unfolding materialize_finish_def init_def
    by (auto simp: list_all_iff Let_def elim!: and_then_InrE split: if_split_asm)
  note lk = lockMaterialization_Inr [OF l]
  obtain f where f: "RecalculateLockedCollectionRun (init run) (windows_by_site db (rID run)) now None = Inr f" "run' = f (init run)"
    "db1 = write_run (rID run) f (update_runs (\<lambda>r. rID r = rID run \<and> rStatus r = StPending \<and> rWindowsInitializedAt r = None) init db)"
    using rec by (auto simp: recalculate_stored_def init_def elim!: and_then_InrE)
  have st: "settled (init run) run' (wStatus ` set (windows_by_site db (rID run)))"
    unfolding f(2) by (rule recalc_settled [OF f(1)]) (simp add: init_def lk)
  have "run_windows db' = run_windows db"
    using finalize_same_runs [OF fin(1)] statuses_same_runs [OF fin(2)] f(3)
    by (simp add: same_runs_def write_run_def update_runs_def)
  then have "windows_by_site db' (rID base) = windows_by_site db (rID run)"
    by (simp add: windows_by_site_def windows_of_def lk(5))
  moreover have "wStatus ` set (windows_by_site db (rID run)) = (if expected = [] then {} else {StPending})"
    using ws by (cases "windows_by_site db (rID run)") auto
  ultimately show ?thesis
    using ws(1) st by (auto simp: settled_def run_identity_def init_def windows_status_def split: if_split_asm)
qed

lemma materialize_finish_succeeds:
  assumes l: "lockMaterializationExpectation db base = Inr (run, expected)" and ids: "run_ids_ok db"
    and ws: "map window_key (windows_by_site db (rID run)) = expected" "\<forall>w \<in> set (windows_by_site db (rID run)). wStatus w = StPending"
    and site: "rTargetType run = ''site''" and pos: "0 < rID run" "0 < now" "expected \<noteq> []"
  shows "\<exists>db' run'. materialize_finish db base expected now = Inr (db', run')"
proof -
  define init where "init = (\<lambda>r :: CollectionRun. r\<lparr>rTotalWindows := int (length expected), rWindowsInitializedAt := Some now, rUpdatedAt := now\<rparr>)"
  define W where "W = windows_by_site db (rID run)"
  define fresh where "fresh = (\<lambda>r :: CollectionRun. rID r = rID run \<and> rStatus r = StPending \<and> rWindowsInitializedAt r = None)"
  note lk = lockMaterialization_Inr [OF l]
  have W: "\<forall>w \<in> set W. wStatus w = StPending" "length W = length expected" "W \<noteq> []"
    using ws pos(3) by (auto simp: W_def dest: arg_cong [where f = length])
  have cnt: "count_status st W = (if st = StPending then int (length W) else 0)" for st
    using W(1) by (auto simp: count_status_def filter_id_conv filter_empty_conv)
  obtain f where f: "RecalculateLockedCollectionRun (init run) W now None = Inr f" "rStatus (f (init run)) = StPending"
      "rTargetType (f (init run)) = ''site''"
    using W pos lk site by (auto simp: RecalculateLockedCollectionRun_def init_def cnt list_all_iff Let_def split: option.splits)
  have one: "rows_affected fresh init (runs db) = 1"
    by (rule rows_affected_one [OF ids lk(1)]) (use lk in \<open>auto simp: fresh_def init_def dest: arg_cong [where f = rWindowsInitializedAt]\<close>)
  have fin: "finalizeLocalRebuildLifecycle d (f (init run)) now = Inr d" "recalculateTaskBackfillStatuses d (f (init run)) now = Inr d" for d
    using f(2,3) by (simp_all add: finalizeLocalRebuildLifecycle_def recalculateTaskBackfillStatuses_def)
  show ?thesis
    using l ws one f(1) fin unfolding materialize_finish_def recalculate_stored_def
    by (simp add: Let_def fresh_def [symmetric] init_def [symmetric] W_def [symmetric] list_all_iff)
qed

lemma load_Inr:
  assumes "loadMaterializationExpectation db i = Inr (base, expected)"
  shows "lockMaterializationExpectation db base = Inr (base, expected)" "rID base = i"
proof -
  from assms obtain r where r: "run_by_id db i = Some r" "lockMaterializationExpectation db r = Inr (base, expected)"
    by (auto simp: loadMaterializationExpectation_def elim!: and_then_InrE)
  have "base = r" using lockMaterialization_Inr [OF r(2)] r(1) run_by_id_Some [OF r(1)] by simp
  then show "lockMaterializationExpectation db base = Inr (base, expected)" "rID base = i"
    using r run_by_id_Some [OF r(1)] by auto
qed

lemma MaterializeRunWindows_eq:
  assumes "loadMaterializationExpectation db i = Inr (base, expected)" "0 < i" "0 < now"
  shows "MaterializeRunWindows db i now n =
    (let db1 = foldl (insert_window i now) db expected
     in case materialize_finish db1 base expected now of Inl e \<Rightarrow> (db1, Inl e) | Inr (db2, run) \<Rightarrow> (db2, Inr run))"
proof -
  let ?n = "nat (if n \<le> 0 \<or> n > 1000 then 1000 else n)"
  have "0 < ?n" by auto
  then have "concat (batches ?n expected) = expected" by (rule concat_batches)
  then show ?thesis
    using assms materialize_batches_all [OF load_Inr(1) [OF assms(1)], of "batches ?n expected" now] load_Inr(2) [OF assms(1)]
    by (simp add: MaterializeRunWindows_def Let_def)
qed

section \<open>Properties of materialization\<close>

text \<open>
  C20. When \<^verbatim>\<open>MaterializeRunWindows\<close> returns a run, its stored windows are exactly the expected windows,
  one per site and hour in order, the run counts them and is initialised, and it is pending (or already
  finished when there was nothing to do).
\<close>

theorem materialized_windows_expected:
  assumes "MaterializeRunWindows db i now n = (db', Inr run)" "run_ids_ok db"
  shows "\<exists>base expected. loadMaterializationExpectation db i = Inr (base, expected)
    \<and> map window_key (windows_by_site db' i) = expected \<and> rTotalWindows run = int (length expected)
    \<and> rWindowsInitializedAt run = Some now \<and> rStatus run = (if expected = [] then StSuccess else StPending)"
proof -
  obtain base expected where l: "loadMaterializationExpectation db i = Inr (base, expected)" and pos: "0 < i" "0 < now"
    using assms(1) by (auto simp: MaterializeRunWindows_def split: if_split_asm sum.split_asm)
  let ?db1 = "foldl (insert_window i now) db expected"
  have "runs (foldl (insert_window i now) d ks) = runs d \<and> next_run_id (foldl (insert_window i now) d ks) = next_run_id d" for d ks
    by (induction ks arbitrary: d) (simp_all add: insert_window_def)
  then have ids: "run_ids_ok ?db1" using assms(2) by (simp add: run_ids_ok_def)
  have "materialize_finish ?db1 base expected now = Inr (db', run)"
    using assms(1) MaterializeRunWindows_eq [OF l pos, of n] by (auto simp: Let_def split: sum.split_asm)
  from materialize_finish_Inr [OF this ids] show ?thesis using l load_Inr(2) [OF l] by blast
qed

theorem materialized_windows_expected_witness:
  "\<exists>run. MaterializeRunWindows sample_store1 1 50001 1 = (sample_ready, Inr run)
    \<and> (\<exists>base expected. loadMaterializationExpectation sample_store1 1 = Inr (base, expected)
         \<and> map window_key (windows_by_site sample_ready 1) = expected)"
proof -
  have "is_inr (snd (MaterializeRunWindows sample_store1 1 50001 1))" by code_simp
  then obtain run where run: "MaterializeRunWindows sample_store1 1 50001 1 = (sample_ready, Inr run)"
    unfolding sample_ready_def by (cases "MaterializeRunWindows sample_store1 1 50001 1") (auto simp: is_inr_def split: sum.split_asm)
  have "run_ids_ok sample_store1"
    using claims_ok_ids [OF claim_step_keeps] claims.start_inv [OF sample_history(1)] sample_first claim_step.create_windows by blast
  from materialized_windows_expected [OF run this] run show ?thesis by blast
qed



end
