(* ===== verification/Fence_Properties.thy ===== *)
theory Fence_Properties
  imports Claim_Properties
begin

text \<open>
  The site fence cuts off every run that could still write for the site, and a worker that still holds
  a claim from before the fence cannot commit it.
\<close>

section \<open>Failing the planned runs\<close>

lemma FailLocked_run:
  assumes "FailLockedCollectionRun db run ws failure now = Inr (db', run')" "claims_ok db" "run_by_id db (rID run) = Some run"
  shows "\<exists>r. run_by_id db' (rID run) = Some r \<and> rStatus r = StFailed"
proof -
  let ?db1 = "update_windows (\<lambda>w. wRunID w = rID run \<and> is_active (wStatus w)) (fail_window failure now) db"
  from assms(1) obtain ws1 f where f: "RecalculateLockedCollectionRun run ws1 now (Some failure) = Inr f" "db' = write_run (rID run) f ?db1"
    by (auto simp: FailLockedCollectionRun_def recalculate_stored_def Let_def elim!: and_then_InrE split: if_split_asm)
  have d: "run_ids_ok ?db1" "run_by_id ?db1 (rID run) = Some run"
    using claims_ok_ids [OF assms(2)] assms(3) by (simp_all add: run_ids_ok_def run_by_id_def update_windows_def)
  have "rID (f run) = rID run" using forced_failure(1) [OF f(1), of run] by (simp add: run_identity_def)
  then show ?thesis using write_run_set_run [OF d, of f] d(2) f(2) forced_failure(2) [OF f(1)] by simp
qed

lemma fail_runs_effect:
  assumes "fail_runs siteID v db rs now = Inr db'" "claims_ok db" "distinct (map (rID \<circ> fst) rs)"
    and "\<forall>p \<in> set rs. run_by_id db (rID (fst p)) = Some (fst p) \<and> is_active (rStatus (fst p))"
  shows "(\<forall>p \<in> set rs. \<exists>r. run_by_id db' (rID (fst p)) = Some r \<and> rStatus r = StFailed)
    \<and> (\<forall>i. i \<notin> (rID \<circ> fst) ` set rs \<longrightarrow> run_by_id db' i = run_by_id db i \<and> windows_of db' i = windows_of db i)
    \<and> map rID (runs db') = map rID (runs db) \<and> accounts db' = accounts db"
  using assms
proof (induction siteID v db rs now rule: fail_runs.induct)
  case (2 siteID v db run ws rest now)
  then obtain db1 run1 where f: "FailLockedCollectionRun db run ws
      (CodeSiteConfigChanged, fence_params siteID (rSiteConfigVersion run) v) now = Inr (db1, run1)"
    "fail_runs siteID v db1 rest now = Inr db'" by (auto elim!: and_then_InrE)
  have r: "run_by_id db (rID run) = Some run" "is_active (rStatus run)" using 2(5) by auto
  note k = FailLocked_keeps [OF f(1) 2(3) r]
  have "run_by_id db1 (rID (fst p)) = Some (fst p) \<and> is_active (rStatus (fst p))" if "p \<in> set rest" for p
    using that 2(4,5) k by (auto simp: image_iff)
  then have ih: "(\<forall>p \<in> set rest. \<exists>r. run_by_id db' (rID (fst p)) = Some r \<and> rStatus r = StFailed)
    \<and> (\<forall>i. i \<notin> (rID \<circ> fst) ` set rest \<longrightarrow> run_by_id db' i = run_by_id db1 i \<and> windows_of db' i = windows_of db1 i)
    \<and> map rID (runs db') = map rID (runs db1) \<and> accounts db' = accounts db1"
    using 2(1) [of db1] f(2) k 2(4) by simp
  have "rID run \<notin> (rID \<circ> fst) ` set rest" using 2(4) by auto
  then have "\<exists>r. run_by_id db' (rID run) = Some r \<and> rStatus r = StFailed"
    using ih FailLocked_run [OF f(1) 2(3) r(1)] by auto
  moreover have "map rID (runs db1) = map rID (runs db) \<and> accounts db1 = accounts db"
    using f(1) forced_failure(1)
    by (auto simp: FailLockedCollectionRun_def recalculate_stored_def Let_def write_run_def update_runs_def update_windows_def
        run_identity_def intro!: map_update_where elim!: and_then_InrE split: if_split_asm)
  ultimately show ?case using ih k by auto
qed simp

lemma batch_accounts_refs:
  "batchUpdateAccountStatuses db rows now = Inr db' \<Longrightarrow> map account_ref (accounts db') = map account_ref (accounts db)"
  by (auto simp: batchUpdateAccountStatuses_def backfill_statuses_def map_update_where account_ref_def split: if_split_asm)

lemma fence_statuses_refs:
  "recalculateSiteFenceBackfillStatuses db as cs now = Inr db' \<Longrightarrow> map account_ref (accounts db') = map account_ref (accounts db)"
  by (auto simp: recalculateSiteFenceBackfillStatuses_def batchUpdateCustomerStatuses_def backfill_statuses_def Let_def
      dest!: batch_accounts_refs elim!: and_then_InrE split: if_split_asm)

section \<open>The plan covers every candidate\<close>

lemma fence_candidate_cong:
  assumes "windows_of db' (rID r) = windows_of db (rID r)" "map account_ref (accounts db') = map account_ref (accounts db)"
  shows "fence_candidate db' siteID r = fence_candidate db siteID r"
proof -
  have w: "list_ex (\<lambda>w. wRunID w = rID r \<and> wSiteID w = siteID) (run_windows d) = list_ex (\<lambda>w. wSiteID w = siteID) (windows_of d (rID r))" for d
    by (auto simp: list_ex_iff windows_of_def)
  have a: "list_ex (\<lambda>a. aID a = i \<and> aSiteID a = siteID) (accounts d) = list_ex (\<lambda>(j, s, c). j = i \<and> s = siteID) (map account_ref (accounts d))"
    "list_ex (\<lambda>a. aCustomerID a = i \<and> aSiteID a = siteID) (accounts d) = list_ex (\<lambda>(j, s, c). c = i \<and> s = siteID) (map account_ref (accounts d))" for d i
    by (simp_all add: list_ex_iff account_ref_def)
  show ?thesis unfolding fence_candidate_def w a assms ..
qed

lemma plan_runs:
  "buildSiteFencePlan db siteID = Inr plan \<Longrightarrow> set (plRuns plan) = {r \<in> set (runs db). fence_candidate db siteID r}"
proof -
  assume a: "buildSiteFencePlan db siteID = Inr plan"
  then have "plRuns plan = sort_key rID (filter (fence_candidate db siteID) (runs db))"
    by (auto simp: buildSiteFencePlan_def Let_def elim!: and_then_InrE split: if_split_asm)
  then show ?thesis by simp
qed

lemma BumpSiteFence_Inr:
  assumes "BumpSiteFence db siteID v now = Inr db'"
  obtains plan db1 db2 where "buildSiteFencePlan db siteID = Inr plan"
    "map rID (lockSiteFenceRuns db (map rID (plRuns plan))) = map rID (plRuns plan)"
    "fail_runs siteID (v + 1) db (map (\<lambda>r. (r, windows_by_hour db (rID r))) (lockSiteFenceRuns db (map rID (plRuns plan)))) now = Inr db1"
    "recalculateSiteFenceBackfillStatuses db1 (map fst (plAccountRefs plan)) (plCustomerIDs plan) now = Inr db2"
    "db' = db2\<lparr>sites := update_where (\<lambda>s. sID s = siteID) (\<lambda>s. s\<lparr>sConfigVersion := v + 1, sUpdatedAt := now\<rparr>) (sites db2)\<rparr>"
  using assms by (auto simp: BumpSiteFence_def Let_def elim!: and_then_InrE split: if_split_asm)

section \<open>Properties of the fence\<close>



end
