(* ===== verification/Fast_Dispatcher.thy ===== *)
theory Fast_Dispatcher
  imports Task_Catalog
begin

text \<open>
  The process-local dispatcher of fast collection tasks (\<^verbatim>\<open>worker/scheduler_fast.go\<close>): a bounded
  list of pending tasks, the keys that are queued or running, the busy sites, and the number of
  running tasks per type. Every method runs under the dispatcher's mutex, so it is one atomic
  step; the goroutines started for running tasks are the list \<open>workers\<close> (the code's WaitGroup), each
  of which ends with a call of \<open>complete\<close>.
\<close>

section \<open>State and operations\<close>

record scheduledFastTask =
  ftHasContext :: bool
  ftSiteID :: int
  ftTaskType :: string
  ftRequestID :: string
  ftConcurrency :: int

record fastTaskDispatcher =
  pending :: "scheduledFastTask list"
  fdQueued :: "string set"
  fdRunning :: "string set"
  runningSites :: "int set"
  activeByType :: "string \<Rightarrow> int"
  limitsByType :: "string \<Rightarrow> int"
  stopped :: bool
  workers :: "scheduledFastTask list"

definition newFastTaskDispatcher :: fastTaskDispatcher where
  "newFastTaskDispatcher = \<lparr>pending = [], fdQueued = {}, fdRunning = {}, runningSites = {},
     activeByType = (\<lambda>_. 0), limitsByType = (\<lambda>_. 0), stopped = False, workers = []\<rparr>"

abbreviation fastTaskQueueCapacity :: nat where "fastTaskQueueCapacity \<equiv> 256"

definition fastScheduleKey :: "string \<Rightarrow> int \<Rightarrow> string" where
  "fastScheduleKey taskType siteID = taskType @ '':'' @ FormatInt siteID"

abbreviation task_key :: "scheduledFastTask \<Rightarrow> string" where
  "task_key t \<equiv> fastScheduleKey (ftTaskType t) (ftSiteID t)"

definition startable :: "fastTaskDispatcher \<Rightarrow> scheduledFastTask \<Rightarrow> bool" where
  "startable d t \<longleftrightarrow> ftSiteID t \<notin> runningSites d
     \<and> activeByType d (ftTaskType t) < limitsByType d (ftTaskType t)"

definition start_task :: "fastTaskDispatcher \<Rightarrow> scheduledFastTask \<Rightarrow> scheduledFastTask list \<Rightarrow> fastTaskDispatcher" where
  "start_task d t rest = d\<lparr>pending := rest, fdQueued := fdQueued d - {task_key t},
     fdRunning := insert (task_key t) (fdRunning d), runningSites := insert (ftSiteID t) (runningSites d),
     activeByType := (activeByType d)(ftTaskType t := activeByType d (ftTaskType t) + 1),
     workers := workers d @ [t]\<rparr>"

function startReadyLocked :: "fastTaskDispatcher \<Rightarrow> fastTaskDispatcher" where
  "startReadyLocked d =
     (if stopped d then d
      else case List.extract (startable d) (pending d) of
             None \<Rightarrow> d
           | Some (before, t, after) \<Rightarrow> startReadyLocked (start_task d t (before @ after)))"
  by pat_completeness auto
termination
  by (relation "measure (\<lambda>d. length (pending d))") (auto simp: extract_Some_iff start_task_def)

declare startReadyLocked.simps [simp del]

definition with_concurrency :: "scheduledFastTask \<Rightarrow> scheduledFastTask" where
  "with_concurrency t = (if ftConcurrency t \<le> 0 then t\<lparr>ftConcurrency := 1\<rparr> else t)"

definition Enqueue :: "fastTaskDispatcher \<Rightarrow> scheduledFastTask \<Rightarrow> fastTaskDispatcher \<times> bool" where
  "Enqueue d task0 =
     (if \<not> ftHasContext task0 \<or> ftSiteID task0 \<le> 0 \<or> ftTaskType task0 = [] \<or> ftRequestID task0 = []
      then (d, False)
      else let task = with_concurrency task0
           in if stopped d then (d, False)
              else let d1 = d\<lparr>limitsByType := (limitsByType d)(ftTaskType task := ftConcurrency task)\<rparr>
                   in if task_key task \<in> fdQueued d1 then (d1, False)
                      else if task_key task \<in> fdRunning d1 \<or> length (pending d1) \<ge> fastTaskQueueCapacity
                      then (d1, False)
                      else (startReadyLocked (d1\<lparr>pending := pending d1 @ [task],
                              fdQueued := insert (task_key task) (fdQueued d1)\<rparr>), True))"

definition complete :: "fastTaskDispatcher \<Rightarrow> scheduledFastTask \<Rightarrow> fastTaskDispatcher" where
  "complete d t =
     startReadyLocked (d\<lparr>fdRunning := fdRunning d - {task_key t}, runningSites := runningSites d - {ftSiteID t},
       activeByType := (if activeByType d (ftTaskType t) > 0
         then (activeByType d)(ftTaskType t := activeByType d (ftTaskType t) - 1) else activeByType d),
       workers := remove1 t (workers d)\<rparr>)"

definition Shutdown :: "fastTaskDispatcher \<Rightarrow> fastTaskDispatcher" where
  "Shutdown d = d\<lparr>stopped := True, pending := [], fdQueued := {}\<rparr>"

text \<open>One call of a method; \<open>complete\<close> is called by the goroutine of a running task. \<open>cap\<close> bounds the
  concurrency the scheduler passes for each type.\<close>

inductive fast_step :: "(string \<Rightarrow> int) \<Rightarrow> fastTaskDispatcher \<Rightarrow> fastTaskDispatcher \<Rightarrow> bool" for cap where
  enqueue: "ftConcurrency t \<le> cap (ftTaskType t) \<Longrightarrow> fast_step cap d (fst (Enqueue d t))"
| complete: "t \<in> set (workers d) \<Longrightarrow> fast_step cap d (complete d t)"
| shutdown: "fast_step cap d (Shutdown d)"

section \<open>Keys\<close>

lemma fastScheduleKey_inject [simp]: "fastScheduleKey t i = fastScheduleKey u j \<longleftrightarrow> t = u \<and> i = j"
  using snoc_sep_inject [of t "CHR '':''" "FormatInt i" u "FormatInt j"] FormatInt_no_colon
  by (auto simp: fastScheduleKey_def)

section \<open>Invariant\<close>

definition running_of :: "scheduledFastTask list \<Rightarrow> string \<Rightarrow> nat" where
  "running_of ws ty = length (filter (\<lambda>t. ftTaskType t = ty) ws)"

text \<open>The bookkeeping agrees with the pending list and the running goroutines.\<close>

definition books :: "(string \<Rightarrow> int) \<Rightarrow> fastTaskDispatcher \<Rightarrow> bool" where
  "books cap d \<longleftrightarrow> fdQueued d = task_key ` set (pending d) \<and> distinct (map task_key (pending d))
     \<and> fdRunning d = task_key ` set (workers d) \<and> runningSites d = ftSiteID ` set (workers d)
     \<and> distinct (map ftSiteID (workers d)) \<and> (\<forall>ty. activeByType d ty = int (running_of (workers d) ty))
     \<and> length (pending d) \<le> fastTaskQueueCapacity \<and> (stopped d \<longrightarrow> pending d = [])
     \<and> (\<forall>t \<in> set (pending d). 1 \<le> limitsByType d (ftTaskType t))
     \<and> (\<forall>ty. limitsByType d ty \<le> max 1 (cap ty)) \<and> (\<forall>ty. activeByType d ty \<le> max 1 (cap ty))"

text \<open>No pending task could be started: the state after every round of \<open>startReadyLocked\<close>.\<close>

definition work_conserving :: "fastTaskDispatcher \<Rightarrow> bool" where
  "work_conserving d \<longleftrightarrow> stopped d \<or> (\<forall>t \<in> set (pending d). \<not> startable d t)"

text \<open>Pending work is never left without a running task whose completion will look at it again.\<close>

definition fast_inv :: "(string \<Rightarrow> int) \<Rightarrow> fastTaskDispatcher \<Rightarrow> bool" where
  "fast_inv cap d \<longleftrightarrow> books cap d \<and> (pending d \<noteq> [] \<longrightarrow> workers d \<noteq> [])"

lemma start_task_books:
  assumes "books cap d" "pending d = before @ t # after" "startable d t"
  shows "books cap (start_task d t (before @ after))"
proof -
  have t: "ftSiteID t \<notin> runningSites d" "activeByType d (ftTaskType t) < limitsByType d (ftTaskType t)"
    using assms(3) by (auto simp: startable_def)
  have act: "activeByType d (ftTaskType t) + 1 \<le> max 1 (cap (ftTaskType t))"
    using t(2) assms(1) unfolding books_def by (meson less_le_trans zless_imp_add1_zle)
  have r: "running_of (workers (start_task d t rest)) ty = running_of (workers d) ty + (if ftTaskType t = ty then 1 else 0)" for rest ty
    by (simp add: running_of_def start_task_def)
  show ?thesis
    using assms(1,2) t(1) act r by (auto simp: books_def start_task_def image_iff)
qed

lemma startReadyLocked_inv:
  assumes "books cap d"
  shows "books cap (startReadyLocked d) \<and> work_conserving (startReadyLocked d)"
  using assms
proof (induction d rule: startReadyLocked.induct)
  case (1 d)
  show ?case
  proof (cases "stopped d \<or> List.extract (startable d) (pending d) = None")
    case True
    then have "startReadyLocked d = d" by (subst startReadyLocked.simps) auto
    then show ?thesis using True 1(2) by (auto simp: work_conserving_def extract_None_iff)
  next
    case False
    then obtain bf t af where e: "List.extract (startable d) (pending d) = Some (bf, t, af)" by auto
    then have "books cap (start_task d t (bf @ af))"
      using start_task_books [OF 1(2)] by (auto simp: extract_Some_iff)
    with 1(1) [of "(bf, t, af)" bf "(t, af)" t af] False e show ?thesis
      by (subst (1 2) startReadyLocked.simps) simp
  qed
qed

lemma conserving_not_stalled:
  assumes "books cap d" "work_conserving d"
  shows "fast_inv cap d"
proof -
  have "workers d \<noteq> []" if p: "t \<in> set (pending d)" for t
  proof
    assume w: "workers d = []"
    then have "ftSiteID t \<notin> runningSites d" "activeByType d (ftTaskType t) = 0"
      using assms(1) by (auto simp: books_def running_of_def)
    moreover have "1 \<le> limitsByType d (ftTaskType t)" "\<not> stopped d"
      using p assms(1) by (auto simp: books_def)
    ultimately show False using p assms(2) by (auto simp: work_conserving_def startable_def)
  qed
  then show ?thesis using assms(1) by (cases "pending d") (auto simp: fast_inv_def)
qed

lemma startReadyLocked_fast_inv: "books cap d \<Longrightarrow> fast_inv cap (startReadyLocked d)"
  using startReadyLocked_inv conserving_not_stalled by blast

lemma raise_limit_books:
  assumes "books cap d" "c \<le> max 1 (cap ty)" "1 \<le> c"
  shows "books cap (d\<lparr>limitsByType := (limitsByType d)(ty := c)\<rparr>)"
  using assms by (auto simp: books_def running_of_def)

lemma push_books:
  assumes "books cap d" "task_key t \<notin> fdQueued d" "length (pending d) < fastTaskQueueCapacity"
    and "\<not> stopped d" "1 \<le> limitsByType d (ftTaskType t)"
  shows "books cap (d\<lparr>pending := pending d @ [t], fdQueued := insert (task_key t) (fdQueued d)\<rparr>)"
  using assms by (auto simp: books_def running_of_def)

lemma startReadyLocked_stopped [simp]: "stopped (startReadyLocked d) = stopped d"
proof (induction d rule: startReadyLocked.induct)
  case (1 d)
  then show ?case
    by (subst startReadyLocked.simps) (auto split: option.splits simp: start_task_def)
qed

text \<open>A rejected task changes at most its type's limit; an accepted one ends with a start round.\<close>

lemma Enqueue_cases:
  assumes "fast_inv cap d" "ftConcurrency t \<le> cap (ftTaskType t)"
  shows "(\<not> snd (Enqueue d t) \<and> fast_inv cap (fst (Enqueue d t)))
    \<or> (snd (Enqueue d t) \<and> (\<exists>e. books cap e \<and> \<not> stopped e \<and> fst (Enqueue d t) = startReadyLocked e))"
proof -
  let ?t = "with_concurrency t"
  let ?d = "d\<lparr>limitsByType := (limitsByType d)(ftTaskType ?t := ftConcurrency ?t)\<rparr>"
  let ?e = "?d\<lparr>pending := pending ?d @ [?t], fdQueued := insert (task_key ?t) (fdQueued ?d)\<rparr>"
  have b: "books cap ?d"
    by (rule raise_limit_books) (use assms in \<open>auto simp: fast_inv_def with_concurrency_def\<close>)
  then have f: "fast_inv cap ?d" using assms(1) by (simp add: fast_inv_def)
  have push: "books cap ?e"
    if "task_key ?t \<notin> fdQueued ?d" "length (pending ?d) < fastTaskQueueCapacity" "\<not> stopped d"
    by (rule push_books [OF b]) (use that in \<open>auto simp: with_concurrency_def\<close>)
  consider (bad) "\<not> ftHasContext t \<or> ftSiteID t \<le> 0 \<or> ftTaskType t = [] \<or> ftRequestID t = [] \<or> stopped d"
    | (dup) "ftHasContext t" "0 < ftSiteID t" "ftTaskType t \<noteq> []" "ftRequestID t \<noteq> []" "\<not> stopped d"
        "task_key ?t \<in> fdQueued d \<or> task_key ?t \<in> fdRunning d \<or> fastTaskQueueCapacity \<le> length (pending d)"
    | (ok) "ftHasContext t" "0 < ftSiteID t" "ftTaskType t \<noteq> []" "ftRequestID t \<noteq> []" "\<not> stopped d"
        "task_key ?t \<notin> fdQueued d" "task_key ?t \<notin> fdRunning d" "length (pending d) < fastTaskQueueCapacity"
    by linarith
  then show ?thesis
  proof cases
    case bad
    then have "Enqueue d t = (d, False)" by (auto simp: Enqueue_def Let_def)
    then show ?thesis using assms(1) by simp
  next
    case dup
    then have "Enqueue d t = (?d, False)" by (simp add: Enqueue_def Let_def) blast
    then show ?thesis using f by simp
  next
    case ok
    then have "Enqueue d t = (startReadyLocked ?e, True)" by (simp add: Enqueue_def Let_def)
    moreover have "books cap ?e" "\<not> stopped ?e" using ok push by simp_all
    ultimately show ?thesis by (metis fst_conv snd_conv)
  qed
qed

lemma Enqueue_inv:
  "fast_inv cap d \<Longrightarrow> ftConcurrency t \<le> cap (ftTaskType t) \<Longrightarrow> fast_inv cap (fst (Enqueue d t))"
  using Enqueue_cases startReadyLocked_fast_inv by metis

lemma Enqueue_conserving:
  assumes "fast_inv cap d" "ftConcurrency t \<le> cap (ftTaskType t)" "snd (Enqueue d t)"
  shows "work_conserving (fst (Enqueue d t)) \<and> \<not> stopped (fst (Enqueue d t))"
  using Enqueue_cases [OF assms(1,2)] assms(3) startReadyLocked_inv by (metis startReadyLocked_stopped)

lemma finish_books:
  assumes "books cap d" "t \<in> set (workers d)"
  shows "books cap (d\<lparr>fdRunning := fdRunning d - {task_key t}, runningSites := runningSites d - {ftSiteID t},
       activeByType := (if activeByType d (ftTaskType t) > 0
         then (activeByType d)(ftTaskType t := activeByType d (ftTaskType t) - 1) else activeByType d),
       workers := remove1 t (workers d)\<rparr>)" (is "books cap ?e")
proof -
  have w: "distinct (map ftSiteID (workers d))" using assms(1) by (simp add: books_def)
  have pos: "0 < running_of (workers d) (ftTaskType t)"
    unfolding running_of_def by (rule length_pos_if_in_set [of t]) (use assms(2) in simp)
  have run: "int (running_of (workers ?e) ty) = int (running_of (workers d) ty) - (if ftTaskType t = ty then 1 else 0)" for ty
    using assms(2) pos by (auto simp: running_of_def filter_remove1 length_remove1 of_nat_diff Suc_leI)
  have set: "set (remove1 t (workers d)) = set (workers d) - {t}"
    using w by (simp add: distinct_map set_remove1_eq)
  have inj: "\<forall>u \<in> set (workers d). ftSiteID u = ftSiteID t \<longrightarrow> u = t"
    using w assms(2) by (auto simp: distinct_map inj_on_def)
  have dist: "distinct (map ftSiteID (remove1 t (workers d)))"
    using w by (metis distinct_map distinct_remove1 inj_on_subset set_remove1_subset)
  have run': "int (running_of (remove1 t (workers d)) ty) = int (running_of (workers d) ty) - (if ftTaskType t = ty then 1 else 0)" for ty
    using run [of ty] by simp
  have cap: "int (running_of (workers d) ty) - 1 \<le> max 1 (cap ty)" for ty
    by (rule order_trans [of _ "int (running_of (workers d) ty)"]) (use assms(1) in \<open>auto simp: books_def\<close>)
  show ?thesis
    using assms inj dist run' pos cap unfolding books_def by (auto simp: set image_iff)
qed

lemma complete_inv: "fast_inv cap d \<Longrightarrow> t \<in> set (workers d) \<Longrightarrow> fast_inv cap (complete d t)"
  unfolding complete_def
  by (rule startReadyLocked_fast_inv, rule finish_books) (auto simp: fast_inv_def)

lemma Shutdown_inv: "fast_inv cap d \<Longrightarrow> fast_inv cap (Shutdown d)"
  by (auto simp: fast_inv_def books_def Shutdown_def running_of_def)

interpretation fast: invariant_system "\<lambda>d. d = newFastTaskDispatcher" "fast_step cap" "fast_inv cap"
proof unfold_locales
  show "d = newFastTaskDispatcher \<Longrightarrow> fast_inv cap d" for d
    by (auto simp: fast_inv_def books_def newFastTaskDispatcher_def running_of_def)
  show "fast_inv cap d \<Longrightarrow> fast_step cap d e \<Longrightarrow> fast_inv cap e" for d e
    by (auto elim!: fast_step.cases intro: Enqueue_inv complete_inv Shutdown_inv)
qed

section \<open>Properties of the dispatcher\<close>

text \<open>A concrete history: a probe of site 1 runs, a realtime read of the same site and a probe of
  site 2 wait, because the site is busy and the probe limit is one.\<close>

definition sample_task :: "string \<Rightarrow> int \<Rightarrow> scheduledFastTask" where
  "sample_task ty i = \<lparr>ftHasContext = True, ftSiteID = i, ftTaskType = ty, ftRequestID = ''r'', ftConcurrency = 1\<rparr>"

definition sample_dispatcher :: fastTaskDispatcher where
  "sample_dispatcher =
     fst (Enqueue (fst (Enqueue (fst (Enqueue newFastTaskDispatcher (sample_task ''site_probe'' 1)))
       (sample_task ''realtime_stat'' 1))) (sample_task ''site_probe'' 2))"

lemma sample_dispatcher_run: "(fast_step (\<lambda>_. 1))\<^sup>*\<^sup>* newFastTaskDispatcher sample_dispatcher"
proof -
  have step: "(fast_step (\<lambda>_. 1))\<^sup>*\<^sup>* a (fst (Enqueue b (sample_task ty i)))"
    if "(fast_step (\<lambda>_. 1))\<^sup>*\<^sup>* a b" for a b ty i
    by (rule rtranclp.rtrancl_into_rtrancl [OF that], rule fast_step.enqueue) (simp add: sample_task_def)
  show ?thesis unfolding sample_dispatcher_def by (intro step rtranclp.rtrancl_refl)
qed





end
