(* ===== verification/Collector_Settings.thy ===== *)
theory Collector_Settings
  imports Task_Catalog "HOL-Library.Multiset"
begin

text \<open>
  Loading the collector settings (\<^verbatim>\<open>model/collector_setting.go\<close>): the rows of \<^verbatim>\<open>platform_setting\<close>
  whose key is one of the collector's, parsed and checked against the supported ranges. Every poll of
  the scheduler and the executor loads them again.
\<close>

section \<open>Load\<close>

record settingRow =
  srKey :: string
  srValue :: string
  srType :: string
  srSecret :: bool

datatype setting_error = InvalidIntegerContract string | SettingMissing string | SettingOutOfRange

text \<open>The settings in the order of the key list, each with its field.\<close>

definition setting_fields :: "(string \<times> (CollectorSettings \<Rightarrow> int)) list" where
  "setting_fields =
     [(''collector.probe_interval_seconds'', ProbeIntervalSeconds),
      (''collector.realtime_interval_seconds'', RealtimeIntervalSeconds),
      (''collector.resource_interval_seconds'', ResourceIntervalSeconds),
      (''collector.operational_interval_seconds'', OperationalIntervalSeconds),
      (''collector.catalog_interval_seconds'', CatalogIntervalSeconds),
      (''collector.usage_delay_minutes'', UsageDelayMinutes),
      (''collector.minute_retention_days'', MinuteRetentionDays),
      (''collector.probe_concurrency'', ProbeConcurrency),
      (''collector.realtime_concurrency'', RealtimeConcurrency),
      (''collector.resource_concurrency'', ResourceConcurrency),
      (''collector.metadata_concurrency'', MetadataConcurrency),
      (''collector.usage_concurrency'', UsageConcurrency),
      (''collector.backfill_concurrency'', BackfillConcurrency),
      (''collector.manual_backfill_max_days'', ManualBackfillMaxDays)]"

definition interval_supported :: "int \<Rightarrow> bool" where
  "interval_supported value \<longleftrightarrow> \<not> (value < 60 \<or> value > 3600 \<or> value mod 60 \<noteq> 0)"

definition concurrency_supported :: "int \<Rightarrow> bool" where
  "concurrency_supported value \<longleftrightarrow> \<not> (value < 1 \<or> value > 1000)"

definition validateCollectorSettings :: "CollectorSettings \<Rightarrow> bool" where
  "validateCollectorSettings settings \<longleftrightarrow>
     list_all interval_supported [ProbeIntervalSeconds settings, RealtimeIntervalSeconds settings,
       ResourceIntervalSeconds settings, OperationalIntervalSeconds settings, CatalogIntervalSeconds settings]
     \<and> \<not> (UsageDelayMinutes settings < 0 \<or> UsageDelayMinutes settings > 60
          \<or> MinuteRetentionDays settings < 1 \<or> MinuteRetentionDays settings > 3660
          \<or> ManualBackfillMaxDays settings < 1 \<or> ManualBackfillMaxDays settings > 3660)
     \<and> list_all concurrency_supported [ProbeConcurrency settings, RealtimeConcurrency settings,
       ResourceConcurrency settings, MetadataConcurrency settings, UsageConcurrency settings,
       BackfillConcurrency settings]"

text \<open>The map from keys to values; a later row of the same key replaces the earlier one.\<close>

fun setting_values :: "settingRow list \<Rightarrow> (string \<rightharpoonup> int) \<Rightarrow> setting_error + (string \<rightharpoonup> int)" where
  "setting_values [] values = Inr values"
| "setting_values (row # rows) values =
     (case ParseInt64 (srValue row) of
        None \<Rightarrow> Inl (InvalidIntegerContract (srKey row))
      | Some v \<Rightarrow> if srType row \<noteq> ''int'' \<or> srSecret row then Inl (InvalidIntegerContract (srKey row))
                  else setting_values rows (values(srKey row \<mapsto> v)))"

definition settings_of :: "(string \<Rightarrow> int) \<Rightarrow> CollectorSettings" where
  "settings_of v = \<lparr>ProbeIntervalSeconds = v ''collector.probe_interval_seconds'',
     RealtimeIntervalSeconds = v ''collector.realtime_interval_seconds'',
     ResourceIntervalSeconds = v ''collector.resource_interval_seconds'',
     OperationalIntervalSeconds = v ''collector.operational_interval_seconds'',
     CatalogIntervalSeconds = v ''collector.catalog_interval_seconds'',
     UsageDelayMinutes = v ''collector.usage_delay_minutes'',
     MinuteRetentionDays = v ''collector.minute_retention_days'',
     ProbeConcurrency = v ''collector.probe_concurrency'',
     RealtimeConcurrency = v ''collector.realtime_concurrency'',
     ResourceConcurrency = v ''collector.resource_concurrency'',
     MetadataConcurrency = v ''collector.metadata_concurrency'',
     UsageConcurrency = v ''collector.usage_concurrency'',
     BackfillConcurrency = v ''collector.backfill_concurrency'',
     ManualBackfillMaxDays = v ''collector.manual_backfill_max_days''\<rparr>"

definition Load :: "settingRow list \<Rightarrow> setting_error + CollectorSettings" where
  "Load platform_setting =
     and_then (setting_values (filter (\<lambda>row. srKey row \<in> fst ` set setting_fields) platform_setting) Map.empty) (\<lambda>values.
       case find (\<lambda>key. values key = None) (map fst setting_fields) of
         Some key \<Rightarrow> Inl (SettingMissing key)
       | None \<Rightarrow> (let settings = settings_of (\<lambda>key. the (values key))
                  in if validateCollectorSettings settings then Inr settings else Inl SettingOutOfRange))"

section \<open>Stored settings load back\<close>

definition setting_rows :: "CollectorSettings \<Rightarrow> settingRow list" where
  "setting_rows c = map (\<lambda>(key, field). \<lparr>srKey = key, srValue = FormatInt (field c), srType = ''int'', srSecret = False\<rparr>)
     setting_fields"

lemma setting_keys_distinct: "distinct (map fst setting_fields)"
  by (simp add: setting_fields_def)

definition readable :: "settingRow \<Rightarrow> bool" where
  "readable row \<longleftrightarrow> srType row = ''int'' \<and> \<not> srSecret row \<and> ParseInt64 (srValue row) \<noteq> None"

lemma setting_values_map_of:
  assumes "list_all readable rows"
  shows "setting_values rows m = Inr (m ++ map_of (rev (map (\<lambda>row. (srKey row, the (ParseInt64 (srValue row)))) rows)))"
  using assms by (induction rows arbitrary: m) (auto simp: readable_def map_add_def fun_eq_iff split: option.splits)

lemma settings_of_fields: "(\<And>k f. (k, f) \<in> set setting_fields \<Longrightarrow> v k = f c) \<Longrightarrow> settings_of v = c"
  by (simp add: settings_of_def setting_fields_def)

lemma loaded_values:
  assumes "mset rows = mset (setting_rows c)" and "\<forall>(k, f) \<in> set setting_fields. int64_ok (f c)"
  obtains vals where "setting_values rows Map.empty = Inr vals"
    and "\<And>k f. (k, f) \<in> set setting_fields \<Longrightarrow> vals k = Some (f c)"
proof -
  let ?pair = "\<lambda>row. (srKey row, the (ParseInt64 (srValue row)))"
  have rows: "set rows = set (setting_rows c)" using assms(1) by (rule mset_eq_setD)
  have parsed: "ParseInt64 (FormatInt (f c)) = Some (f c)" if "(k, f) \<in> set setting_fields" for k f
    using that assms(2) ParseInt64_FormatInt by blast
  have "list_all readable rows"
    unfolding list_all_iff rows setting_rows_def by (auto simp: readable_def parsed)
  then have "setting_values rows Map.empty = Inr (map_of (rev (map ?pair rows)))"
    by (simp add: setting_values_map_of)
  moreover have "map_of (rev (map ?pair rows)) k = Some (f c)" if f: "(k, f) \<in> set setting_fields" for k f
  proof (rule map_of_is_SomeI)
    have "map fst (setting_rows_pairs) = map fst setting_fields"
      if "setting_rows_pairs = map ?pair (setting_rows c)" for setting_rows_pairs :: "(string \<times> int) list"
      using that by (simp add: setting_rows_def split_beta)
    then have "distinct (map (fst \<circ> ?pair) (setting_rows c))" using setting_keys_distinct by (metis map_map)
    then have "distinct (map (fst \<circ> ?pair) rows)"
      using assms(1) by (metis mset_eq_imp_distinct_iff mset_map)
    then show "distinct (map fst (rev (map ?pair rows)))" by (simp add: rev_map [symmetric] comp_def)
    have "\<lparr>srKey = k, srValue = FormatInt (f c), srType = ''int'', srSecret = False\<rparr> \<in> set rows"
      unfolding rows setting_rows_def using f by force
    then have "(k, f c) \<in> ?pair ` set rows" using parsed [OF f] by force
    then show "(k, f c) \<in> set (rev (map ?pair rows))" by simp
  qed
  ultimately show thesis by (rule that)
qed

lemma Load_stored:
  assumes "mset (filter (\<lambda>row. srKey row \<in> fst ` set setting_fields) table) = mset (setting_rows c)"
    and "\<forall>(k, f) \<in> set setting_fields. int64_ok (f c)"
  shows "Load table = (if validateCollectorSettings c then Inr c else Inl SettingOutOfRange)"
proof -
  obtain vals where v: "setting_values (filter (\<lambda>row. srKey row \<in> fst ` set setting_fields) table) Map.empty = Inr vals"
    "\<And>k f. (k, f) \<in> set setting_fields \<Longrightarrow> vals k = Some (f c)"
    using loaded_values [OF assms] by blast
  have "find (\<lambda>key. vals key = None) (map fst setting_fields) = None"
    using v(2) by (auto simp: find_None_iff)
  moreover have "settings_of (\<lambda>key. the (vals key)) = c"
    by (rule settings_of_fields) (simp add: v(2))
  ultimately show ?thesis using v(1) by (simp add: Load_def)
qed

text \<open>
  C19. A table that stores the collector's fourteen settings, in any order and among any other rows, loads
  back to exactly these settings when they are in range, and is refused otherwise.
\<close>

theorem settings_load_back:
  assumes "mset (filter (\<lambda>row. srKey row \<in> fst ` set setting_fields) table) = mset (setting_rows c)"
    and "\<forall>(k, f) \<in> set setting_fields. int64_ok (f c)"
  shows "Load table = (if validateCollectorSettings c then Inr c else Inl SettingOutOfRange)"
  by (rule Load_stored [OF assms])

lemma Load_valid: "Load rows = Inr settings \<Longrightarrow> validateCollectorSettings settings"
  by (auto simp: Load_def Let_def elim!: and_then_InrE split: option.split_asm if_split_asm)

definition sample_settings :: CollectorSettings where
  "sample_settings = \<lparr>ProbeIntervalSeconds = 60, RealtimeIntervalSeconds = 60, ResourceIntervalSeconds = 300,
     OperationalIntervalSeconds = 300, CatalogIntervalSeconds = 3600, UsageDelayMinutes = 5, MinuteRetentionDays = 30,
     ProbeConcurrency = 10, RealtimeConcurrency = 10, ResourceConcurrency = 5, MetadataConcurrency = 5,
     UsageConcurrency = 5, BackfillConcurrency = 2, ManualBackfillMaxDays = 31\<rparr>"

lemma sample_settings_valid [simp]: "validateCollectorSettings sample_settings"
  by (simp add: validateCollectorSettings_def sample_settings_def interval_supported_def concurrency_supported_def)

lemma supported_int64: "validateCollectorSettings c \<Longrightarrow> (k, f) \<in> set setting_fields \<Longrightarrow> int64_ok (f c)"
  unfolding validateCollectorSettings_def setting_fields_def int64_ok_def interval_supported_def concurrency_supported_def
  by (elim conjE, simp, elim disjE; clarsimp)

lemma Load_setting_rows:
  assumes "validateCollectorSettings c"
  shows "Load (setting_rows c) = Inr c"
proof -
  have keep: "filter (\<lambda>row. srKey row \<in> fst ` set setting_fields) (setting_rows c) = setting_rows c"
    by (auto simp: filter_id_conv setting_rows_def intro: rev_image_eqI)
  have "\<forall>(k, f) \<in> set setting_fields. int64_ok (f c)" using supported_int64 [OF assms] by blast
  from Load_stored [OF _ this, of "setting_rows c"] show ?thesis using assms by (simp add: keep)
qed

theorem settings_load_back_witness:
  "Load (\<lparr>srKey = ''other'', srValue = ''x'', srType = ''string'', srSecret = True\<rparr> # rev (setting_rows sample_settings))
     = Inr sample_settings"
proof -
  have keep: "filter (\<lambda>row. srKey row \<in> fst ` set setting_fields) (rev (setting_rows sample_settings)) = rev (setting_rows sample_settings)"
    by (auto simp: filter_id_conv setting_rows_def intro: rev_image_eqI)
  have other: "''other'' \<notin> fst ` set setting_fields" by (simp add: setting_fields_def)
  have "\<forall>(k, f) \<in> set setting_fields. int64_ok (f sample_settings)"
    using supported_int64 [OF sample_settings_valid] by blast
  from settings_load_back [OF _ this, of "\<lparr>srKey = ''other'', srValue = ''x'', srType = ''string'', srSecret = True\<rparr>
      # rev (setting_rows sample_settings)"] show ?thesis
    by (simp add: keep other)
qed

end
