(* ===== verification/Scheduler.thy ===== *)
theory Scheduler
  imports Claim_Properties Fast_Dispatcher Collector_Settings
begin

text \<open>
  The scheduler (\<^verbatim>\<open>worker/scheduler.go\<close>): one tick offers fast tasks to the in-memory dispatcher, enqueues
  durable tasks per slot, the closed usage hour per site and recovery ranges for hours whose validation
  is due. Times are Unix seconds. A tick stops at the first error that is not a domain skip; what it
  did before stays, so a tick yields the new state and an optional error.
\<close>

section \<open>Slots, identifiers and jitter\<close>

definition scheduledRequestID :: "string \<Rightarrow> int \<Rightarrow> int \<Rightarrow> string" where
  "scheduledRequestID taskType siteID slot =
     ''sch_'' @ taskType @ ''_'' @ FormatInt siteID @ ''_'' @ FormatInt slot"

definition stableSiteJitterSeconds :: "int \<Rightarrow> int" where
  "stableSiteJitterSeconds siteID =
     (if siteID \<le> 0 then 0
      else let v0 = word_of_int siteID :: 64 word;
               v1 = v0 XOR drop_bit 33 v0;
               v2 = v1 * 0xff51afd7ed558ccd;
               v3 = v2 XOR drop_bit 33 v2
           in uint (v3 mod 11))"

definition scheduleDomainSkip :: "run_error \<Rightarrow> bool" where
  "scheduleDomainSkip e \<longleftrightarrow> e \<in> {ErrSiteRunConfigChanged, ErrSiteRunManagementInactive, ErrSiteRunAuthorizationNeeded,
     ErrSiteRunStatisticsEnded, ErrSiteRunExportDisabled, ErrSiteRunCapabilitiesPending, ErrSiteWindowRunOverlap}"

definition durableScheduleGroups :: "CollectorSettings \<Rightarrow> (int \<times> string list) list" where
  "durableScheduleGroups settings =
     [(OperationalIntervalSeconds settings,
       [TaskTypePerformanceSync, TaskTypeTopupSync, TaskTypeRedemptionSync, TaskTypeUpstreamTaskSync]),
      (CatalogIntervalSeconds settings,
       [TaskTypeModelMetaSync, TaskTypePlanSync, TaskTypePricingSync, TaskTypeSystemTaskSync])]"

definition fastTaskConcurrency :: "string \<Rightarrow> CollectorSettings \<Rightarrow> int" where
  "fastTaskConcurrency taskType settings =
     (if taskType = TaskTypeSiteProbe then ProbeConcurrency settings
      else if taskType = TaskTypeRealtimeStat then RealtimeConcurrency settings
      else if taskType = TaskTypeResourceSnapshot then ResourceConcurrency settings
      else 1)"

text \<open>The clamped jitter of a site within a slot.\<close>

definition site_delay :: "int \<Rightarrow> int \<Rightarrow> int" where
  "site_delay interval siteID =
     (let jitter = stableSiteJitterSeconds siteID in if jitter \<ge> interval then interval - 1 else jitter)"

section \<open>Loops with early return\<close>

text \<open>A Go loop over a slice whose body changes the state and may return an error.\<close>

fun each :: "('a \<Rightarrow> 's \<Rightarrow> 's \<times> 'e option) \<Rightarrow> 'a list \<Rightarrow> 's \<Rightarrow> 's \<times> 'e option" where
  "each f [] s = (s, None)"
| "each f (x # xs) s = (case f x s of (s', None) \<Rightarrow> each f xs s' | (s', Some e) \<Rightarrow> (s', Some e))"

text \<open>The body followed by the rest of the function.\<close>

definition next_stage :: "'s \<times> 'e option \<Rightarrow> ('s \<Rightarrow> 's \<times> 'e option) \<Rightarrow> 's \<times> 'e option" where
  "next_stage r f = (case r of (s, None) \<Rightarrow> f s | (s, Some e) \<Rightarrow> (s, Some e))"

section \<open>Queries\<close>

definition ListSitesForScheduling :: "store \<Rightarrow> Site list" where
  "ListSitesForScheduling db = sort_key sID (sites db)"

abbreviation MessageDataValidationMismatch :: string where
  "MessageDataValidationMismatch \<equiv> ''DATA_VALIDATION_MISMATCH''"

text \<open>End of the Beijing natural day that contains an hour.\<close>

definition date_end :: "int \<Rightarrow> int" where
  "date_end h = h - (h + 28800) mod 86400 + 86400"

definition validation_candidate :: "store \<Rightarrow> int list \<Rightarrow> int \<Rightarrow> CollectionWindow \<Rightarrow> bool" where
  "validation_candidate db siteIDs now w \<longleftrightarrow> fSiteID w \<in> set siteIDs
     \<and> \<not> list_ex (\<lambda>r. rSiteID r = Some (fSiteID w) \<and> rTaskType r = TaskTypeUsageValidation \<and> is_active (rStatus r)) (runs db)
     \<and> (fStatus w = ''complete'' \<or> (fStatus w = ''missing'' \<and> fLastErrorCode w = MessageDataValidationMismatch))
     \<and> now \<ge> fHourTS w - (fHourTS w + 28800) mod 86400 + 93600"

definition unverified :: "CollectionWindow \<Rightarrow> bool" where
  "unverified w \<longleftrightarrow> (case fVerifiedAt w of None \<Rightarrow> True | Some v \<Rightarrow> v < date_end (fHourTS w))"

definition validation_rank :: "CollectionWindow \<Rightarrow> int" where
  "validation_rank w = (if fLastErrorCode w = MessageDataValidationMismatch then 0 else if unverified w then 1 else 2)"

definition ListPendingValidationHours :: "store \<Rightarrow> int list \<Rightarrow> int \<Rightarrow> int \<Rightarrow> (int \<times> int) list result" where
  "ListPendingValidationHours db siteIDs now limitPerSite =
     (if now \<le> 0 \<or> limitPerSite \<le> 0 \<or> limitPerSite > 744 then Inl ErrCollectionRunContract
      else if siteIDs = [] then Inr []
      else
        let bounded = concat (map (\<lambda>i. take (nat limitPerSite) (sort_key (\<lambda>w. (validation_rank w, - fHourTS w))
              (filter (\<lambda>w. fSiteID w = i \<and> validation_candidate db siteIDs now w) (fact_windows db)))) (remdups siteIDs));
            due = filter (\<lambda>w. fLastErrorCode w = MessageDataValidationMismatch \<or> unverified w
              \<or> fFactRows w \<noteq> int (length (filter (\<lambda>f. f = (fSiteID w, fHourTS w)) (usage_facts db)))) bounded
        in Inr (map (\<lambda>w. (fSiteID w, fHourTS w)) (sort_key (\<lambda>w. (fSiteID w, fHourTS w)) due)))"

section \<open>Enqueueing\<close>

definition non_window_request :: "Site \<Rightarrow> string \<Rightarrow> int \<Rightarrow> int \<Rightarrow> SiteTaskEnqueueRequest" where
  "non_window_request site taskType slot now = \<lparr>eqSiteID = sID site, eqExpectedConfigVersion = sConfigVersion site,
     eqTaskType = taskType, eqTriggerType = TriggerSchedule, eqStartTimestamp = None, eqEndTimestamp = None,
     eqScope = ScopeBlank, eqPriority = 0, eqRequestID = scheduledRequestID taskType (sID site) slot, eqNow = now,
     eqMode = None\<rparr>"

definition enqueueNonWindowForSite :: "Site \<Rightarrow> string \<Rightarrow> int \<Rightarrow> int \<Rightarrow> store \<Rightarrow> store \<times> run_error option" where
  "enqueueNonWindowForSite site taskType slot now db =
     (case EnqueueSiteTask db (non_window_request site taskType slot now) of
        Inr (db', _, _) \<Rightarrow> (db', None)
      | Inl e \<Rightarrow> (db, if scheduleDomainSkip e then None else Some e))"

definition enqueueNonWindowForSites :: "Site list \<Rightarrow> string \<Rightarrow> int \<Rightarrow> int \<Rightarrow> store \<Rightarrow> store \<times> run_error option" where
  "enqueueNonWindowForSites sites' taskType slot now =
     each (\<lambda>site db. if schedulerSiteEligible site taskType then enqueueNonWindowForSite site taskType slot now db
       else (db, None)) sites'"

definition scheduled_window_request :: "Site \<Rightarrow> string \<Rightarrow> int \<Rightarrow> int \<Rightarrow> int \<Rightarrow> int \<Rightarrow> int \<Rightarrow> SiteTaskEnqueueRequest" where
  "scheduled_window_request site taskType priority start end' slot now = \<lparr>eqSiteID = sID site,
     eqExpectedConfigVersion = sConfigVersion site, eqTaskType = taskType, eqTriggerType = TriggerSchedule,
     eqStartTimestamp = Some start, eqEndTimestamp = Some end', eqScope = ScopeObject [], eqPriority = priority,
     eqRequestID = scheduledRequestID taskType (sID site) slot, eqNow = now, eqMode = Some SiteWindowRunSchedule\<rparr>"

definition enqueueWindowForSites ::
    "Site list \<Rightarrow> string \<Rightarrow> int \<Rightarrow> int \<Rightarrow> int \<Rightarrow> int \<Rightarrow> int \<Rightarrow> store \<Rightarrow> store \<times> run_error option" where
  "enqueueWindowForSites sites' taskType priority start end' slot now =
     each (\<lambda>site db.
       if \<not> schedulerSiteEligible site taskType then (db, None)
       else case EnqueueScheduledSiteWindowTask db (scheduled_window_request site taskType priority start end' slot now) of
              Inr (db', _) \<Rightarrow> (db', None)
            | Inl e \<Rightarrow> (db, if scheduleDomainSkip e then None else Some e)) sites'"

text \<open>The state is the store and the map from sites to their last scheduled slot (0 when absent).\<close>

definition enqueueWindowForEligibleSites ::
    "Site list \<Rightarrow> string \<Rightarrow> int \<Rightarrow> int \<Rightarrow> int \<Rightarrow> int \<Rightarrow> int \<Rightarrow> store \<times> (int \<Rightarrow> int) \<Rightarrow> (store \<times> (int \<Rightarrow> int)) \<times> run_error option" where
  "enqueueWindowForEligibleSites sites' taskType priority start end' slot now =
     each (\<lambda>site (db, marks).
       if \<not> schedulerSiteEligible site taskType \<or> marks (sID site) = slot then ((db, marks), None)
       else case enqueueWindowForSites [site] taskType priority start end' slot now db of
              (db', None) \<Rightarrow> ((db', marks(sID site := slot)), None)
            | (db', Some e) \<Rightarrow> ((db', marks), Some e)) sites'"

text \<open>Maximal runs of consecutive hours of one site.\<close>

fun extend_range :: "int \<Rightarrow> int \<Rightarrow> (int \<times> int) list \<Rightarrow> int \<times> (int \<times> int) list" where
  "extend_range siteID end' [] = (end', [])"
| "extend_range siteID end' ((s, h) # hours) =
     (if s = siteID \<and> h = end' then extend_range siteID (end' + 3600) hours else (end', (s, h) # hours))"

lemma extend_range_shorter: "length (snd (extend_range s e hs)) \<le> length hs"
  by (induction s e hs rule: extend_range.induct) auto

function recovery_ranges :: "(int \<times> int) list \<Rightarrow> (int \<times> int \<times> int) list" where
  "recovery_ranges [] = []"
| "recovery_ranges ((siteID, start) # hours) =
     (case extend_range siteID (start + 3600) hours of
        (end', rest) \<Rightarrow> (siteID, start, end') # recovery_ranges rest)"
  by pat_completeness auto
termination
proof (relation "measure length", goal_cases)
  case (2 siteID start hours e rest)
  then have "length rest \<le> length hours" using extend_range_shorter [of siteID "start + 3600" hours] by (metis snd_conv)
  then show ?case by simp
qed simp

definition enqueueHistoricalValidationRecovery :: "Site list \<Rightarrow> int \<Rightarrow> store \<Rightarrow> store \<times> run_error option" where
  "enqueueHistoricalValidationRecovery sites' now db =
     (let eligible = filter (\<lambda>s. schedulerSiteEligible s TaskTypeUsageValidation) sites'
      in if eligible = [] then (db, None)
         else case ListPendingValidationHours db (map sID eligible) now 6 of
                Inl e \<Rightarrow> (db, Some e)
              | Inr hours \<Rightarrow>
                  each (\<lambda>(siteID, start, end') d.
                    case find (\<lambda>s. sID s = siteID) (rev eligible) of
                      None \<Rightarrow> (d, Some ErrCollectionRunContract)
                    | Some site \<Rightarrow> enqueueWindowForSites [site] TaskTypeUsageValidation PriorityDailyValidation start end'
                        (now * 1000000 + (start div 3600) mod 1000000) now d) (recovery_ranges hours) db)"

section \<open>One tick\<close>

text \<open>The scheduler's fields; its repository is the store, a nil pointer is \<open>None\<close> or \<open>False\<close>.\<close>

record Scheduler =
  repository :: store
  lastFastState :: "string \<Rightarrow> (int \<times> int) option"
  lastMetadataHour :: int
  lastUsageHourBySite :: "int \<Rightarrow> int"
  initialized :: bool
  fastStartup :: bool
  fastTasks :: "fastTaskDispatcher option"
  fastTaskCtx :: bool
  siteJobs :: bool

datatype scheduler_error = SettingsError setting_error | RunError run_error

definition NewScheduler :: "store \<Rightarrow> bool \<Rightarrow> Scheduler" where
  "NewScheduler db jobs = \<lparr>repository = db, lastFastState = (\<lambda>_. None), lastMetadataHour = 0,
     lastUsageHourBySite = (\<lambda>_. 0), initialized = False, fastStartup = False,
     fastTasks = Some newFastTaskDispatcher, fastTaskCtx = True, siteJobs = jobs\<rparr>"

definition slot_start :: "int \<Rightarrow> int \<Rightarrow> int" where
  "slot_start now interval = now - now mod interval"

text \<open>Fast tasks: offered to the dispatcher once per slot; the offer is remembered when it is accepted.\<close>

definition fast_intervals :: "CollectorSettings \<Rightarrow> (string \<times> int) list" where
  "fast_intervals settings = [(TaskTypeSiteProbe, ProbeIntervalSeconds settings),
     (TaskTypeRealtimeStat, RealtimeIntervalSeconds settings),
     (TaskTypeResourceSnapshot, ResourceIntervalSeconds settings)]"

definition fast_task :: "CollectorSettings \<Rightarrow> bool \<Rightarrow> string \<Rightarrow> int \<Rightarrow> int \<Rightarrow> scheduledFastTask" where
  "fast_task settings ctx taskType siteID slot = \<lparr>ftHasContext = ctx, ftSiteID = siteID, ftTaskType = taskType,
     ftRequestID = scheduledRequestID taskType siteID slot, ftConcurrency = fastTaskConcurrency taskType settings\<rparr>"

definition offer_fast :: "CollectorSettings \<Rightarrow> bool \<Rightarrow> int \<Rightarrow> string \<times> int \<Rightarrow> Site \<Rightarrow> Scheduler \<Rightarrow> Scheduler" where
  "offer_fast settings force now task site s =
     (let (taskType, interval) = task; slot = slot_start now interval; key = fastScheduleKey taskType (sID site)
      in if \<not> schedulerSiteEligible site taskType then s
         else if lastFastState s key = Some (interval, slot) \<and> \<not> force then s
         else if \<not> force \<and> now < slot + site_delay interval (sID site) then s
         else if \<not> siteJobs s then s
         else case fastTasks s of
                None \<Rightarrow> s
              | Some d \<Rightarrow>
                  (case Enqueue d (fast_task settings (fastTaskCtx s) taskType (sID site) slot) of
                     (d', True) \<Rightarrow> s\<lparr>fastTasks := Some d',
                        lastFastState := (lastFastState s)(key \<mapsto> (interval, slot))\<rparr>
                   | (d', False) \<Rightarrow> s\<lparr>fastTasks := Some d'\<rparr>))"

definition offer_fast_tasks :: "CollectorSettings \<Rightarrow> bool \<Rightarrow> int \<Rightarrow> Site list \<Rightarrow> Scheduler \<Rightarrow> Scheduler" where
  "offer_fast_tasks settings force now sites' =
     fold (\<lambda>task. fold (offer_fast settings force now task) sites') (fast_intervals settings)"

text \<open>Durable tasks: one request identifier per slot, so a repeated request in a slot finds the first run.\<close>

definition durable_site :: "bool \<Rightarrow> int \<Rightarrow> int \<Rightarrow> string \<Rightarrow> Site \<Rightarrow> store \<Rightarrow> store \<times> run_error option" where
  "durable_site force now interval taskType site db =
     (let slot = slot_start now interval
      in if \<not> schedulerSiteEligible site taskType then (db, None)
         else if \<not> force \<and> now < slot + site_delay interval (sID site) then (db, None)
         else enqueueNonWindowForSite site taskType slot now db)"

definition durable_tasks :: "CollectorSettings \<Rightarrow> bool \<Rightarrow> int \<Rightarrow> Site list \<Rightarrow> store \<Rightarrow> store \<times> run_error option" where
  "durable_tasks settings force now sites' =
     each (\<lambda>(interval, taskTypes). each (\<lambda>taskType. each (durable_site force now interval taskType) sites') taskTypes)
       (durableScheduleGroups settings)"

text \<open>A stage that only changes the store.\<close>

definition on_repository :: "(store \<Rightarrow> store \<times> run_error option) \<Rightarrow> Scheduler \<Rightarrow> Scheduler \<times> run_error option" where
  "on_repository f s = (case f (repository s) of (db, e) \<Rightarrow> (s\<lparr>repository := db\<rparr>, e))"

definition metadata_stage :: "bool \<Rightarrow> int \<Rightarrow> Site list \<Rightarrow> Scheduler \<Rightarrow> Scheduler \<times> run_error option" where
  "metadata_stage startup now sites' s =
     (let hour = now div 3600
      in if startup \<and> \<not> initialized s then (s\<lparr>lastMetadataHour := hour\<rparr>, None)
         else if lastMetadataHour s \<noteq> hour
         then next_stage (on_repository (each (\<lambda>taskType. enqueueNonWindowForSites sites' taskType hour now)
                [TaskTypeUserSync, TaskTypeChannelSync, TaskTypeLogSync]) s)
              (\<lambda>s'. (s'\<lparr>lastMetadataHour := hour\<rparr>, None))
         else (s, None))"

definition usage_stage :: "CollectorSettings \<Rightarrow> int \<Rightarrow> Site list \<Rightarrow> Scheduler \<Rightarrow> Scheduler \<times> run_error option" where
  "usage_stage settings now sites' s =
     (let hourStart = now - now mod 3600
      in if now \<ge> hourStart + UsageDelayMinutes settings * 60 \<and> hourStart \<ge> 3600
         then (case enqueueWindowForEligibleSites sites' TaskTypeUsageHour PriorityUsageRealtime (hourStart - 3600)
                 hourStart hourStart now (repository s, lastUsageHourBySite s) of
                 ((db, marks), e) \<Rightarrow> (s\<lparr>repository := db, lastUsageHourBySite := marks\<rparr>, e))
         else (s, None))"

definition beijing_hour :: "int \<Rightarrow> int" where
  "beijing_hour now = (now + 28800) div 3600 mod 24"

definition validation_stage :: "int \<Rightarrow> Site list \<Rightarrow> Scheduler \<Rightarrow> Scheduler \<times> run_error option" where
  "validation_stage now sites' s =
     (if beijing_hour now \<ge> 2 then on_repository (enqueueHistoricalValidationRecovery sites' now) s else (s, None))"

text \<open>The stages after the settings and the site list have been read.\<close>

definition tick_stages :: "CollectorSettings \<Rightarrow> int \<Rightarrow> bool \<Rightarrow> Scheduler \<Rightarrow> Scheduler \<times> run_error option" where
  "tick_stages settings now startup s =
     (let sites' = ListSitesForScheduling (repository s); force = startup \<and> fastStartup s
      in next_stage (on_repository (durable_tasks settings force now sites') (offer_fast_tasks settings force now sites' s))
        (\<lambda>s. next_stage (metadata_stage startup now sites' s)
        (\<lambda>s. next_stage (usage_stage settings now sites' s)
        (\<lambda>s. next_stage (validation_stage now sites' s)
        (\<lambda>s. (s\<lparr>initialized := True, fastStartup := False\<rparr>, None))))))"

definition runOnce :: "settingRow list \<Rightarrow> int \<Rightarrow> bool \<Rightarrow> Scheduler \<Rightarrow> Scheduler \<times> scheduler_error option" where
  "runOnce platform_setting now startup s =
     (case Load platform_setting of
        Inl e \<Rightarrow> (s, Some (SettingsError e))
      | Inr settings \<Rightarrow> (case tick_stages settings now startup s of (s', e) \<Rightarrow> (s', map_option RunError e)))"

section \<open>Lifecycle\<close>

text \<open>The previous dispatcher is shut down and replaced; its running goroutines end on their own.\<close>

definition startFastTaskLifecycle :: "Scheduler \<Rightarrow> Scheduler" where
  "startFastTaskLifecycle s = s\<lparr>fastTasks := Some newFastTaskDispatcher, fastTaskCtx := True, fastStartup := True\<rparr>"

definition shutdownFastTasks :: "Scheduler \<Rightarrow> Scheduler" where
  "shutdownFastTasks s = s\<lparr>fastTasks := None, fastTaskCtx := False, fastStartup := False\<rparr>"

definition Startup :: "settingRow list \<Rightarrow> int \<Rightarrow> Scheduler \<Rightarrow> Scheduler \<times> scheduler_error option" where
  "Startup platform_setting now s =
     (case runOnce platform_setting now True (startFastTaskLifecycle s) of
        (s', None) \<Rightarrow> (s', None)
      | (s', Some e) \<Rightarrow> (shutdownFastTasks s', Some e))"

definition RunOnce :: "settingRow list \<Rightarrow> int \<Rightarrow> Scheduler \<Rightarrow> Scheduler \<times> scheduler_error option" where
  "RunOnce platform_setting now s = runOnce platform_setting now False s"

section \<open>Fast task execution\<close>

definition FindSiteForScheduling :: "store \<Rightarrow> int \<Rightarrow> Site result" where
  "FindSiteForScheduling db siteID = (if siteID \<le> 0 then Inl ErrCollectionRunContract else found (site_by_id db siteID))"

definition fastTaskFailureStateChanged :: "string \<Rightarrow> Site \<Rightarrow> Site \<Rightarrow> bool" where
  "fastTaskFailureStateChanged taskType before after =
     (if sAuthStatus before \<noteq> sAuthStatus after \<and> sAuthStatus after = ''expired'' then True
      else if taskType \<noteq> TaskTypeSiteProbe then False
      else if sOnlineStatus before \<noteq> SiteOffline \<and> sOnlineStatus after = SiteOffline then True
      else if sDataExportEnabled before \<and> \<not> sDataExportEnabled after then True
      else sStatisticsStatus before \<noteq> sStatisticsStatus after
           \<and> (sStatisticsStatus after = ''pending_config'' \<or> sStatisticsStatus after = ''error''))"

text \<open>The site the task was offered with is the pair of its identifier and configuration version;
  \<open>ExecutePeriodicSiteTask\<close> stands for the job runner, which changes the store and may fail.\<close>

definition executeFastTask ::
    "(store \<Rightarrow> string \<Rightarrow> int \<Rightarrow> int \<Rightarrow> string \<Rightarrow> store \<times> bool) \<Rightarrow> scheduledFastTask \<Rightarrow> int \<Rightarrow> int \<Rightarrow> store \<Rightarrow> store \<times> bool" where
  "executeFastTask ExecutePeriodicSiteTask task configVersion now db =
     (case FindSiteForScheduling db (ftSiteID task) of
        Inl e \<Rightarrow> (db, False)
      | Inr before \<Rightarrow>
          if sConfigVersion before \<noteq> configVersion \<or> \<not> schedulerSiteEligible before (ftTaskType task) then (db, False)
          else case ExecutePeriodicSiteTask db (ftTaskType task) (ftSiteID task) configVersion (ftRequestID task) of
                 (db1, ok) \<Rightarrow>
                   (case FindSiteForScheduling db1 (ftSiteID task) of
                      Inl e \<Rightarrow> (db1, ok)
                    | Inr after \<Rightarrow>
                        if \<not> fastTaskFailureStateChanged (ftTaskType task) before after then (db1, ok)
                        else case RecordScheduledSiteTaskDiagnostic db1 (ftSiteID task) (ftTaskType task)
                               (ftRequestID task @ ''_diag'')
                               (if ok then ''SCHEDULED_STATE_TRANSITION'' else CollectionTaskExecutionFailedCode) now of
                               Inl e \<Rightarrow> (db1, ok)
                             | Inr (db2, _) \<Rightarrow> (db2, ok)))"

end
