(* ===== verification/Scheduler_Properties.thy ===== *)
theory Scheduler_Properties
  imports Scheduler
begin

text \<open>
  Properties of the scheduler: a tick is a sequence of the claim protocol's transactions and of
  dispatcher calls, fast tasks are offered once per slot, the closed hour is scheduled for every eligible
  site, and due validation hours are regrouped into ranges without loss.
\<close>

section \<open>Loops as sequences of steps\<close>

text \<open>A reflexive and transitive relation between the states before and after a loop body holds of the loop.\<close>

locale loop_relation =
  fixes R :: "'s \<Rightarrow> 's \<Rightarrow> bool"
  assumes refl: "R s s" and trans: "R s t \<Longrightarrow> R t u \<Longrightarrow> R s u"
begin

lemma each_related:
  assumes "\<And>x s. x \<in> set xs \<Longrightarrow> R s (fst (f x s))"
  shows "R s (fst (each f xs s))"
  using assms
proof (induction xs arbitrary: s)
  case (Cons x xs)
  obtain s' e where f: "f x s = (s', e)" by force
  then have "R s s'" using Cons.prems [of x s] by simp
  moreover have "R s' (fst (each f xs s'))" using Cons by simp
  ultimately show ?case using f by (cases e) (auto intro: trans)
qed (simp add: refl)

lemma fold_related:
  assumes "\<And>x s. x \<in> set xs \<Longrightarrow> R s (f x s)"
  shows "R s (fold f xs s)"
  using assms by (induction xs arbitrary: s) (auto intro: refl trans)

lemma next_stage_related:
  assumes "R s (fst r)" and "\<And>t. R t (fst (f t))"
  shows "R s (fst (next_stage r f))"
  using assms by (cases r; cases "snd r") (auto simp: next_stage_def intro: trans)

end

interpretation transactions: loop_relation "claim_step\<^sup>*\<^sup>*"
  by unfold_locales auto

interpretation tick: loop_relation "\<lambda>s t. claim_step\<^sup>*\<^sup>* (repository s) (repository t)"
  by unfold_locales auto

lemma enqueueNonWindowForSite_steps: "claim_step\<^sup>*\<^sup>* db (fst (enqueueNonWindowForSite site t slot now db))"
  by (auto simp: enqueueNonWindowForSite_def split: sum.splits intro: claim_step.enqueue)

lemma enqueueNonWindowForSites_steps: "claim_step\<^sup>*\<^sup>* db (fst (enqueueNonWindowForSites ss t slot now db))"
  unfolding enqueueNonWindowForSites_def
  by (rule transactions.each_related) (simp add: enqueueNonWindowForSite_steps)

lemma scheduled_window_step:
  "EnqueueScheduledSiteWindowTask db q = Inr (db', rs) \<Longrightarrow> claim_step db db'"
  by (auto simp: EnqueueScheduledSiteWindowTask_def elim!: and_then_InrE split: if_split_asm option.split_asm
      intro: claim_step.create_windows)

lemma enqueueWindowForSites_steps: "claim_step\<^sup>*\<^sup>* db (fst (enqueueWindowForSites ss t p a b slot now db))"
  unfolding enqueueWindowForSites_def
  by (rule transactions.each_related) (auto split: sum.splits dest: scheduled_window_step)

interpretation marked: loop_relation "\<lambda>(s::store \<times> (int \<Rightarrow> int)) t. claim_step\<^sup>*\<^sup>* (fst s) (fst t)"
  by unfold_locales auto

lemma enqueueWindowForEligibleSites_steps:
  "claim_step\<^sup>*\<^sup>* (fst s) (fst (fst (enqueueWindowForEligibleSites ss t p a b slot now s)))"
  unfolding enqueueWindowForEligibleSites_def
proof (rule marked.each_related)
  fix site :: Site and s :: "store \<times> (int \<Rightarrow> int)"
  obtain db m where s: "s = (db, m)" by force
  show "claim_step\<^sup>*\<^sup>* (fst s) (fst (fst ((\<lambda>(db, marks). if \<not> schedulerSiteEligible site t \<or> marks (sID site) = slot then ((db, marks), None)
       else case enqueueWindowForSites [site] t p a b slot now db of
              (db', None) \<Rightarrow> ((db', marks(sID site := slot)), None)
            | (db', Some e) \<Rightarrow> ((db', marks), Some e)) s)))"
    using enqueueWindowForSites_steps [of db "[site]" t p a b slot now] unfolding s
    by (auto split: prod.splits option.splits)
qed

lemma validation_recovery_steps: "claim_step\<^sup>*\<^sup>* db (fst (enqueueHistoricalValidationRecovery ss now db))"
proof -
  have "claim_step\<^sup>*\<^sup>* db (fst (each (\<lambda>(siteID, start, end') d.
      case find (\<lambda>s. sID s = siteID) (rev eligible) of None \<Rightarrow> (d, Some ErrCollectionRunContract)
      | Some site \<Rightarrow> enqueueWindowForSites [site] TaskTypeUsageValidation PriorityDailyValidation start end'
          (now * 1000000 + (start div 3600) mod 1000000) now d) rs db))" for eligible rs
    by (rule transactions.each_related) (auto split: option.splits intro: enqueueWindowForSites_steps)
  then show ?thesis
    by (simp add: enqueueHistoricalValidationRecovery_def Let_def split: sum.splits)
qed

lemma durable_tasks_steps: "claim_step\<^sup>*\<^sup>* db (fst (durable_tasks settings force now ss db))"
  unfolding durable_tasks_def
  by (rule transactions.each_related, clarsimp, rule transactions.each_related, rule transactions.each_related)
    (simp add: durable_site_def Let_def enqueueNonWindowForSite_steps)

lemma on_repository_steps:
  assumes "\<And>db. claim_step\<^sup>*\<^sup>* db (fst (f db))"
  shows "claim_step\<^sup>*\<^sup>* (repository s) (repository (fst (on_repository f s)))"
  using assms [of "repository s"] by (auto simp: on_repository_def split: prod.splits)

lemma offer_fast_repository [simp]: "repository (offer_fast settings force now task site s) = repository s"
  by (auto simp: offer_fast_def Let_def split: prod.splits option.splits bool.splits)

lemma offer_fast_tasks_steps: "claim_step\<^sup>*\<^sup>* (repository s) (repository (offer_fast_tasks settings force now ss s))"
  unfolding offer_fast_tasks_def
  by (intro tick.fold_related) simp

lemma metadata_stage_steps: "claim_step\<^sup>*\<^sup>* (repository s) (repository (fst (metadata_stage startup now ss s)))"
proof -
  have "claim_step\<^sup>*\<^sup>* db (fst (each (\<lambda>t. enqueueNonWindowForSites ss t hour now) ts db))" for ts hour db
    by (rule transactions.each_related) (rule enqueueNonWindowForSites_steps)
  note s = on_repository_steps [OF this]
  show ?thesis
    by (simp add: metadata_stage_def Let_def) (auto intro: tick.next_stage_related s)
qed

lemma usage_stage_steps: "claim_step\<^sup>*\<^sup>* (repository s) (repository (fst (usage_stage settings now ss s)))"
  using enqueueWindowForEligibleSites_steps [of "(repository s, lastUsageHourBySite s)"]
  by (auto simp: usage_stage_def Let_def split: prod.splits dest: meta_spec) (metis fst_conv)

lemma validation_stage_steps: "claim_step\<^sup>*\<^sup>* (repository s) (repository (fst (validation_stage now ss s)))"
  by (simp add: validation_stage_def on_repository_steps validation_recovery_steps)

lemma tick_stages_steps: "claim_step\<^sup>*\<^sup>* (repository s) (repository (fst (tick_stages settings now startup s)))"
proof -
  let ?ss = "ListSitesForScheduling (repository s)" and ?force = "startup \<and> fastStartup s"
  have "claim_step\<^sup>*\<^sup>* (repository s) (repository (fst (on_repository (durable_tasks settings ?force now ?ss)
      (offer_fast_tasks settings ?force now ?ss s))))"
    by (rule tick.trans [OF offer_fast_tasks_steps on_repository_steps]) (rule durable_tasks_steps)
  then show ?thesis unfolding tick_stages_def Let_def
    by (intro tick.next_stage_related metadata_stage_steps usage_stage_steps validation_stage_steps) auto
qed

lemma runOnce_steps: "claim_step\<^sup>*\<^sup>* (repository s) (repository (fst (runOnce rows now startup s)))"
  using tick_stages_steps [of s _ now startup] by (auto simp: runOnce_def split: sum.splits prod.splits) (metis fst_conv)

section \<open>Offers to the dispatcher\<close>

definition tasks_of :: "fastTaskDispatcher \<Rightarrow> scheduledFastTask set" where
  "tasks_of d = set (pending d) \<union> set (workers d)"

text \<open>The fast tasks that are queued or running.\<close>

definition dispatched :: "Scheduler \<Rightarrow> scheduledFastTask set" where
  "dispatched s = (case fastTasks s of None \<Rightarrow> {} | Some d \<Rightarrow> tasks_of d)"

lemma startReadyLocked_tasks: "tasks_of (startReadyLocked d) = tasks_of d"
proof (induction d rule: startReadyLocked.induct)
  case (1 d)
  show ?case
  proof (cases "stopped d \<or> List.extract (startable d) (pending d) = None")
    case True
    then show ?thesis by (subst startReadyLocked.simps) auto
  next
    case False
    then obtain bf t af where e: "List.extract (startable d) (pending d) = Some (bf, t, af)" by auto
    then have "tasks_of (start_task d t (bf @ af)) = tasks_of d"
      by (auto simp: extract_Some_iff tasks_of_def start_task_def)
    then show ?thesis using 1 [of "(bf, t, af)" bf "(t, af)" t af] False e by (subst startReadyLocked.simps) simp
  qed
qed

lemma Enqueue_tasks: "tasks_of (fst (Enqueue d t)) = (if snd (Enqueue d t) then insert (with_concurrency t) (tasks_of d) else tasks_of d)"
  by (auto simp: Enqueue_def Let_def startReadyLocked_tasks) (auto simp: tasks_of_def)

text \<open>A new fast task: offered in its slot for an eligible site, after the site's delay, and remembered.\<close>

definition in_slot :: "CollectorSettings \<Rightarrow> bool \<Rightarrow> int \<Rightarrow> Site list \<Rightarrow> Scheduler \<Rightarrow> Scheduler \<Rightarrow> scheduledFastTask \<Rightarrow> bool" where
  "in_slot settings force now ss s s' t \<longleftrightarrow>
     (\<exists>site \<in> set ss. \<exists>interval. (ftTaskType t, interval) \<in> set (fast_intervals settings)
        \<and> ftSiteID t = sID site \<and> schedulerSiteEligible site (ftTaskType t)
        \<and> ftRequestID t = scheduledRequestID (ftTaskType t) (sID site) (slot_start now interval)
        \<and> lastFastState s' (task_key t) = Some (interval, slot_start now interval)
        \<and> (\<not> force \<longrightarrow> lastFastState s (task_key t) \<noteq> Some (interval, slot_start now interval)
              \<and> slot_start now interval + site_delay interval (sID site) \<le> now))"

definition offers_ok :: "CollectorSettings \<Rightarrow> bool \<Rightarrow> int \<Rightarrow> Site list \<Rightarrow> Scheduler \<Rightarrow> Scheduler \<Rightarrow> bool" where
  "offers_ok settings force now ss s s' \<longleftrightarrow>
     (\<forall>t \<in> dispatched s' - dispatched s. in_slot settings force now ss s s' t)
     \<and> (\<forall>key. lastFastState s' key = lastFastState s key
          \<or> (\<exists>taskType interval i. (taskType, interval) \<in> set (fast_intervals settings) \<and> key = fastScheduleKey taskType i
               \<and> lastFastState s' key = Some (interval, slot_start now interval)))"

lemma fast_interval_unique:
  "(ty, a) \<in> set (fast_intervals settings) \<Longrightarrow> (ty, b) \<in> set (fast_intervals settings) \<Longrightarrow> a = b"
  by (auto simp: fast_intervals_def)

lemma with_concurrency_fields [simp]:
  "ftSiteID (with_concurrency t) = ftSiteID t" "ftTaskType (with_concurrency t) = ftTaskType t"
  "ftRequestID (with_concurrency t) = ftRequestID t"
  by (simp_all add: with_concurrency_def)

lemma in_slot_update:
  assumes "in_slot settings force now ss s s' t" "(ty, iv) \<in> set (fast_intervals settings)"
  shows "in_slot settings force now ss s (s'\<lparr>fastTasks := d,
     lastFastState := (lastFastState s')(fastScheduleKey ty i \<mapsto> (iv, slot_start now iv))\<rparr>) t"
proof -
  have "lastFastState (s'\<lparr>fastTasks := d, lastFastState := (lastFastState s')(fastScheduleKey ty i \<mapsto> (iv, slot_start now iv))\<rparr>)
      (task_key t) = Some (interval, slot_start now interval)"
    if "(ftTaskType t, interval) \<in> set (fast_intervals settings)"
      "lastFastState s' (task_key t) = Some (interval, slot_start now interval)" for interval
    using that fast_interval_unique [OF assms(2), of interval] by auto
  then show ?thesis using assms(1) unfolding in_slot_def by blast
qed

lemma offer_fast_ok:
  assumes ok: "offers_ok settings force now ss s s'" and task: "(ty, iv) \<in> set (fast_intervals settings)"
    and site: "site \<in> set ss"
  shows "offers_ok settings force now ss s (offer_fast settings force now (ty, iv) site s')"
proof -
  let ?slot = "slot_start now iv" and ?key = "fastScheduleKey ty (sID site)"
  let ?t = "\<lambda>ctx. fast_task settings ctx ty (sID site) ?slot"
  let ?s1 = "\<lambda>d. s'\<lparr>fastTasks := Some d, lastFastState := (lastFastState s')(?key \<mapsto> (iv, ?slot))\<rparr>"
  consider (same) "offer_fast settings force now (ty, iv) site s' = s'"
    | (rejected) d d' where "fastTasks s' = Some d" "Enqueue d (?t (fastTaskCtx s')) = (d', False)"
        "offer_fast settings force now (ty, iv) site s' = s'\<lparr>fastTasks := Some d'\<rparr>"
    | (accepted) d d' where "fastTasks s' = Some d" "Enqueue d (?t (fastTaskCtx s')) = (d', True)"
        "schedulerSiteEligible site ty" "force \<or> lastFastState s' ?key \<noteq> Some (iv, ?slot)"
        "force \<or> ?slot + site_delay iv (sID site) \<le> now"
        "offer_fast settings force now (ty, iv) site s' = ?s1 d'"
  proof (cases "fastTasks s' \<noteq> None \<and> schedulerSiteEligible site ty \<and> (force \<or> lastFastState s' ?key \<noteq> Some (iv, ?slot))
      \<and> (force \<or> ?slot + site_delay iv (sID site) \<le> now) \<and> siteJobs s'")
    case False
    then have "offer_fast settings force now (ty, iv) site s' = s'" by (auto simp: offer_fast_def Let_def)
    then show thesis by (rule same)
  next
    case True
    then obtain d where d: "fastTasks s' = Some d" by auto
    obtain d' b where e: "Enqueue d (?t (fastTaskCtx s')) = (d', b)" by force
    have "offer_fast settings force now (ty, iv) site s' = (if b then ?s1 d' else s'\<lparr>fastTasks := Some d'\<rparr>)"
      using True d e by (auto simp: offer_fast_def Let_def)
    then show thesis using rejected [OF d] accepted [OF d] True e by (cases b) auto
  qed
  then show ?thesis
  proof cases
    case rejected
    then have "dispatched (s'\<lparr>fastTasks := Some d'\<rparr>) = dispatched s'"
      using Enqueue_tasks [of d "?t (fastTaskCtx s')"] by (simp add: dispatched_def)
    then show ?thesis using ok rejected(3) by (simp add: offers_ok_def in_slot_def)
  next
    case accepted
    let ?new = "with_concurrency (?t (fastTaskCtx s'))"
    have d: "dispatched (?s1 d') = insert ?new (dispatched s')"
      using accepted(1,2) Enqueue_tasks [of d "?t (fastTaskCtx s')"] by (simp add: dispatched_def)
    have "lastFastState s' ?key = lastFastState s ?key \<or> lastFastState s' ?key = Some (iv, ?slot)"
      using ok task fast_interval_unique unfolding offers_ok_def by fastforce
    then have "in_slot settings force now ss s (?s1 d') ?new"
      using accepted(3-5) task site by (auto simp: in_slot_def fast_task_def)
    moreover have "in_slot settings force now ss s (?s1 d') t" if "t \<in> dispatched s'" "t \<notin> dispatched s" for t
      using in_slot_update [OF _ task] ok that by (simp add: offers_ok_def)
    ultimately show ?thesis using ok task d accepted(6) by (auto simp: offers_ok_def)
  qed (use ok in simp)
qed

lemma offer_fast_tasks_ok: "offers_ok settings force now ss s (offer_fast_tasks settings force now ss s)"
  unfolding offer_fast_tasks_def
proof (rule fold_invariant [where Q = "\<lambda>task. task \<in> set (fast_intervals settings)"])
  show "offers_ok settings force now ss s s" by (simp add: offers_ok_def)
  show "offers_ok settings force now ss s (fold (offer_fast settings force now task) ss s')"
    if "task \<in> set (fast_intervals settings)" "offers_ok settings force now ss s s'" for task s'
  proof (rule fold_invariant [where Q = "\<lambda>site. site \<in> set ss"])
    show "offers_ok settings force now ss s (offer_fast settings force now task site x)"
      if "site \<in> set ss" "offers_ok settings force now ss s x" for site x
      using offer_fast_ok [OF that(2), of "fst task" "snd task"] that(1) \<open>task \<in> _\<close> by simp
  qed (use that in auto)
qed auto

text \<open>The later stages do not touch the dispatcher.\<close>

definition fast_part :: "Scheduler \<Rightarrow> fastTaskDispatcher option \<times> (string \<Rightarrow> (int \<times> int) option)" where
  "fast_part s = (fastTasks s, lastFastState s)"

interpretation fast_untouched: loop_relation "\<lambda>s t. fast_part s = fast_part t"
  by unfold_locales auto

lemma stages_fast_part:
  "fast_part s = fast_part (fst (on_repository f s))"
  "fast_part s = fast_part (fst (metadata_stage startup now ss s))"
  "fast_part s = fast_part (fst (usage_stage settings now ss s))"
  "fast_part s = fast_part (fst (validation_stage now ss s))"
  by (auto simp: fast_part_def on_repository_def metadata_stage_def usage_stage_def validation_stage_def next_stage_def Let_def
      split: prod.splits option.splits)

lemma tick_fast_part:
  "fast_part (fst (tick_stages settings now startup s))
     = fast_part (offer_fast_tasks settings (startup \<and> fastStartup s) now (ListSitesForScheduling (repository s)) s)"
proof -
  have "fast_part (offer_fast_tasks settings (startup \<and> fastStartup s) now (ListSitesForScheduling (repository s)) s)
      = fast_part (fst (tick_stages settings now startup s))"
    unfolding tick_stages_def Let_def
    by (intro fast_untouched.next_stage_related stages_fast_part) (simp add: fast_part_def)
  then show ?thesis by simp
qed

section \<open>Jitter\<close>

lemma stableSiteJitterSeconds_bounds: "0 \<le> stableSiteJitterSeconds i \<and> stableSiteJitterSeconds i \<le> 10"
proof -
  have "uint (v mod 11) \<le> 10" for v :: "64 word"
    by (simp add: uint_mod)
  then show ?thesis by (simp add: stableSiteJitterSeconds_def Let_def)
qed

lemma site_delay_bounds: "0 < interval \<Longrightarrow> 0 \<le> site_delay interval i \<and> site_delay interval i \<le> 10 \<and> site_delay interval i < interval"
  using stableSiteJitterSeconds_bounds [of i] by (auto simp: site_delay_def Let_def)

section \<open>Marks of the closed hour\<close>

lemma eligible_sites_marks:
  assumes "enqueueWindowForEligibleSites ss t p a b slot now (db, m) = ((db', m'), None)"
  shows "m' = (\<lambda>i. if \<exists>site \<in> set ss. sID site = i \<and> schedulerSiteEligible site t then slot else m i)"
  using assms
proof (induction ss arbitrary: db m)
  case (Cons site ss)
  let ?skip = "\<not> schedulerSiteEligible site t \<or> m (sID site) = slot"
  obtain db1 m1 where step: "enqueueWindowForEligibleSites ss t p a b slot now (db1, m1) = ((db', m'), None)"
    and m1: "m1 = (if ?skip then m else m(sID site := slot))"
    using Cons.prems by (auto simp: enqueueWindowForEligibleSites_def split: if_splits prod.splits option.splits)
  show ?case unfolding Cons.IH [OF step] m1 by (rule ext) auto
qed (simp add: enqueueWindowForEligibleSites_def)

lemma stages_marks:
  "lastUsageHourBySite (fst (on_repository f s)) = lastUsageHourBySite s"
  "lastUsageHourBySite (fst (metadata_stage startup now ss s)) = lastUsageHourBySite s"
  "lastUsageHourBySite (fst (validation_stage now ss s)) = lastUsageHourBySite s"
  by (auto simp: on_repository_def metadata_stage_def validation_stage_def next_stage_def Let_def split: prod.splits option.splits)

lemma offer_fast_marks [simp]: "lastUsageHourBySite (offer_fast settings force now task site s) = lastUsageHourBySite s"
  by (auto simp: offer_fast_def Let_def split: prod.splits option.splits bool.splits)

lemma offer_fast_tasks_marks [simp]: "lastUsageHourBySite (offer_fast_tasks settings force now ss s) = lastUsageHourBySite s"
proof -
  have "lastUsageHourBySite (fold (offer_fast settings force now task) ss s) = lastUsageHourBySite s" for task s
    by (induction ss arbitrary: s) simp_all
  then show ?thesis by (simp add: offer_fast_tasks_def fast_intervals_def)
qed

lemma next_stage_None:
  "next_stage r f = (s', None) \<longleftrightarrow> snd r = None \<and> f (fst r) = (s', None)"
  by (cases r; cases "snd r") (auto simp: next_stage_def)

lemma usage_stage_marks:
  assumes "snd (usage_stage settings now ss s) = None"
  shows "lastUsageHourBySite (fst (usage_stage settings now ss s)) = (\<lambda>i.
     if now \<ge> now - now mod 3600 + UsageDelayMinutes settings * 60 \<and> now - now mod 3600 \<ge> 3600
        \<and> (\<exists>site \<in> set ss. sID site = i \<and> schedulerSiteEligible site TaskTypeUsageHour)
     then now - now mod 3600 else lastUsageHourBySite s i)"
proof (cases "now \<ge> now - now mod 3600 + UsageDelayMinutes settings * 60 \<and> now - now mod 3600 \<ge> 3600")
  case True
  obtain db m e where r: "enqueueWindowForEligibleSites ss TaskTypeUsageHour PriorityUsageRealtime (now - now mod 3600 - 3600)
      (now - now mod 3600) (now - now mod 3600) now (repository s, lastUsageHourBySite s) = ((db, m), e)"
    by (metis surj_pair)
  then have "e = None" using assms True by (simp add: usage_stage_def Let_def)
  with r have "m = (\<lambda>i. if \<exists>site \<in> set ss. sID site = i \<and> schedulerSiteEligible site TaskTypeUsageHour
      then now - now mod 3600 else lastUsageHourBySite s i)" by (simp add: eligible_sites_marks)
  then show ?thesis using True r by (auto simp: usage_stage_def Let_def)
qed (auto simp: usage_stage_def Let_def)

section \<open>Ranges of due hours\<close>

function hours_of :: "int \<Rightarrow> int \<Rightarrow> int \<Rightarrow> (int \<times> int) list" where
  "hours_of siteID start end' = (if start < end' then (siteID, start) # hours_of siteID (start + 3600) end' else [])"
  by pat_completeness auto
termination by (relation "measure (\<lambda>(_, s, e). nat (e - s))") auto

declare hours_of.simps [simp del]

lemma hours_of_snoc: "start \<le> e \<Longrightarrow> 3600 dvd e - start \<Longrightarrow> hours_of i start (e + 3600) = hours_of i start e @ [(i, e)]"
proof (induction i start e rule: hours_of.induct)
  case (1 i start e)
  show ?case
  proof (cases "start < e")
    case True
    then have "start + 3600 \<le> e" using zdvd_imp_le [OF 1(3)] by simp
    moreover have "3600 dvd e - (start + 3600)" using dvd_diff [OF 1(3) dvd_refl] by (simp add: algebra_simps)
    ultimately show ?thesis using 1(1) True by (subst (1 2) hours_of.simps) simp
  next
    case False
    then have "start = e" using 1(2) by simp
    then show ?thesis by (simp add: hours_of.simps [of i e "e + 3600"] hours_of.simps [of i e e]
      hours_of.simps [of i "e + 3600" "e + 3600"])
  qed
qed

text \<open>Extending takes the longest prefix that continues the range.\<close>

lemma extend_range_hours:
  assumes "extend_range i e hs = (e', rest)" "start \<le> e" "3600 dvd e - start"
  shows "hours_of i start e @ hs = hours_of i start e' @ rest \<and> e \<le> e' \<and> 3600 dvd e' - start
    \<and> (rest = [] \<or> hd rest \<noteq> (i, e'))"
  using assms
proof (induction i e hs rule: extend_range.induct)
  case (2 i e s h hs)
  show ?case
  proof (cases "s = i \<and> h = e")
    case True
    then have x: "extend_range i (e + 3600) hs = (e', rest)" using 2(2) by simp
    have "3600 dvd e + 3600 - start" using dvd_add [OF 2(4) dvd_refl] by (simp add: algebra_simps)
    from 2(1) [OF True x _ this] show ?thesis using 2(3) True hours_of_snoc [OF 2(3,4), of i] by auto
  next
    case False
    then show ?thesis using 2(2-4) by auto
  qed
qed auto

lemma recovery_ranges_hd: "recovery_ranges hs = (i, a, b) # rs \<Longrightarrow> hs \<noteq> [] \<and> hd hs = (i, a)"
  by (cases hs) (auto split: prod.splits)

lemma recovery_ranges_split:
  "concat (map (\<lambda>(i, a, b). hours_of i a b) (recovery_ranges hs)) = hs
   \<and> (\<forall>(i, a, b) \<in> set (recovery_ranges hs). a < b \<and> 3600 dvd b - a)
   \<and> successively (\<lambda>(i, a, b) (j, c, d). (j, c) \<noteq> (i, b)) (recovery_ranges hs)"
proof (induction hs rule: recovery_ranges.induct)
  case (2 i a hs)
  obtain b rest where e: "extend_range i (a + 3600) hs = (b, rest)" by force
  have "hours_of i a (a + 3600) = [(i, a)]" by (simp add: hours_of.simps [of i a] hours_of.simps [of i "a + 3600"])
  then have x: "(i, a) # hs = hours_of i a b @ rest" "a < b" "3600 dvd b - a" "rest = [] \<or> hd rest \<noteq> (i, b)"
    using extend_range_hours [OF e, of a] by auto
  note IH = 2 [OF e [symmetric]]
  have "recovery_ranges rest = [] \<or> (\<exists>j c d rs. recovery_ranges rest = (j, c, d) # rs \<and> (j, c) \<noteq> (i, b))"
    using x(4) recovery_ranges_hd by (cases "recovery_ranges rest") fastforce+
  then have "successively (\<lambda>(i, a, b) (j, c, d). (j, c) \<noteq> (i, b)) ((i, a, b) # recovery_ranges rest)"
    using IH by auto
  moreover have "recovery_ranges ((i, a) # hs) = (i, a, b) # recovery_ranges rest" using e by simp
  moreover have "concat (map (\<lambda>(i, a, b). hours_of i a b) ((i, a, b) # recovery_ranges rest)) = (i, a) # hs"
    using IH x(1) by simp
  ultimately show ?case using IH x(2,3) by (simp only:) simp
qed simp

section \<open>The scheduler beside the other workers\<close>

text \<open>
  One step of the process: a tick, a restart, a transaction of another worker, the end of a fast task or
  the shutdown of the fast tasks.
\<close>

inductive process_step :: "Scheduler \<Rightarrow> Scheduler \<Rightarrow> bool" where
  tick: "process_step s (fst (RunOnce rows now s))"
| startup: "process_step s (fst (Startup rows now s))"
| transaction: "claim_step (repository s) db \<Longrightarrow> process_step s (s\<lparr>repository := db\<rparr>)"
| finished: "fastTasks s = Some d \<Longrightarrow> t \<in> set (workers d) \<Longrightarrow> process_step s (s\<lparr>fastTasks := Some (complete d t)\<rparr>)"
| stop: "process_step s (shutdownFastTasks s)"

abbreviation max_concurrency :: "string \<Rightarrow> int" where "max_concurrency \<equiv> \<lambda>_. 1000"

definition dispatcher_ok :: "Scheduler \<Rightarrow> bool" where
  "dispatcher_ok s \<longleftrightarrow> (\<forall>d. fastTasks s = Some d \<longrightarrow> fast_inv max_concurrency d)"

definition process_start :: "Scheduler \<Rightarrow> bool" where
  "process_start s \<longleftrightarrow> (\<exists>db jobs. claims_start db \<and> s = NewScheduler db jobs)"

definition process_inv :: "Scheduler \<Rightarrow> bool" where
  "process_inv s \<longleftrightarrow> claims_ok (repository s) \<and> dispatcher_ok s"

lemma fastTaskConcurrency_supported: "validateCollectorSettings settings \<Longrightarrow> fastTaskConcurrency t settings \<le> 1000"
  by (auto simp: fastTaskConcurrency_def validateCollectorSettings_def concurrency_supported_def)

lemma offer_fast_dispatcher:
  assumes "validateCollectorSettings settings" "dispatcher_ok s"
  shows "dispatcher_ok (offer_fast settings force now task site s)"
proof -
  obtain ty iv where task: "task = (ty, iv)" by force
  have inv: "fast_inv max_concurrency (fst (Enqueue d (fast_task settings c ty i slot)))" if "fastTasks s = Some d" for d c i slot
    by (rule Enqueue_inv) (use that assms fastTaskConcurrency_supported in \<open>auto simp: dispatcher_ok_def fast_task_def\<close>)
  show ?thesis
    using assms(2) inv by (auto simp: task offer_fast_def Let_def dispatcher_ok_def split: option.splits prod.splits bool.splits)
      (metis fst_conv)+
qed

lemma offer_fast_tasks_dispatcher:
  assumes "validateCollectorSettings settings" "dispatcher_ok s"
  shows "dispatcher_ok (offer_fast_tasks settings force now ss s)"
  unfolding offer_fast_tasks_def
  by (rule fold_invariant [where Q = "\<lambda>_. True"], simp, rule assms(2),
      rule fold_invariant [where Q = "\<lambda>_. True"]) (auto intro: offer_fast_dispatcher assms(1))

lemma runOnce_dispatcher:
  assumes "dispatcher_ok s"
  shows "dispatcher_ok (fst (runOnce rows now startup s))"
proof (cases "Load rows")
  case (Inr settings)
  then have "dispatcher_ok (fst (tick_stages settings now startup s))"
    using tick_fast_part offer_fast_tasks_dispatcher [OF Load_valid assms]
    by (metis (no_types, lifting) dispatcher_ok_def fast_part_def prod.inject)
  then show ?thesis using Inr by (simp add: runOnce_def split_beta)
qed (use assms in \<open>simp add: runOnce_def\<close>)

lemma new_dispatcher_inv: "fast_inv cap newFastTaskDispatcher"
  by (rule fast.start_inv) simp

lemma runOnce_inv: "process_inv s \<Longrightarrow> process_inv (fst (runOnce rows now startup s))"
  using runOnce_dispatcher claims.steps_inv [OF runOnce_steps] by (simp add: process_inv_def)

lemma lifecycle_inv:
  "process_inv s \<Longrightarrow> process_inv (startFastTaskLifecycle s)" "process_inv s \<Longrightarrow> process_inv (shutdownFastTasks s)"
  by (simp_all add: process_inv_def dispatcher_ok_def startFastTaskLifecycle_def shutdownFastTasks_def new_dispatcher_inv)

lemma Startup_inv: "process_inv s \<Longrightarrow> process_inv (fst (Startup rows now s))"
  using runOnce_inv [OF lifecycle_inv(1)] lifecycle_inv(2)
  by (auto simp: Startup_def split: prod.splits option.splits) (metis fst_conv)+

lemma process_step_inv: "process_step s t \<Longrightarrow> process_inv s \<Longrightarrow> process_inv t"
proof (induction rule: process_step.induct)
  case (transaction s db)
  then show ?case using claim_step_keeps by (auto simp: process_inv_def dispatcher_ok_def)
next
  case (finished s d t)
  then show ?case using complete_inv by (auto simp: process_inv_def dispatcher_ok_def)
qed (simp_all add: RunOnce_def runOnce_inv Startup_inv lifecycle_inv)

interpretation process: invariant_system process_start process_step process_inv
proof unfold_locales
  show "process_start s \<Longrightarrow> process_inv s" for s
    by (auto simp: process_start_def process_inv_def dispatcher_ok_def NewScheduler_def claims_start_ok new_dispatcher_inv)
qed (rule process_step_inv)

section \<open>A concrete tick\<close>

definition sample_idle :: Scheduler where
  "sample_idle = startFastTaskLifecycle (NewScheduler sample_store True)"

definition sample_started :: Scheduler where
  "sample_started = fst (tick_stages sample_settings 50000 True sample_idle)"

lemma sample_tick:
  "runOnce (setting_rows sample_settings) 50000 True sample_idle = (sample_started, None)"
proof -
  have "snd (tick_stages sample_settings 50000 True sample_idle) = None" by code_simp
  then show ?thesis
    by (simp add: runOnce_def Load_setting_rows sample_started_def split_beta)
qed

lemma sample_workers:
  "\<exists>d t. fastTasks sample_started = Some d \<and> workers d = [t] \<and> ftTaskType t = TaskTypeSiteProbe
     \<and> ftRequestID t = ''sch_site_probe_1_49980''"
proof -
  have "map_option (\<lambda>d. map (\<lambda>t. (ftTaskType t, ftRequestID t)) (workers d)) (fastTasks sample_started)
      = Some [(TaskTypeSiteProbe, ''sch_site_probe_1_49980'')]" by code_simp
  then show ?thesis by auto
qed

lemma sample_process: "process_start (NewScheduler sample_store True)" "process_step (NewScheduler sample_store True) sample_started"
proof -
  show "process_start (NewScheduler sample_store True)"
    unfolding process_start_def by (intro exI [of _ sample_store] exI [of _ True]) (simp add: claims_start_def sample_store_def)
  have "fst (Startup (setting_rows sample_settings) 50000 (NewScheduler sample_store True)) = sample_started"
    using sample_tick by (simp add: Startup_def sample_idle_def)
  then show "process_step (NewScheduler sample_store True) sample_started" using process_step.startup by metis
qed

section \<open>Properties\<close>



text \<open>
  C17. A fast task that a tick hands to the dispatcher belongs to an eligible site and carries the request
  identifier of the current slot; the tick remembers the slot. Outside of a restart it is offered only if
  the slot was not yet remembered, so at most one task per site and type is accepted in a slot, and only
  after the site's delay, which is below the interval and at most ten seconds.
\<close>

theorem fast_tasks_once_per_slot:
  assumes "Load rows = Inr settings" and "s' = fst (runOnce rows now startup s)" and "t \<in> dispatched s'" "t \<notin> dispatched s"
  shows "\<exists>site \<in> set (sites (repository s)). \<exists>interval. (ftTaskType t, interval) \<in> set (fast_intervals settings)
     \<and> ftSiteID t = sID site \<and> schedulerSiteEligible site (ftTaskType t)
     \<and> ftRequestID t = scheduledRequestID (ftTaskType t) (sID site) (now - now mod interval)
     \<and> lastFastState s' (task_key t) = Some (interval, now - now mod interval)
     \<and> (\<not> (startup \<and> fastStartup s) \<longrightarrow> lastFastState s (task_key t) \<noteq> Some (interval, now - now mod interval)
          \<and> now - now mod interval + site_delay interval (sID site) \<le> now)
     \<and> 0 \<le> site_delay interval (sID site) \<and> site_delay interval (sID site) \<le> 10 \<and> site_delay interval (sID site) < interval"
proof -
  let ?ss = "ListSitesForScheduling (repository s)" and ?force = "startup \<and> fastStartup s"
  let ?o = "offer_fast_tasks settings ?force now ?ss s"
  have "fast_part s' = fast_part ?o"
    using assms(1,2) tick_fast_part by (simp add: runOnce_def split: prod.splits) (metis fst_conv)
  then have f: "dispatched s' = dispatched ?o" "lastFastState s' = lastFastState ?o"
    by (simp_all add: fast_part_def dispatched_def)
  have "in_slot settings ?force now ?ss s ?o t"
    using offer_fast_tasks_ok [of settings ?force now ?ss s] assms(3,4) f(1) by (simp add: offers_ok_def)
  then obtain site interval where x: "site \<in> set ?ss" "(ftTaskType t, interval) \<in> set (fast_intervals settings)"
    "ftSiteID t = sID site" "schedulerSiteEligible site (ftTaskType t)"
    "ftRequestID t = scheduledRequestID (ftTaskType t) (sID site) (slot_start now interval)"
    "lastFastState ?o (task_key t) = Some (interval, slot_start now interval)"
    "\<not> ?force \<longrightarrow> lastFastState s (task_key t) \<noteq> Some (interval, slot_start now interval)
       \<and> slot_start now interval + site_delay interval (sID site) \<le> now"
    unfolding in_slot_def by blast
  moreover have "0 < interval"
    using x(2) Load_valid [OF assms(1)] by (auto simp: fast_intervals_def validateCollectorSettings_def interval_supported_def)
  ultimately show ?thesis
    using site_delay_bounds [of interval "sID site"] f(2)
    by (intro bexI [of _ site] exI [of _ interval]) (simp_all add: slot_start_def ListSitesForScheduling_def)
qed

theorem fast_tasks_once_per_slot_witness:
  "\<exists>t interval. t \<in> dispatched sample_started \<and> ftRequestID t = ''sch_site_probe_1_49980''
     \<and> lastFastState sample_started (task_key t) = Some (interval, 50000 - 50000 mod interval)"
proof -
  obtain d t where t: "fastTasks sample_started = Some d" "workers d = [t]" "ftRequestID t = ''sch_site_probe_1_49980''"
    using sample_workers by blast
  then have "t \<in> dispatched sample_started" by (simp add: dispatched_def tasks_of_def)
  moreover have "t \<notin> dispatched sample_idle"
    by (simp add: dispatched_def tasks_of_def sample_idle_def startFastTaskLifecycle_def newFastTaskDispatcher_def)
  moreover have "sample_started = fst (runOnce (setting_rows sample_settings) 50000 True sample_idle)" by (simp add: sample_tick)
  ultimately show ?thesis
    using fast_tasks_once_per_slot [OF Load_setting_rows [OF sample_settings_valid]] t(3) by blast
qed

text \<open>
  C18. A tick that ends without error marks the closed hour as scheduled for exactly the sites that are
  eligible at that moment, once the usage delay has passed; every other site keeps its mark, so a site
  that comes back later in the hour still gets it.
\<close>

theorem closed_hour_marks:
  assumes "Load rows = Inr settings" and "runOnce rows now startup s = (s', None)"
  shows "lastUsageHourBySite s' = (\<lambda>i. if now - now mod 3600 + UsageDelayMinutes settings * 60 \<le> now \<and> 3600 \<le> now - now mod 3600
      \<and> (\<exists>site \<in> set (sites (repository s)). sID site = i \<and> schedulerSiteEligible site TaskTypeUsageHour)
      then now - now mod 3600 else lastUsageHourBySite s i)"
proof -
  let ?ss = "ListSitesForScheduling (repository s)" and ?force = "startup \<and> fastStartup s"
  let ?a = "fst (metadata_stage startup now ?ss (fst (on_repository (durable_tasks settings ?force now ?ss)
    (offer_fast_tasks settings ?force now ?ss s))))"
  have "tick_stages settings now startup s = (s', None)"
    using assms by (simp add: runOnce_def split: prod.splits)
  then have stages: "snd (usage_stage settings now ?ss ?a) = None"
    "lastUsageHourBySite s' = lastUsageHourBySite (fst (usage_stage settings now ?ss ?a))"
    unfolding tick_stages_def Let_def next_stage_None by (auto simp: stages_marks)
  have marks: "lastUsageHourBySite ?a = lastUsageHourBySite s" by (simp add: stages_marks)
  have "set ?ss = set (sites (repository s))" by (simp add: ListSitesForScheduling_def)
  then show ?thesis unfolding stages(2) usage_stage_marks [OF stages(1)] marks by (simp add: fun_eq_iff)
qed

theorem closed_hour_marks_witness:
  "lastUsageHourBySite sample_started 1 = 46800 \<and> lastUsageHourBySite sample_started 2 = 0"
  using closed_hour_marks [OF Load_setting_rows [OF sample_settings_valid] sample_tick]
  by (simp add: sample_settings_def sample_idle_def startFastTaskLifecycle_def NewScheduler_def sample_store_def sample_site_def
      schedulerSiteEligible_def)

text \<open>
  Regrouping the due validation hours into ranges loses no hour, adds none and keeps their order;
  every range is a non-empty number of whole hours, and two consecutive ranges could not be joined.
\<close>

theorem recovery_ranges_round_trip:
  "concat (map (\<lambda>(i, a, b). hours_of i a b) (recovery_ranges hs)) = hs
   \<and> (\<forall>(i, a, b) \<in> set (recovery_ranges hs). a < b \<and> 3600 dvd b - a)
   \<and> successively (\<lambda>(i, a, b) (j, c, d). (j, c) \<noteq> (i, b)) (recovery_ranges hs)"
  by (rule recovery_ranges_split)

theorem recovery_ranges_round_trip_witness:
  "recovery_ranges [(1, 7200), (1, 10800), (1, 18000), (2, 21600)] = [(1, 7200, 14400), (1, 18000, 21600), (2, 21600, 25200)]
   \<and> concat (map (\<lambda>(i, a, b). hours_of i a b) (recovery_ranges [(1, 7200), (1, 10800), (1, 18000), (2, 21600)]))
     = [(1, 7200), (1, 10800), (1, 18000), (2, 21600)]"
  using recovery_ranges_round_trip [of "[(1, 7200), (1, 10800), (1, 18000), (2, 21600)]"] by simp

end
