(* ===== verification/Executor.thy ===== *)
theory Executor
  imports Claim_Properties Collector_Settings "HOL-Library.List_Lexorder" "HOL-Library.Char_ord"
begin

text \<open>
  The executor (\<^verbatim>\<open>worker/executor.go\<close>, \<^verbatim>\<open>worker/queues.go\<close>): queue slots, the dispatch loops that
  claim tasks while slots are free, and the execution of one claim up to its release. The clock of the
  dispatch loops is a function of the request sequence number, since every reading of it is followed by a
  new request identifier; that of an execution is a function of a counter of readings, in nanoseconds.
\<close>

section \<open>Queue limiter\<close>

type_synonym queueLimiter = "QueueKind \<Rightarrow> int"

definition newQueueLimiter :: queueLimiter where "newQueueLimiter = (\<lambda>_. 0)"

definition tryAcquire :: "queueLimiter \<Rightarrow> QueueKind \<Rightarrow> int \<Rightarrow> queueLimiter option" where
  "tryAcquire limiter queue maximum =
     (if maximum \<le> 0 then None
      else if limiter queue \<ge> maximum then None
      else Some (limiter(queue := limiter queue + 1)))"

definition release_slot :: "queueLimiter \<Rightarrow> QueueKind \<Rightarrow> queueLimiter" where
  "release_slot limiter queue =
     (if limiter queue \<le> 1 then limiter(queue := 0) else limiter(queue := limiter queue - 1))"

section \<open>State\<close>

text \<open>A running goroutine is the slot it will release and the claim it executes.\<close>

record Executor =
  exStore :: store
  exHandlers :: "string list"
  exLimiter :: queueLimiter
  exSequence :: nat
  exNonce :: string
  exActive :: "(QueueKind \<times> CollectionTaskClaim) list"

definition Register :: "string \<Rightarrow> Executor \<Rightarrow> Executor result" where
  "Register taskType e =
     (case QueueForTask taskType of
        None \<Rightarrow> Inl ErrCollectionRunContract
      | Some _ \<Rightarrow> Inr (e\<lparr>exHandlers := List.insert taskType (exHandlers e)\<rparr>))"

text \<open>\<^verbatim>\<open>strconv.FormatUint(n, 36)\<close>.\<close>

definition base36_char :: "nat \<Rightarrow> char" where
  "base36_char d = ''0123456789abcdefghijklmnopqrstuvwxyz'' ! d"

fun FormatUint36 :: "nat \<Rightarrow> string" where
  "FormatUint36 n = (if n < 36 then [base36_char n] else FormatUint36 (n div 36) @ [base36_char (n mod 36)])"

declare FormatUint36.simps [simp del]

definition nextRequestID :: "Executor \<Rightarrow> string \<times> Executor" where
  "nextRequestID e =
     (let sequence = exSequence e + 1
      in (''wrk_'' @ exNonce e @ ''_'' @ FormatUint36 sequence, e\<lparr>exSequence := sequence\<rparr>))"

text \<open>Insertion sort by adjacent swaps; the sorted part is kept with its last element first.\<close>

fun swap_down :: "string \<Rightarrow> string list \<Rightarrow> string list" where
  "swap_down v [] = [v]"
| "swap_down v (w # ws) = (if v < w then w # swap_down v ws else v # w # ws)"

definition sortStrings :: "string list \<Rightarrow> string list" where
  "sortStrings vs = rev (fold swap_down vs [])"

definition registeredTaskTypes :: "Executor \<Rightarrow> QueueKind \<Rightarrow> string list" where
  "registeredTaskTypes e queue = sortStrings (filter (\<lambda>t. QueueForTask t = Some queue) (exHandlers e))"

definition shared_free :: "CollectorSettings \<Rightarrow> queueLimiter \<Rightarrow> string \<Rightarrow> bool" where
  "shared_free settings limiter taskType =
     (case QueueForTask taskType of
        None \<Rightarrow> False
      | Some queue \<Rightarrow> sharedCollectionQueue queue \<and> limiter (queueCapacityKey queue) < queueConcurrency queue settings)"

definition registeredSharedTaskTypes :: "CollectorSettings \<Rightarrow> Executor \<Rightarrow> string list" where
  "registeredSharedTaskTypes settings e = sortStrings (filter (shared_free settings (exLimiter e)) (exHandlers e))"

section \<open>Dispatching\<close>

datatype admission = Admitted | Idle | ClaimFailed run_error | CapacityChanged

text \<open>A failed claim gives the slot back; an empty queue ends the loop without error.\<close>

definition claim_failed :: "run_error \<Rightarrow> admission" where
  "claim_failed err = (if err = ErrCollectionTaskUnavailable then Idle else ClaimFailed err)"

definition claim_options :: "string list \<Rightarrow> int option \<Rightarrow> int option \<Rightarrow> int \<Rightarrow> int \<Rightarrow> string \<Rightarrow> CollectionTaskClaimOptions" where
  "claim_options taskTypes priority excluded maxWindow now requestID = \<lparr>coTaskTypes = taskTypes, coPriority = priority,
     coExcludePriority = excluded, coNow = now, coRequestID = requestID, coMaxWindow = maxWindow, coScanLimit = 64\<rparr>"

text \<open>One round of a loop that takes a slot first: the loop of initial backfills and that of an independent queue.\<close>

definition admit_round ::
    "(nat \<Rightarrow> int) \<Rightarrow> QueueKind \<Rightarrow> int \<Rightarrow> (Executor \<Rightarrow> string list) \<Rightarrow> int option \<Rightarrow> int \<Rightarrow> Executor \<Rightarrow> Executor \<times> admission" where
  "admit_round clock queue maximum types priority maxWindow e =
     (case tryAcquire (exLimiter e) queue maximum of
        None \<Rightarrow> (e, Idle)
      | Some taken \<Rightarrow>
          if types e = [] then (e\<lparr>exLimiter := release_slot taken queue\<rparr>, Idle)
          else let (requestID, e1) = nextRequestID e
               in case ClaimNext (exStore e1) (claim_options (types e) priority None maxWindow (clock (exSequence e1)) requestID) of
                    Inl err \<Rightarrow> (e1\<lparr>exLimiter := release_slot taken queue\<rparr>, claim_failed err)
                  | Inr (db, claim) \<Rightarrow> (e1\<lparr>exStore := db, exLimiter := taken, exActive := exActive e1 @ [(queue, claim)]\<rparr>, Admitted))"

lemma tryAcquire_Some:
  "tryAcquire limiter queue maximum = Some taken \<longleftrightarrow> limiter queue < maximum \<and> 0 < maximum \<and> taken = limiter(queue := limiter queue + 1)"
  by (auto simp: tryAcquire_def)

lemma nextRequestID_limiter [simp]: "exLimiter (snd (nextRequestID e)) = exLimiter e"
  by (simp add: nextRequestID_def Let_def)

lemma admit_round_Admitted:
  assumes "admit_round clock queue maximum types priority maxWindow e = (e', Admitted)"
  shows "exLimiter e queue < maximum \<and> exLimiter e' = (exLimiter e)(queue := exLimiter e queue + 1)"
  using assms by (auto simp: admit_round_def claim_failed_def tryAcquire_Some split: option.splits if_splits prod.splits sum.splits)

function admit_loop ::
    "(nat \<Rightarrow> int) \<Rightarrow> QueueKind \<Rightarrow> int \<Rightarrow> (Executor \<Rightarrow> string list) \<Rightarrow> int option \<Rightarrow> int \<Rightarrow> Executor \<Rightarrow> Executor \<times> admission" where
  "admit_loop clock queue maximum types priority maxWindow e =
     (case admit_round clock queue maximum types priority maxWindow e of
        (e', r) \<Rightarrow> if r = Admitted then admit_loop clock queue maximum types priority maxWindow e' else (e', r))"
  by pat_completeness auto
termination
proof (relation "measure (\<lambda>(clock, queue, maximum, types, priority, maxWindow, e). nat (maximum - exLimiter e queue))", goal_cases)
  case (2 clock queue maximum types priority maxWindow e e' stop)
  then show ?case using admit_round_Admitted [of clock queue maximum types priority maxWindow e e'] by auto
qed simp

declare admit_loop.simps [simp del]

text \<open>The shared queues are claimed together; the slot is taken once the claimed task's queue is known.\<close>

definition shared_admit :: "CollectorSettings \<Rightarrow> store \<Rightarrow> CollectionTaskClaim \<Rightarrow> Executor \<Rightarrow> Executor \<times> admission" where
  "shared_admit settings db claim e =
     (case QueueForTask (rTaskType (clRun claim)) of
        None \<Rightarrow> (e\<lparr>exStore := db\<rparr>, CapacityChanged)
      | Some queue \<Rightarrow>
          if \<not> sharedCollectionQueue queue then (e\<lparr>exStore := db\<rparr>, CapacityChanged)
          else case tryAcquire (exLimiter e) (queueCapacityKey queue) (queueConcurrency queue settings) of
                 None \<Rightarrow> (e\<lparr>exStore := db\<rparr>, CapacityChanged)
               | Some taken \<Rightarrow> (e\<lparr>exStore := db, exLimiter := taken,
                   exActive := exActive e @ [(queueCapacityKey queue, claim)]\<rparr>, Admitted))"

definition shared_claim :: "(nat \<Rightarrow> int) \<Rightarrow> CollectorSettings \<Rightarrow> Executor \<Rightarrow> Executor \<times> (store \<times> CollectionTaskClaim) result" where
  "shared_claim clock settings e =
     (let (requestID, e1) = nextRequestID e
      in (e1, ClaimNext (exStore e1) (claim_options (registeredSharedTaskTypes settings e) None (Some PriorityInitialBackfill) 24
            (clock (exSequence e1)) requestID)))"

definition shared_round :: "(nat \<Rightarrow> int) \<Rightarrow> CollectorSettings \<Rightarrow> Executor \<Rightarrow> Executor \<times> admission" where
  "shared_round clock settings e =
     (if registeredSharedTaskTypes settings e = [] then (e, Idle)
      else case shared_claim clock settings e of
             (e1, Inl err) \<Rightarrow> (e1, claim_failed err)
           | (e1, Inr (db, claim)) \<Rightarrow> shared_admit settings db claim e1)"

definition shared_room :: "CollectorSettings \<Rightarrow> Executor \<Rightarrow> nat" where
  "shared_room settings e = nat (UsageConcurrency settings - exLimiter e QueueUsage)
     + nat (BackfillConcurrency settings - exLimiter e QueueBackfill)"

lemma shared_capacity_keys:
  "sharedCollectionQueue q \<Longrightarrow> (queueCapacityKey q = QueueUsage \<and> queueConcurrency q s = UsageConcurrency s)
     \<or> (queueCapacityKey q = QueueBackfill \<and> queueConcurrency q s = BackfillConcurrency s)"
  by (cases q) (simp_all add: sharedCollectionQueue_def)

lemma shared_admit_Admitted:
  assumes "shared_admit settings db claim e = (e', Admitted)"
  shows "shared_room settings e' < shared_room settings e"
proof -
  from assms obtain q where q: "sharedCollectionQueue q" "exLimiter e (queueCapacityKey q) < queueConcurrency q settings"
    "exLimiter e' = (exLimiter e)(queueCapacityKey q := exLimiter e (queueCapacityKey q) + 1)"
    by (auto simp: shared_admit_def tryAcquire_Some split: option.splits if_splits)
  then show ?thesis using shared_capacity_keys [OF q(1), of settings] by (auto simp: shared_room_def)
qed

lemma shared_round_Admitted:
  assumes "shared_round clock settings e = (e', Admitted)"
  shows "shared_room settings e' < shared_room settings e"
proof -
  from assms obtain db claim e1 where "shared_admit settings db claim e1 = (e', Admitted)" "exLimiter e1 = exLimiter e"
    by (auto simp: shared_round_def shared_claim_def claim_failed_def Let_def nextRequestID_def split: if_splits prod.splits sum.splits)
  then show ?thesis using shared_admit_Admitted by (fastforce simp: shared_room_def)
qed

function shared_loop :: "(nat \<Rightarrow> int) \<Rightarrow> CollectorSettings \<Rightarrow> Executor \<Rightarrow> Executor \<times> admission" where
  "shared_loop clock settings e =
     (case shared_round clock settings e of
        (e', r) \<Rightarrow> if r = Admitted then shared_loop clock settings e' else (e', r))"
  by pat_completeness auto
termination
proof (relation "measure (\<lambda>(clock, settings, e). shared_room settings e)", goal_cases)
  case (2 clock settings e e' stop)
  then show ?case using shared_round_Admitted [of clock settings e e'] by auto
qed simp

declare shared_loop.simps [simp del]

text \<open>A loop that ended without error lets the next one run.\<close>

definition then_dispatch :: "Executor \<times> admission \<Rightarrow> (Executor \<Rightarrow> Executor \<times> admission) \<Rightarrow> Executor \<times> admission" where
  "then_dispatch r f = (case r of (e, Idle) \<Rightarrow> f e | (e, stop) \<Rightarrow> (e, stop))"

definition dispatchShared :: "(nat \<Rightarrow> int) \<Rightarrow> CollectorSettings \<Rightarrow> Executor \<Rightarrow> Executor \<times> admission" where
  "dispatchShared clock settings e =
     then_dispatch (admit_loop clock QueueInitialBackfill (BackfillConcurrency settings) (\<lambda>_. [TaskTypeUsageBackfill])
       (Some PriorityInitialBackfill) 2048 e) (shared_loop clock settings)"

fun dispatch_queues :: "(nat \<Rightarrow> int) \<Rightarrow> CollectorSettings \<Rightarrow> QueueKind list \<Rightarrow> Executor \<Rightarrow> Executor \<times> admission" where
  "dispatch_queues clock settings [] e = (e, Idle)"
| "dispatch_queues clock settings (queue # queues) e =
     then_dispatch (admit_loop clock queue (queueConcurrency queue settings) (\<lambda>e. registeredTaskTypes e queue) None 24 e)
       (dispatch_queues clock settings queues)"

definition dispatch_loaded :: "(nat \<Rightarrow> int) \<Rightarrow> CollectorSettings \<Rightarrow> Executor \<Rightarrow> Executor \<times> admission" where
  "dispatch_loaded clock settings e =
     then_dispatch (dispatchShared clock settings e) (dispatch_queues clock settings independentQueueOrder)"

definition dispatch_poll :: "(nat \<Rightarrow> int) \<Rightarrow> settingRow list \<Rightarrow> Executor \<Rightarrow> setting_error + (Executor \<times> admission)" where
  "dispatch_poll clock platform_setting e =
     and_then (Load platform_setting) (\<lambda>settings. Inr (dispatch_loaded clock settings e))"

end
