(* ===== verification/Claim_Execution.thy ===== *)
theory Claim_Execution
  imports Executor
begin

text \<open>
  Execution of one claim (\<^verbatim>\<open>executeClaim\<close>, \<^verbatim>\<open>executeInitialBackfillClaim\<close> and
  \<^verbatim>\<open>executeNonWindow\<close> in \<^verbatim>\<open>worker/executor.go\<close>), up to the release of what is still held. The job handler
  is a parameter: it reads the store and either was interrupted, with the claim's context cancelled, or
  finished with row counts, an optional mutation for the commit and an optional failure. The clock is a
  function of the number of earlier readings, in nanoseconds.
\<close>

datatype job = Interrupted | Finished "int \<times> int" "window_mutation option" "task_cause option"

type_synonym job_handler = "CollectionTaskClaim \<Rightarrow> CollectionRunWindow option \<Rightarrow> store \<Rightarrow> job"

definition Unix :: "int \<Rightarrow> int" where
  "Unix nanos = nanos div 1000000000"

definition collectionClaimSiteID :: "CollectionTaskClaim \<Rightarrow> int" where
  "collectionClaimSiteID claim =
     (case rSiteID (clRun claim) of
        Some i \<Rightarrow> i
      | None \<Rightarrow> (case clWindows claim of [] \<Rightarrow> 0 | w # _ \<Rightarrow> wSiteID w))"

section \<open>Tasks without windows\<close>

definition plain_request :: "CollectionTaskAttemptPolicy \<Rightarrow> CollectionTaskClaim \<Rightarrow> int \<Rightarrow> int \<Rightarrow> int \<times> int \<Rightarrow> task_cause option
    \<Rightarrow> CollectionTaskCommitRequest" where
  "plain_request policy claim nowNanos laterNanos rows cause =
     (let run = clRun claim; now = Unix nowNanos;
          request = \<lparr>cqRunID = rID run, cqRequestID = clRequestID claim, cqNow = now, cqRunStatus = [], cqNextAttemptAt = None,
            cqFetchedRows = fst rows, cqWrittenRows = snd rows, cqErrorCode = [], cqErrorParams = [], cqWindows = []\<rparr>
      in case cause of
           None \<Rightarrow> request\<lparr>cqRunStatus := StSuccess\<rparr>
         | Some Cancelled \<Rightarrow> request\<lparr>cqRunStatus := StPending, cqNextAttemptAt := Some now\<rparr>
         | Some c \<Rightarrow>
             (let attempt = rRetryCount run;
                  (retryable, delay0, code) = retryDecision (rTaskType run) attempt c policy;
                  delay = retryDelayWithJitter delay0 (rTaskType run) (rID run) (collectionClaimSiteID claim) 0 attempt;
                  request1 = request\<lparr>cqErrorCode := code, cqErrorParams := cause_params c\<rparr>
              in if retryable
                 then request1\<lparr>cqRunStatus := StPending, cqNextAttemptAt := Some (after_unix laterNanos delay)\<rparr>
                 else request1\<lparr>cqRunStatus := StFailed\<rparr>))"

definition executeNonWindow ::
    "CollectionTaskAttemptPolicy \<Rightarrow> (nat \<Rightarrow> int) \<Rightarrow> job_handler \<Rightarrow> CollectionTaskClaim \<Rightarrow> store \<Rightarrow> store" where
  "executeNonWindow policy clock handler claim db =
     (case handler claim None db of
        Interrupted \<Rightarrow> db
      | Finished rows mutation cause \<Rightarrow>
          (case CommitClaim (Unix (clock 2)) db (plain_request policy claim (clock 0) (clock 1) rows cause) of
             Inl _ \<Rightarrow> db
           | Inr (db', _) \<Rightarrow> db'))"

section \<open>Windows in order\<close>

definition window_facts :: "CollectionRunWindow \<Rightarrow> int \<times> int \<times> int \<times> int \<times> int" where
  "window_facts w = (wID w, wRunID w, wSiteID w, wHourTS w, wAttemptCount w)"

text \<open>The slice is used up: the remaining windows go back unexecuted.\<close>

fun yield_windows ::
    "(nat \<Rightarrow> int) \<Rightarrow> CollectionTaskClaim \<Rightarrow> CollectionRunWindow list \<Rightarrow> int \<Rightarrow> nat \<Rightarrow> store \<Rightarrow> store" where
  "yield_windows clock claim [] lastCommitAt n db = db"
| "yield_windows clock claim (w # ws) lastCommitAt n db =
     (let commitAt = monotonicWorkerCommitTime (Unix (clock n)) [lastCommitAt, wUpdatedAt w]
      in case CompleteClaimedWindow (Unix (clock n)) db (rID (clRun claim)) (clRequestID claim) commitAt
             (release_outcome commitAt w) None of
           Inl _ \<Rightarrow> db
         | Inr (db', _) \<Rightarrow> yield_windows clock claim ws commitAt (n + 1) db')"

fun execute_windows ::
    "CollectionTaskAttemptPolicy \<Rightarrow> int \<Rightarrow> (nat \<Rightarrow> int) \<Rightarrow> job_handler \<Rightarrow> CollectionTaskClaim \<Rightarrow> int
       \<Rightarrow> CollectionRunWindow list \<Rightarrow> int \<Rightarrow> nat \<Rightarrow> store \<Rightarrow> store" where
  "execute_windows policy sliceLimit clock handler claim startedAt [] lastCommitAt n db = db"
| "execute_windows policy sliceLimit clock handler claim startedAt (w # ws) lastCommitAt n db =
     (if clock n - startedAt \<ge> sliceLimit then yield_windows clock claim (w # ws) lastCommitAt (n + 1) db
      else case handler claim (Some w) db of
             Interrupted \<Rightarrow> db
           | Finished rows mutation cause \<Rightarrow>
               (let outcome = windowOutcome policy (clock (n + 1)) (rTaskType (clRun claim)) (window_facts w) rows cause;
                    commitAt = monotonicWorkerCommitTime (Unix (clock (n + 2))) [lastCommitAt, wUpdatedAt w]
                in case CompleteClaimedWindow (Unix (clock (n + 2))) db (rID (clRun claim)) (clRequestID claim) commitAt
                       outcome mutation of
                     Inl _ \<Rightarrow> db
                   | Inr (db', _) \<Rightarrow>
                       execute_windows policy sliceLimit clock handler claim startedAt ws commitAt (n + 3) db'))"

section \<open>Initial backfills\<close>

text \<open>
  The windows run concurrently; each commits on its own, so an execution is the order in which the
  goroutines read the clock and commit. A window whose commit fails does not stop the others.
\<close>

fun executeInitialBackfillClaim ::
    "CollectionTaskAttemptPolicy \<Rightarrow> (nat \<Rightarrow> int) \<Rightarrow> job_handler \<Rightarrow> CollectionTaskClaim \<Rightarrow> CollectionRunWindow list \<Rightarrow> nat \<Rightarrow> store \<Rightarrow> store" where
  "executeInitialBackfillClaim policy clock handler claim [] n db = db"
| "executeInitialBackfillClaim policy clock handler claim (w # order) n db =
     (let db1 =
        (case handler claim (Some w) db of
           Interrupted \<Rightarrow> db
         | Finished rows mutation cause \<Rightarrow>
             (case CompleteClaimedWindow (Unix (clock (n + 1))) db (rID (clRun claim)) (clRequestID claim) (Unix (clock (n + 1)))
                 (windowOutcome policy (clock n) (rTaskType (clRun claim)) (window_facts w) rows cause) mutation of
                Inl _ \<Rightarrow> db
              | Inr (db', _) \<Rightarrow> db'))
      in executeInitialBackfillClaim policy clock handler claim order (n + 2) db1)"

section \<open>One claim\<close>

text \<open>\<open>order\<close> is the completion order of an initial backfill; \<open>handler\<close> is \<open>None\<close> when no handler is registered.\<close>

definition claim_body ::
    "CollectionTaskAttemptPolicy \<Rightarrow> int \<Rightarrow> (nat \<Rightarrow> int) \<Rightarrow> job_handler option \<Rightarrow> CollectionRunWindow list \<Rightarrow> CollectionTaskClaim
       \<Rightarrow> store \<Rightarrow> store" where
  "claim_body policy sliceLimit clock handler order claim db =
     (case handler of
        None \<Rightarrow> (case ReleaseClaim (Unix (clock 0)) db claim (Unix (clock 0)) of Inl _ \<Rightarrow> db | Inr (db', _) \<Rightarrow> db')
      | Some h \<Rightarrow>
          if clWindows claim = [] then executeNonWindow policy clock h claim db
          else if rTaskType (clRun claim) = TaskTypeUsageBackfill \<and> rPriority (clRun claim) = PriorityInitialBackfill
          then executeInitialBackfillClaim policy clock h claim order 0 db
          else execute_windows policy sliceLimit clock h claim (clock 0) (clWindows claim) (rUpdatedAt (clRun claim)) 1 db)"

definition executeClaim ::
    "CollectionTaskAttemptPolicy \<Rightarrow> int \<Rightarrow> (nat \<Rightarrow> int) \<Rightarrow> int \<Rightarrow> job_handler option \<Rightarrow> CollectionRunWindow list \<Rightarrow> CollectionTaskClaim
       \<Rightarrow> store \<Rightarrow> store" where
  "executeClaim policy sliceLimit clock releaseAt handler order claim db =
     (let db1 = claim_body policy sliceLimit clock handler order claim db
      in case ReleaseOwnedRunning db1 (rID (clRun claim)) (clRequestID claim) releaseAt policy of
           Inl _ \<Rightarrow> db1
         | Inr (db2, _) \<Rightarrow> db2)"

section \<open>An execution is a sequence of transactions\<close>

lemma complete_steps:
  "claim_step\<^sup>*\<^sup>* db (case CompleteClaimedWindow a db i q now out m of Inl _ \<Rightarrow> db | Inr (db', _) \<Rightarrow> db')"
  by (auto split: sum.splits intro: claim_step.complete_window)

lemma executeNonWindow_steps: "claim_step\<^sup>*\<^sup>* db (executeNonWindow policy clock h claim db)"
  by (auto simp: executeNonWindow_def split: job.splits sum.splits intro: claim_step.commit)

lemma yield_windows_steps: "claim_step\<^sup>*\<^sup>* db (yield_windows clock claim ws c n db)"
proof (induction clock claim ws c n db rule: yield_windows.induct)
  case (2 clock claim w ws c n db)
  show ?case
  proof (cases "CompleteClaimedWindow (Unix (clock n)) db (rID (clRun claim)) (clRequestID claim)
      (monotonicWorkerCommitTime (Unix (clock n)) [c, wUpdatedAt w])
      (release_outcome (monotonicWorkerCommitTime (Unix (clock n)) [c, wUpdatedAt w]) w) None")
    case (Inr p)
    obtain db1 r where p: "p = (db1, r)" by force
    have "claim_step db db1" using Inr p by (auto intro: claim_step.complete_window)
    then show ?thesis using 2 [OF refl Inr p [symmetric]] Inr p by (simp add: Let_def)
  qed (simp add: Let_def)
qed simp

lemma execute_windows_steps: "claim_step\<^sup>*\<^sup>* db (execute_windows policy s clock h claim st ws c n db)"
proof (induction policy s clock h claim st ws c n db rule: execute_windows.induct)
  case (2 policy s clock h claim st w ws c n db)
  show ?case
  proof (cases "clock n - st \<ge> s")
    case True
    then show ?thesis using yield_windows_steps by (simp del: yield_windows.simps)
  next
    case False
    show ?thesis
    proof (cases "h claim (Some w) db")
      case (Finished rows m cause)
      let ?at = "monotonicWorkerCommitTime (Unix (clock (n + 2))) [c, wUpdatedAt w]"
      let ?out = "windowOutcome policy (clock (n + 1)) (rTaskType (clRun claim)) (window_facts w) rows cause"
      let ?r = "CompleteClaimedWindow (Unix (clock (n + 2))) db (rID (clRun claim)) (clRequestID claim) ?at ?out m"
      show ?thesis
      proof (cases ?r)
        case (Inr p)
        obtain db1 r where p: "p = (db1, r)" by force
        have "claim_step db db1" using Inr p by (auto intro: claim_step.complete_window)
        moreover have "claim_step\<^sup>*\<^sup>* db1 (execute_windows policy s clock h claim st ws ?at (n + 3) db1)"
          using 2 [OF False Finished refl refl Inr p [symmetric]] .
        ultimately show ?thesis using False Finished Inr p
          by (simp del: monotonicWorkerCommitTime.simps add: Let_def)
      qed (use False Finished in \<open>simp add: Let_def del: monotonicWorkerCommitTime.simps\<close>)
    qed (use False in simp)
  qed
qed simp

lemma backfill_steps: "claim_step\<^sup>*\<^sup>* db (executeInitialBackfillClaim policy clock h claim order n db)"
proof (induction order arbitrary: n db)
  case (Cons w order)
  let ?db1 = "case h claim (Some w) db of Interrupted \<Rightarrow> db
     | Finished rows mutation cause \<Rightarrow>
         (case CompleteClaimedWindow (Unix (clock (n + 1))) db (rID (clRun claim)) (clRequestID claim) (Unix (clock (n + 1)))
             (windowOutcome policy (clock n) (rTaskType (clRun claim)) (window_facts w) rows cause) mutation of
            Inl _ \<Rightarrow> db | Inr (db', _) \<Rightarrow> db')"
  have "claim_step\<^sup>*\<^sup>* db ?db1" by (simp split: job.split add: complete_steps)
  then show ?case using Cons.IH [of ?db1 "n + 2"] by (simp add: Let_def)
qed simp

lemma claim_body_steps: "claim_step\<^sup>*\<^sup>* db (claim_body policy s clock handler order claim db)"
proof -
  have "ReleaseClaim a db claim now = Inr (db', r) \<Longrightarrow> claim_step db db'" for a now db' r
    by (auto simp: ReleaseClaim_def Let_def split: if_split_asm intro: claim_step.commit)
  then show ?thesis
    by (auto simp: claim_body_def executeNonWindow_steps execute_windows_steps backfill_steps split: option.splits sum.splits
        simp del: execute_windows.simps executeInitialBackfillClaim.simps)
qed

lemma executeClaim_steps: "claim_step\<^sup>*\<^sup>* db (executeClaim policy s clock releaseAt handler order claim db)"
proof -
  let ?db1 = "claim_body policy s clock handler order claim db"
  have "claim_step\<^sup>*\<^sup>* ?db1 (executeClaim policy s clock releaseAt handler order claim db)"
    by (auto simp: executeClaim_def Let_def split: sum.splits intro: claim_step.release_owned)
  with claim_body_steps show ?thesis by (rule rtranclp_trans)
qed

end
