(* ===== verification/Executor_Properties.thy ===== *)
theory Executor_Properties
  imports Claim_Execution "HOL-Library.Multiset"
begin

text \<open>
  Properties of the executor: queue slots agree with the running goroutines and request identifiers are
  never reused, a claimed shared task always finds its slot, the dispatch loops stop only when a queue is
  full or has nothing to claim, and what the executor commits is accepted.
\<close>

section \<open>Sorting and identifiers\<close>

lemma mset_swap_down [simp]: "mset (swap_down v ws) = add_mset v (mset ws)"
  by (induction ws) auto

lemma set_swap_down [simp]: "set (swap_down v ws) = insert v (set ws)"
  by (induction ws) auto

lemma swap_down_sorted: "sorted_wrt (\<ge>) ws \<Longrightarrow> sorted_wrt (\<ge>) (swap_down v ws)"
  by (induction ws) (auto simp: not_less)

lemma fold_swap_down:
  "mset (fold swap_down vs acc) = mset vs + mset acc \<and> (sorted_wrt (\<ge>) acc \<longrightarrow> sorted_wrt (\<ge>) (fold swap_down vs acc))"
  by (induction vs arbitrary: acc) (auto simp: swap_down_sorted)

lemma sortStrings_sort: "sortStrings vs = sort vs"
proof -
  have "sorted (sortStrings vs)"
    using fold_swap_down [of vs "[]"] by (simp add: sortStrings_def sorted_wrt_rev)
  moreover have "mset (sortStrings vs) = mset vs" using fold_swap_down [of vs "[]"] by (simp add: sortStrings_def)
  ultimately show ?thesis by (metis properties_for_sort)
qed

lemma set_sortStrings [simp]: "set (sortStrings vs) = set vs"
  by (simp add: sortStrings_sort)

lemma base36_char_inject: "a < 36 \<Longrightarrow> b < 36 \<Longrightarrow> base36_char a = base36_char b \<Longrightarrow> a = b"
  unfolding base36_char_def by (subst (asm) nth_eq_iff_index_eq) simp_all

lemma FormatUint36_nonempty [simp]: "FormatUint36 n \<noteq> []"
  by (subst FormatUint36.simps) simp

lemma FormatUint36_nonempty_rev [simp]: "[] \<noteq> FormatUint36 n"
  by (metis FormatUint36_nonempty)

lemma FormatUint36_inject: "FormatUint36 m = FormatUint36 n \<Longrightarrow> m = n"
proof (induction m arbitrary: n rule: FormatUint36.induct)
  case (1 m)
  consider "m < 36" "n < 36" | "m < 36" "\<not> n < 36" | "\<not> m < 36" "n < 36" | "\<not> m < 36" "\<not> n < 36" by blast
  then show ?case
  proof cases
    case 4
    then have "FormatUint36 (m div 36) = FormatUint36 (n div 36)" "base36_char (m mod 36) = base36_char (n mod 36)"
      using 1(2) by (simp_all add: FormatUint36.simps [of m] FormatUint36.simps [of n])
    then have "m div 36 = n div 36" "m mod 36 = n mod 36" using 1(1) 4 by (auto intro: base36_char_inject)
    then show ?thesis by (metis div_mult_mod_eq)
  qed (use 1(2) in \<open>auto simp: FormatUint36.simps [of m] FormatUint36.simps [of n] intro: base36_char_inject\<close>)
qed

definition request_id :: "string \<Rightarrow> nat \<Rightarrow> string" where
  "request_id nonce k = ''wrk_'' @ nonce @ ''_'' @ FormatUint36 k"

lemma request_id_inject: "request_id nonce a = request_id nonce b \<Longrightarrow> a = b"
  by (simp add: request_id_def FormatUint36_inject)

lemma nextRequestID_eq: "nextRequestID e = (request_id (exNonce e) (exSequence e + 1), e\<lparr>exSequence := exSequence e + 1\<rparr>)"
  by (simp add: nextRequestID_def request_id_def Let_def)

section \<open>What a claim returns\<close>

lemma claim_loop_page: "claim_loop db opts cursor = Inr y \<Longrightarrow> \<exists>c. claim_eligible opts c \<and> claimCandidate db c opts = Inr y"
proof (induction db opts cursor rule: claim_loop.induct)
  case (1 db opts cursor)
  have page: "claim_eligible opts c" if "c \<in> set (claim_page db opts cursor)" for c
    using that unfolding claim_page_def by (auto dest: in_set_takeD)
  from 1(2) [unfolded claim_loop.simps [of db opts cursor] Let_def] 1(1) [OF refl]
    try_candidates_Inr [of db opts "claim_page db opts cursor" y]
  show ?case using page by (auto split: option.split_asm if_split_asm)
qed

lemma ClaimNext_selects:
  assumes "ClaimNext db opts = Inr (db', claim)"
  shows "rTaskType (clRun claim) \<in> set (coTaskTypes opts)" "clRequestID claim = coRequestID opts"
proof -
  from assms have "claim_loop db (normal_options opts) None = Inr (db', claim)"
    by (simp add: ClaimNext_def split: if_split_asm)
  then obtain c where c: "claim_eligible (normal_options opts) c" "claimCandidate db c (normal_options opts) = Inr (db', claim)"
    using claim_loop_page by blast
  have n: "coTaskTypes (normal_options opts) = coTaskTypes opts" "coRequestID (normal_options opts) = coRequestID opts"
    by (simp_all add: normal_options_def Let_def)
  from c(2) show "rTaskType (clRun claim) \<in> set (coTaskTypes opts)"
    by (cases rule: claimCandidate_Inr) (use c(1) n in \<open>simp add: claim_eligible_def start_run_def\<close>)
  from c(2) show "clRequestID claim = coRequestID opts"
    by (cases rule: claimCandidate_Inr) (simp add: n)
qed

section \<open>Slots and goroutines\<close>

text \<open>The goroutines' request identifiers, as sequence numbers.\<close>

definition issued :: "Executor \<Rightarrow> nat list \<Rightarrow> bool" where
  "issued e ks \<longleftrightarrow> map (\<lambda>g. clRequestID (snd g)) (exActive e) = map (request_id (exNonce e)) ks \<and> distinct ks
     \<and> (\<forall>k \<in> set ks. k \<le> exSequence e)"

definition slots_ok :: "Executor \<Rightarrow> bool" where
  "slots_ok e \<longleftrightarrow> (\<forall>q. exLimiter e q = int (count_list (map fst (exActive e)) q)) \<and> (\<forall>q. count_list (map fst (exActive e)) q \<le> 1000)"

definition exec_inv :: "Executor \<Rightarrow> bool" where
  "exec_inv e \<longleftrightarrow> claims_ok (exStore e) \<and> slots_ok e \<and> (\<exists>ks. issued e ks)"

text \<open>A new goroutine with a fresh identifier and its slot.\<close>

definition spawn :: "Executor \<Rightarrow> store \<Rightarrow> QueueKind \<Rightarrow> CollectionTaskClaim \<Rightarrow> Executor" where
  "spawn e db queue claim = e\<lparr>exSequence := exSequence e + 1, exStore := db,
     exLimiter := (exLimiter e)(queue := exLimiter e queue + 1), exActive := exActive e @ [(queue, claim)]\<rparr>"

lemma spawn_inv:
  assumes "exec_inv e" "claims_ok db" "exLimiter e queue < 1000" "clRequestID claim = request_id (exNonce e) (exSequence e + 1)"
  shows "exec_inv (spawn e db queue claim)"
proof -
  obtain ks where ks: "issued e ks" using assms(1) by (auto simp: exec_inv_def)
  then have "exSequence e + 1 \<notin> set ks" by (auto simp: issued_def)
  then have "issued (spawn e db queue claim) (ks @ [exSequence e + 1])"
    using ks assms(4) by (auto simp: issued_def spawn_def)
  moreover have "slots_ok (spawn e db queue claim)"
    using assms(1,3) by (auto simp: exec_inv_def slots_ok_def spawn_def)
  ultimately show ?thesis using assms(2) by (auto simp: exec_inv_def spawn_def)
qed

lemma sequence_inv: "exec_inv e \<Longrightarrow> exec_inv (e\<lparr>exSequence := exSequence e + 1\<rparr>)"
  by (fastforce simp: exec_inv_def slots_ok_def issued_def)

lemma release_taken: "0 \<le> limiter q \<Longrightarrow> release_slot (limiter(q := limiter q + 1)) q = limiter"
  by (auto simp: release_slot_def fun_eq_iff)

lemma slots_nonneg: "slots_ok e \<Longrightarrow> 0 \<le> exLimiter e q"
  by (simp add: slots_ok_def)

lemma admit_round_cases:
  assumes "exec_inv e" "admit_round clock queue maximum types priority maxWindow e = (e', r)"
  obtains (stop) "r \<noteq> Admitted" "r \<noteq> CapacityChanged" "e' = e \<or> e' = e\<lparr>exSequence := exSequence e + 1\<rparr>"
  | (admitted) db claim where "r = Admitted" "e' = spawn e db queue claim" "exLimiter e queue < maximum" "claim_step (exStore e) db"
      "clRequestID claim = request_id (exNonce e) (exSequence e + 1)"
proof (cases "tryAcquire (exLimiter e) queue maximum")
  case None
  then show thesis using stop assms(2) by (simp add: admit_round_def)
next
  case (Some taken)
  let ?e = "e\<lparr>exSequence := exSequence e + 1\<rparr>" and ?id = "request_id (exNonce e) (exSequence e + 1)"
  have t: "exLimiter e queue < maximum" "taken = (exLimiter e)(queue := exLimiter e queue + 1)"
    using Some by (simp_all add: tryAcquire_Some)
  have given: "release_slot taken queue = exLimiter e"
    unfolding t(2) by (rule release_taken) (use assms(1) slots_nonneg in \<open>auto simp: exec_inv_def\<close>)
  show thesis
  proof (cases "types e = []")
    case True
    then show thesis using stop assms(2) Some given by (simp add: admit_round_def)
  next
    case False
    let ?c = "ClaimNext (exStore e) (claim_options (types e) priority None maxWindow (clock (exSequence e + 1)) ?id)"
    show thesis
    proof (cases ?c)
      case (Inl err)
      then have "e' = ?e" "r = claim_failed err"
        using assms(2) Some False given by (simp_all add: admit_round_def nextRequestID_eq)
      then show thesis using stop by (simp add: claim_failed_def)
    next
      case (Inr p)
      obtain db claim where p: "p = (db, claim)" by force
      then have "e' = spawn e db queue claim" "r = Admitted"
        using assms(2) Some False Inr t(2) by (simp_all add: admit_round_def nextRequestID_eq spawn_def)
      moreover have "claim_step (exStore e) db" using Inr p by (auto intro: claim_step.claim)
      moreover have "clRequestID claim = ?id" using ClaimNext_selects(2) [OF Inr [unfolded p]] by (simp add: claim_options_def)
      ultimately show thesis using admitted t(1) by blast
    qed
  qed
qed

text \<open>The shared loop: the claimed type had a free slot when the filter was built, and only this loop takes slots.\<close>

lemma shared_admit_spawn:
  assumes "shared_claim clock settings e = (e1, Inr (db, claim))" and "\<And>q. 0 \<le> limiter q \<and> limiter q \<le> exLimiter e q"
  obtains queue where "QueueForTask (rTaskType (clRun claim)) = Some queue" "sharedCollectionQueue queue"
    "limiter (queueCapacityKey queue) < queueConcurrency queue settings"
    "shared_admit settings db claim (e1\<lparr>exLimiter := limiter\<rparr>)
       = (spawn (e\<lparr>exLimiter := limiter\<rparr>) db (queueCapacityKey queue) claim, Admitted)"
    "clRequestID claim = request_id (exNonce e) (exSequence e + 1)" "claim_step (exStore e) db"
proof -
  let ?id = "request_id (exNonce e) (exSequence e + 1)"
  let ?o = "claim_options (registeredSharedTaskTypes settings e) None (Some PriorityInitialBackfill) 24 (clock (exSequence e + 1)) ?id"
  have c: "ClaimNext (exStore e) ?o = Inr (db, claim)" and e1: "e1 = e\<lparr>exSequence := exSequence e + 1\<rparr>"
    using assms(1) by (simp_all add: shared_claim_def nextRequestID_eq)
  have "rTaskType (clRun claim) \<in> set (registeredSharedTaskTypes settings e)"
    using ClaimNext_selects(1) [OF c] by (simp add: claim_options_def)
  then have "shared_free settings (exLimiter e) (rTaskType (clRun claim))"
    by (simp add: registeredSharedTaskTypes_def)
  then obtain queue where q: "QueueForTask (rTaskType (clRun claim)) = Some queue" "sharedCollectionQueue queue"
    "exLimiter e (queueCapacityKey queue) < queueConcurrency queue settings"
    by (auto simp: shared_free_def split: option.splits)
  have free: "limiter (queueCapacityKey queue) < queueConcurrency queue settings" "0 < queueConcurrency queue settings"
    using q(3) assms(2) [of "queueCapacityKey queue"] by linarith+
  show thesis
  proof (rule that [OF q(1,2) free(1)])
    show "shared_admit settings db claim (e1\<lparr>exLimiter := limiter\<rparr>)
        = (spawn (e\<lparr>exLimiter := limiter\<rparr>) db (queueCapacityKey queue) claim, Admitted)"
      using q free by (simp add: shared_admit_def tryAcquire_def spawn_def e1)
    show "clRequestID claim = ?id" using ClaimNext_selects(2) [OF c] by (simp add: claim_options_def)
    show "claim_step (exStore e) db" using c by (auto intro: claim_step.claim)
  qed
qed

lemma shared_round_cases:
  assumes "exec_inv e" "shared_round clock settings e = (e', r)"
  obtains (stop) "r \<noteq> Admitted" "r \<noteq> CapacityChanged" "e' = e \<or> e' = e\<lparr>exSequence := exSequence e + 1\<rparr>"
  | (admitted) db claim queue where "r = Admitted" "sharedCollectionQueue queue" "e' = spawn e db (queueCapacityKey queue) claim"
      "exLimiter e (queueCapacityKey queue) < queueConcurrency queue settings" "claim_step (exStore e) db"
      "clRequestID claim = request_id (exNonce e) (exSequence e + 1)"
proof (cases "registeredSharedTaskTypes settings e = []")
  case True
  then show thesis using stop assms(2) by (simp add: shared_round_def)
next
  case False
  obtain e1 c where sc: "shared_claim clock settings e = (e1, c)" by force
  have e1: "e1 = e\<lparr>exSequence := exSequence e + 1\<rparr>" using sc by (simp add: shared_claim_def nextRequestID_eq)
  show thesis
  proof (cases c)
    case (Inl err)
    then have "e' = e1" "r = claim_failed err" using assms(2) False sc by (simp_all add: shared_round_def)
    then show thesis using stop e1 by (simp add: claim_failed_def)
  next
    case (Inr p)
    obtain db claim where p: "p = (db, claim)" by force
    have n: "0 \<le> exLimiter e q \<and> exLimiter e q \<le> exLimiter e q" for q
      using assms(1) slots_nonneg by (simp add: exec_inv_def)
    from sc Inr p have "shared_claim clock settings e = (e1, Inr (db, claim))" by simp
    from shared_admit_spawn [OF this n] obtain queue where q: "sharedCollectionQueue queue"
      "exLimiter e (queueCapacityKey queue) < queueConcurrency queue settings"
      "shared_admit settings db claim (e1\<lparr>exLimiter := exLimiter e\<rparr>)
         = (spawn (e\<lparr>exLimiter := exLimiter e\<rparr>) db (queueCapacityKey queue) claim, Admitted)"
      "clRequestID claim = request_id (exNonce e) (exSequence e + 1)" "claim_step (exStore e) db" by metis
    have "e1\<lparr>exLimiter := exLimiter e\<rparr> = e1" "e\<lparr>exLimiter := exLimiter e\<rparr> = e" by (simp_all add: e1)
    then have "e' = spawn e db (queueCapacityKey queue) claim" "r = Admitted"
      using assms(2) False sc Inr p q(3) by (simp_all add: shared_round_def)
    then show thesis using admitted q by blast
  qed
qed

section \<open>The loops keep the invariant\<close>

lemma round_inv:
  assumes "exec_inv e" "e' = e \<or> e' = e\<lparr>exSequence := exSequence e + 1\<rparr>"
  shows "exec_inv e'"
  using assms sequence_inv by blast

lemma admitted_inv:
  assumes "exec_inv e" "claim_step (exStore e) db" "exLimiter e queue < maximum" "maximum \<le> 1000"
    and "clRequestID claim = request_id (exNonce e) (exSequence e + 1)"
  shows "exec_inv (spawn e db queue claim)"
  by (rule spawn_inv) (use assms claim_step_keeps in \<open>auto simp: exec_inv_def\<close>)

lemma admit_loop_inv:
  assumes "exec_inv e" "maximum \<le> 1000" "admit_loop clock queue maximum types priority maxWindow e = (e', r)"
  shows "exec_inv e' \<and> r \<noteq> CapacityChanged \<and> r \<noteq> Admitted"
  using assms
proof (induction clock queue maximum types priority maxWindow e rule: admit_loop.induct)
  case (1 clock queue maximum types priority maxWindow e)
  obtain e1 r1 where one: "admit_round clock queue maximum types priority maxWindow e = (e1, r1)" by force
  from 1(2) one show ?case
  proof (cases rule: admit_round_cases)
    case stop
    then have "e' = e1" "r = r1" using 1(4) one by (subst (asm) admit_loop.simps, cases r1, auto)+
    then show ?thesis using stop round_inv [OF 1(2)] by blast
  next
    case (admitted db claim)
    have "exec_inv e1" unfolding admitted(2) by (rule admitted_inv [OF 1(2) admitted(4,3) 1(3) admitted(5)])
    moreover have "admit_loop clock queue maximum types priority maxWindow e1 = (e', r)"
      using 1(4) one admitted(1) by (subst (asm) admit_loop.simps) simp
    ultimately show ?thesis using 1(1) [OF one [symmetric] admitted(1)] 1(3) by blast
  qed
qed

lemma shared_loop_inv:
  assumes "exec_inv e" "validateCollectorSettings settings" "shared_loop clock settings e = (e', r)"
  shows "exec_inv e' \<and> r \<noteq> CapacityChanged \<and> r \<noteq> Admitted"
  using assms
proof (induction clock settings e rule: shared_loop.induct)
  case (1 clock settings e)
  obtain e1 r1 where one: "shared_round clock settings e = (e1, r1)" by force
  from 1(2) one show ?case
  proof (cases rule: shared_round_cases)
    case stop
    then have "e' = e1" "r = r1" using 1(4) one by (subst (asm) shared_loop.simps, cases r1, auto)+
    then show ?thesis using stop round_inv [OF 1(2)] by blast
  next
    case (admitted db claim queue)
    have "queueConcurrency queue settings \<le> 1000"
      using shared_capacity_keys [OF admitted(2), of settings] 1(3)
      by (auto simp: validateCollectorSettings_def concurrency_supported_def)
    then have "exec_inv e1" unfolding admitted(3) by (rule admitted_inv [OF 1(2) admitted(5,4) _ admitted(6)])
    moreover have "shared_loop clock settings e1 = (e', r)"
      using 1(4) one admitted(1) by (subst (asm) shared_loop.simps) simp
    ultimately show ?thesis using 1(1) [OF one [symmetric] admitted(1)] 1(3) by blast
  qed
qed

lemma queueConcurrency_supported: "validateCollectorSettings settings \<Longrightarrow> queueConcurrency queue settings \<le> 1000"
  by (cases queue) (auto simp: validateCollectorSettings_def concurrency_supported_def)

lemma then_dispatch_inv:
  assumes "exec_inv (fst x) \<and> snd x \<noteq> CapacityChanged \<and> snd x \<noteq> Admitted"
    and "\<And>e. exec_inv e \<Longrightarrow> exec_inv (fst (f e)) \<and> snd (f e) \<noteq> CapacityChanged \<and> snd (f e) \<noteq> Admitted"
  shows "exec_inv (fst (then_dispatch x f)) \<and> snd (then_dispatch x f) \<noteq> CapacityChanged \<and> snd (then_dispatch x f) \<noteq> Admitted"
  using assms by (cases x; cases "snd x") (auto simp: then_dispatch_def)

lemma dispatch_queues_inv:
  assumes "validateCollectorSettings settings" "exec_inv e"
  shows "exec_inv (fst (dispatch_queues clock settings qs e)) \<and> snd (dispatch_queues clock settings qs e) \<noteq> CapacityChanged
    \<and> snd (dispatch_queues clock settings qs e) \<noteq> Admitted"
  using assms(2)
proof (induction qs arbitrary: e)
  case (Cons q qs)
  show ?case unfolding dispatch_queues.simps
    by (rule then_dispatch_inv)
      (use Cons admit_loop_inv [OF Cons.prems queueConcurrency_supported [OF assms(1), of q]] in \<open>auto simp: prod_eq_iff\<close>)
qed simp

lemma dispatch_loaded_inv:
  assumes "validateCollectorSettings settings" "exec_inv e"
  shows "exec_inv (fst (dispatch_loaded clock settings e)) \<and> snd (dispatch_loaded clock settings e) \<noteq> CapacityChanged
    \<and> snd (dispatch_loaded clock settings e) \<noteq> Admitted"
  unfolding dispatch_loaded_def dispatchShared_def
proof (intro then_dispatch_inv)
  show "exec_inv (fst (admit_loop clock QueueInitialBackfill (BackfillConcurrency settings) (\<lambda>_. [TaskTypeUsageBackfill])
      (Some PriorityInitialBackfill) 2048 e)) \<and>
    snd (admit_loop clock QueueInitialBackfill (BackfillConcurrency settings) (\<lambda>_. [TaskTypeUsageBackfill])
      (Some PriorityInitialBackfill) 2048 e) \<noteq> CapacityChanged \<and>
    snd (admit_loop clock QueueInitialBackfill (BackfillConcurrency settings) (\<lambda>_. [TaskTypeUsageBackfill])
      (Some PriorityInitialBackfill) 2048 e) \<noteq> Admitted"
    using admit_loop_inv [OF assms(2) queueConcurrency_supported [OF assms(1), of QueueBackfill]]
    by (metis queueConcurrency.simps(9) surjective_pairing)
qed (use assms dispatch_queues_inv shared_loop_inv in \<open>(metis surjective_pairing)+\<close>)

section \<open>Why a loop stops\<close>

lemma admit_loop_last:
  "admit_loop clock queue maximum types priority maxWindow e = (e', Idle)
     \<Longrightarrow> \<exists>e1. admit_round clock queue maximum types priority maxWindow e1 = (e', Idle)"
proof (induction clock queue maximum types priority maxWindow e rule: admit_loop.induct)
  case (1 clock queue maximum types priority maxWindow e)
  obtain e1 r where one: "admit_round clock queue maximum types priority maxWindow e = (e1, r)" by force
  show ?case
  proof (cases "r = Admitted")
    case True
    then show ?thesis using 1 one by (subst (asm) (2) admit_loop.simps) auto
  next
    case False
    then show ?thesis using 1(2) one by (subst (asm) admit_loop.simps) (cases r; auto)
  qed
qed

lemma shared_loop_last:
  "shared_loop clock settings e = (e', Idle) \<Longrightarrow> \<exists>e1. shared_round clock settings e1 = (e', Idle)"
proof (induction clock settings e rule: shared_loop.induct)
  case (1 clock settings e)
  obtain e1 r where one: "shared_round clock settings e = (e1, r)" by force
  show ?case
  proof (cases "r = Admitted")
    case True
    then show ?thesis using 1 one by (subst (asm) (2) shared_loop.simps) auto
  next
    case False
    then show ?thesis using 1(2) one by (subst (asm) shared_loop.simps) (cases r; auto)
  qed
qed

text \<open>Nothing that the options allow can be claimed.\<close>

definition nothing_to_claim :: "store \<Rightarrow> string list \<Rightarrow> int option \<Rightarrow> int option \<Rightarrow> int \<Rightarrow> bool" where
  "nothing_to_claim db types priority excluded maxWindow \<longleftrightarrow>
     (\<exists>now requestID. ClaimNext db (claim_options types priority excluded maxWindow now requestID) = Inl ErrCollectionTaskUnavailable)"

lemma claim_failed_Idle: "claim_failed err = Idle \<longleftrightarrow> err = ErrCollectionTaskUnavailable"
  by (simp add: claim_failed_def)

lemma admit_round_Idle:
  assumes "admit_round clock queue maximum types priority maxWindow e = (e', Idle)" "0 < maximum"
  shows "maximum \<le> exLimiter e queue \<and> e' = e \<or> types e = []
    \<or> nothing_to_claim (exStore e') (types e) priority None maxWindow"
proof (cases "tryAcquire (exLimiter e) queue maximum")
  case None
  then show ?thesis using assms by (auto simp: tryAcquire_def admit_round_def split: if_split_asm)
next
  case (Some taken)
  then show ?thesis using assms(1)
    by (cases "types e = []")
      (auto simp: admit_round_def nextRequestID_eq claim_failed_Idle nothing_to_claim_def split: sum.split_asm)
qed

lemma shared_round_Idle:
  assumes "shared_round clock settings e = (e', Idle)"
  shows "registeredSharedTaskTypes settings e' = []
    \<or> nothing_to_claim (exStore e') (registeredSharedTaskTypes settings e') None (Some PriorityInitialBackfill) 24"
proof (cases "registeredSharedTaskTypes settings e = []")
  case True
  then show ?thesis using assms by (simp add: shared_round_def)
next
  case False
  obtain e1 c where sc: "shared_claim clock settings e = (e1, c)" by force
  have e1: "e1 = e\<lparr>exSequence := exSequence e + 1\<rparr>" using sc by (simp add: shared_claim_def nextRequestID_eq)
  show ?thesis
  proof (cases c)
    case (Inl err)
    then have "e' = e1" "err = ErrCollectionTaskUnavailable"
      using assms False sc by (auto simp: shared_round_def claim_failed_Idle)
    then show ?thesis using sc Inl e1
      by (auto simp: shared_claim_def nextRequestID_eq nothing_to_claim_def registeredSharedTaskTypes_def)
  next
    case (Inr p)
    then show ?thesis using assms False sc
      by (cases p) (auto simp: shared_round_def shared_admit_def split: option.split_asm if_split_asm)
  qed
qed

lemma independent_loop_Idle:
  assumes "validateCollectorSettings settings" "queue \<in> set independentQueueOrder"
    and "admit_loop clock queue (queueConcurrency queue settings) (\<lambda>e. registeredTaskTypes e queue) None 24 e = (e', Idle)"
  shows "queueConcurrency queue settings \<le> exLimiter e' queue \<or> registeredTaskTypes e' queue = []
    \<or> nothing_to_claim (exStore e') (registeredTaskTypes e' queue) None None 24"
proof -
  have pos: "0 < queueConcurrency queue settings"
    using assms(1,2) by (auto simp: independentQueueOrder_def validateCollectorSettings_def concurrency_supported_def)
  from admit_loop_last [OF assms(3)] obtain e1 where
    one: "admit_round clock queue (queueConcurrency queue settings) (\<lambda>e. registeredTaskTypes e queue) None 24 e1 = (e', Idle)" by blast
  then have "exHandlers e' = exHandlers e1"
    by (auto simp: admit_round_def nextRequestID_eq split: option.split_asm if_split_asm sum.split_asm prod.split_asm)
  then show ?thesis using admit_round_Idle [OF one pos] by (auto simp: registeredTaskTypes_def)
qed

section \<open>Releasing\<close>

lemma recalculated_windows:
  "recalculateInitialBackfillRun db run now = Inr (db', run') \<Longrightarrow> run_windows db' = run_windows db"
  "recalculate_stored db run ws now f = Inr (db', run') \<Longrightarrow> run_windows db' = run_windows db"
  by (auto simp: recalculateInitialBackfillRun_def recalculate_stored_def update_runs_def write_run_def elim!: and_then_InrE)

lemma release_running_windows:
  assumes "release_running db run q now policy = Inr (db', n)" "rStatus run = StRunning" "rLastRequestID run = q"
    and w: "CollectionTaskWindowed (rTaskType run)"
  shows "run_windows db' = run_windows (update_windows (\<lambda>w. wRunID w = rID run \<and> wStatus w = StRunning)
    (yield_row CollectionTaskExecutionFailedCode (maxAttempts policy (rTaskType run)) now) db)"
  using assms statuses_same_runs recalculated_windows
  by (auto simp: release_running_def Let_def same_runs_def update_runs_def elim!: and_then_InrE split: if_split_asm)

lemma release_no_running:
  assumes "release_running db run q now policy = Inr (db', n)" "rStatus run = StRunning" "rLastRequestID run = q"
    and "claims_ok db" "run_by_id db (rID run) = Some run" "w \<in> set (windows_of db' (rID run))"
  shows "wStatus w \<noteq> StRunning"
proof (cases "CollectionTaskWindowed (rTaskType run)")
  case True
  from assms(6) show ?thesis
    unfolding windows_of_def release_running_windows [OF assms(1-3) True]
    by (auto simp: update_windows_def update_where_def yield_row_def split: if_splits)
next
  case False
  have "run_ok run (windows_of db (rID run))" using claims_ok_run [OF assms(4,5)] .
  then have "windows_of db (rID run) = []" using False by (simp add: run_ok_def)
  moreover have "run_windows db' = run_windows db"
    using assms(1-3) False by (auto simp: release_running_def Let_def update_runs_def)
  ultimately show ?thesis using assms(6) by (simp add: windows_of_def)
qed

section \<open>Plain requests\<close>

lemma plain_request_failure:
  assumes "c \<noteq> Cancelled" "retryDecision (rTaskType (clRun claim)) (rRetryCount (clRun claim)) c policy = (retryable, delay, code)"
  shows "cqRunStatus (plain_request policy claim a b rows (Some c)) = (if retryable then StPending else StFailed)
    \<and> cqErrorCode (plain_request policy claim a b rows (Some c)) = code
    \<and> cqNextAttemptAt (plain_request policy claim a b rows (Some c)) = (if retryable
        then Some (after_unix b (retryDelayWithJitter delay (rTaskType (clRun claim)) (rID (clRun claim))
          (collectionClaimSiteID claim) 0 (rRetryCount (clRun claim)))) else None)"
  using assms by (cases c) (simp_all add: plain_request_def Let_def)

lemma plain_request_rows:
  "cqFetchedRows (plain_request policy claim a b rows cause) = fst rows"
  "cqWrittenRows (plain_request policy claim a b rows cause) = snd rows"
  by (auto simp: plain_request_def Let_def split: option.splits task_cause.splits prod.splits)

lemma plain_request_pending:
  assumes "1000000000 \<le> a" "a \<le> b"
  shows "cqRunStatus (plain_request policy claim a b rows cause) = StSuccess
    \<or> (cqRunStatus (plain_request policy claim a b rows cause) = StPending
        \<and> (\<exists>n. cqNextAttemptAt (plain_request policy claim a b rows cause) = Some n \<and> 0 < n)
        \<and> (cause = Some Cancelled \<or> rRetryCount (clRun claim) < maxAttempts policy (rTaskType (clRun claim))))
    \<or> (cqRunStatus (plain_request policy claim a b rows cause) = StFailed
        \<and> cqErrorCode (plain_request policy claim a b rows cause) \<noteq> [])"
proof (cases cause)
  case (Some c)
  have pos: "0 < a div 1000000000" using assms(1) by (simp add: pos_imp_zdiv_pos_iff)
  show ?thesis
  proof (cases "c = Cancelled")
    case True
    then show ?thesis using Some pos by (simp add: plain_request_def Let_def Unix_def)
  next
    case False
    let ?t = "rTaskType (clRun claim)" and ?a = "rRetryCount (clRun claim)"
    obtain retryable delay code where d: "retryDecision ?t ?a c policy = (retryable, delay, code)" by (metis prod_cases3)
    let ?d = "retryDelayWithJitter delay ?t (rID (clRun claim)) (collectionClaimSiteID claim) 0 ?a"
    have "0 \<le> ?d" using retryDelay_bounds(1) [of delay] retryDecision_delay [OF d] by (meson order_trans)
    then have "a div 1000000000 \<le> after_unix b ?d"
      unfolding after_unix_def by (intro zdiv_mono1) (use assms(2) in auto)
    then have "0 < after_unix b ?d" using pos by linarith
    then show ?thesis
      using plain_request_failure [OF False d, of a b rows] retryDecision_code [OF d] retryDecision_budget d Some
      by (cases retryable) auto
  qed
qed (simp add: plain_request_def Let_def)

section \<open>The executor beside the other workers\<close>

text \<open>One step: a poll, the end of a goroutine, or a transaction of another worker.\<close>

inductive exec_step :: "Executor \<Rightarrow> Executor \<Rightarrow> bool" where
  poll: "dispatch_poll clock rows e = Inr (e', r) \<Longrightarrow> exec_step e e'"
| finish: "(queue, claim) \<in> set (exActive e)
    \<Longrightarrow> exec_step e (e\<lparr>exStore := executeClaim policy limit clock ended h order claim (exStore e),
          exLimiter := release_slot (exLimiter e) queue, exActive := remove1 (queue, claim) (exActive e)\<rparr>)"
| other: "claim_step (exStore e) db \<Longrightarrow> exec_step e (e\<lparr>exStore := db\<rparr>)"

definition exec_start :: "Executor \<Rightarrow> bool" where
  "exec_start e \<longleftrightarrow> claims_start (exStore e) \<and> exLimiter e = newQueueLimiter \<and> exActive e = []"

lemma poll_inv:
  assumes "dispatch_poll clock rows e = Inr (e', r)" "exec_inv e"
  shows "exec_inv e' \<and> r \<noteq> CapacityChanged"
proof -
  from assms(1) obtain settings where "Load rows = Inr settings" "dispatch_loaded clock settings e = (e', r)"
    by (auto simp: dispatch_poll_def elim!: and_then_InrE)
  then show ?thesis using dispatch_loaded_inv [OF Load_valid assms(2), of rows settings clock] by auto
qed

lemma issued_remove:
  assumes "issued e ks" "g \<in> set (exActive e)"
  shows "\<exists>ls. issued (e\<lparr>exActive := remove1 g (exActive e)\<rparr>) ls"
proof -
  obtain xs ys where split: "exActive e = xs @ g # ys" "g \<notin> set xs" using assms(2) by (meson split_list_first)
  then have "length xs < length ks" using assms(1) unfolding issued_def
    by (metis (no_types, lifting) length_map length_append length_Cons less_add_Suc1 add_Suc_right)
  let ?as = "take (length xs) ks" and ?bs = "drop (Suc (length xs)) ks"
  have "ks = ?as @ ks ! length xs # ?bs" using \<open>length xs < length ks\<close> by (rule id_take_nth_drop)
  then have d: "distinct (?as @ ?bs)" "set (?as @ ?bs) \<subseteq> set ks" using assms(1) unfolding issued_def
    by (metis distinct_append distinct.simps(2) disjoint_insert(1) list.set(2), auto dest: in_set_takeD in_set_dropD)
  have m: "map (\<lambda>g. clRequestID (snd g)) (xs @ g # ys) = map (request_id (exNonce e)) ks"
    using assms(1) split(1) by (simp add: issued_def)
  have "map (\<lambda>g. clRequestID (snd g)) xs = map (request_id (exNonce e)) ?as"
    using arg_cong [OF m, of "take (length xs)"] by (simp add: take_map)
  moreover have "map (\<lambda>g. clRequestID (snd g)) ys = map (request_id (exNonce e)) ?bs"
    using arg_cong [OF m, of "drop (Suc (length xs))"] by (simp add: drop_map)
  moreover have "remove1 g (exActive e) = xs @ ys" using split by (simp add: remove1_append)
  ultimately have "issued (e\<lparr>exActive := remove1 g (exActive e)\<rparr>) (?as @ ?bs)"
    using d assms(1) by (auto simp: issued_def)
  then show ?thesis by blast
qed

lemma count_list_remove1:
  "(q, c) \<in> set xs \<Longrightarrow> count_list (map fst xs) p = count_list (map fst (remove1 (q, c) xs)) p + (if p = q then 1 else 0)"
  by (induction xs) auto

lemma finish_slots:
  assumes "slots_ok e" "(queue, claim) \<in> set (exActive e)"
  shows "slots_ok (e\<lparr>exStore := db, exLimiter := release_slot (exLimiter e) queue, exActive := remove1 (queue, claim) (exActive e)\<rparr>)"
proof -
  let ?n = "\<lambda>p. count_list (map fst (remove1 (queue, claim) (exActive e))) p"
  have l: "exLimiter e p = int (?n p) + (if p = queue then 1 else 0)" for p
    using assms count_list_remove1 [OF assms(2), of p] by (simp add: slots_ok_def)
  have "?n p \<le> count_list (map fst (exActive e)) p" for p
    using count_list_remove1 [OF assms(2), of p] by simp
  then have "?n p \<le> 1000" for p using assms(1) le_trans unfolding slots_ok_def by blast
  moreover have "release_slot (exLimiter e) queue p = int (?n p)" for p
    by (auto simp: release_slot_def l)
  ultimately show ?thesis by (simp add: slots_ok_def)
qed

lemma exec_step_inv: "exec_step e e' \<Longrightarrow> exec_inv e \<Longrightarrow> exec_inv e'"
proof (induction rule: exec_step.induct)
  case (poll clock rows e e' r)
  then show ?case using poll_inv by blast
next
  case (finish queue claim e policy limit clock ended h order)
  let ?db = "executeClaim policy limit clock ended h order claim (exStore e)"
  have "claims_ok ?db" using finish(2) claims.steps_inv [OF executeClaim_steps] by (simp add: exec_inv_def)
  moreover obtain ks ls where "issued e ks" "issued (e\<lparr>exActive := remove1 (queue, claim) (exActive e)\<rparr>) ls"
    using finish issued_remove by (meson exec_inv_def)
  ultimately show ?case using finish(2) finish_slots [OF _ finish(1)] unfolding exec_inv_def issued_def by auto
next
  case (other e db)
  then show ?case using claim_step_keeps by (auto simp: exec_inv_def slots_ok_def issued_def)
qed

interpretation executor: invariant_system exec_start exec_step exec_inv
proof unfold_locales
  show "exec_start e \<Longrightarrow> exec_inv e" for e
    by (auto simp: exec_start_def exec_inv_def claims_start_ok slots_ok_def newQueueLimiter_def issued_def)
qed (rule exec_step_inv)

section \<open>A concrete executor\<close>

definition sample_executor :: Executor where
  "sample_executor = \<lparr>exStore = sample_store, exHandlers = [TaskTypeUsageValidation], exLimiter = newQueueLimiter,
     exSequence = 0, exNonce = ''boot'', exActive = []\<rparr>"

definition sample_polled :: Executor where
  "sample_polled = fst (dispatch_loaded (\<lambda>_. 50002) sample_settings (sample_executor\<lparr>exStore := sample_ready\<rparr>))"

lemma other_steps: "claim_step\<^sup>*\<^sup>* db db' \<Longrightarrow> exec_step\<^sup>*\<^sup>* (e\<lparr>exStore := db\<rparr>) (e\<lparr>exStore := db'\<rparr>)"
proof (induction rule: rtranclp_induct)
  case (step db1 db2)
  then have "exec_step (e\<lparr>exStore := db1\<rparr>) (e\<lparr>exStore := db1\<rparr>\<lparr>exStore := db2\<rparr>)" by (intro exec_step.other) simp
  then show ?case using step(3) by simp
qed simp

lemma sample_ready_steps: "claim_step\<^sup>*\<^sup>* sample_store sample_ready"
proof -
  have "claim_step sample_store sample_store1" using sample_first claim_step.create_windows by blast
  then show ?thesis unfolding sample_ready_def using MaterializeRunWindows_steps by (rule converse_rtranclp_into_rtranclp)
qed

lemma sample_executor_run: "exec_start sample_executor" "exec_step\<^sup>*\<^sup>* sample_executor sample_polled"
proof -
  show "exec_start sample_executor"
    by (simp add: exec_start_def sample_executor_def claims_start_def sample_store_def)
  have "exec_step\<^sup>*\<^sup>* sample_executor (sample_executor\<lparr>exStore := sample_ready\<rparr>)"
    using other_steps [OF sample_ready_steps, of sample_executor] by (simp add: sample_executor_def)
  moreover have "exec_step (sample_executor\<lparr>exStore := sample_ready\<rparr>) sample_polled"
    by (rule exec_step.poll [of "\<lambda>_. 50002" "setting_rows sample_settings" _ _
          "snd (dispatch_loaded (\<lambda>_. 50002) sample_settings (sample_executor\<lparr>exStore := sample_ready\<rparr>))"])
      (simp add: dispatch_poll_def Load_setting_rows sample_polled_def)
  ultimately show "exec_step\<^sup>*\<^sup>* sample_executor sample_polled" by (rule rtranclp.rtrancl_into_rtrancl)
qed

definition sample_claim_value :: CollectionTaskClaim where
  "sample_claim_value = snd (projr (ClaimNext sample_ready (sample_options ''w1'' 50002)))"

section \<open>Properties\<close>

text \<open>
  C23. Whatever order polls, ends of executions and transactions of other workers come in, the limiter
  counts for each queue exactly the goroutines that hold one of its slots, never more than the supported
  maximum, and no two running goroutines execute under the same request identifier.
\<close>

theorem executor_slots_match_goroutines:
  assumes "exec_start e0" "exec_step\<^sup>*\<^sup>* e0 e"
  shows "(\<forall>q. exLimiter e q = int (length (filter (\<lambda>g. fst g = q) (exActive e))) \<and> exLimiter e q \<le> 1000)
    \<and> distinct (map (\<lambda>g. clRequestID (snd g)) (exActive e))"
proof -
  have inv: "slots_ok e" and "\<exists>ks. issued e ks" using executor.reachable_inv [OF assms] by (simp_all add: exec_inv_def)
  then obtain ks where ks: "issued e ks" by blast
  have "distinct (map (request_id (exNonce e)) ks)"
    using ks request_id_inject by (auto simp: issued_def distinct_map inj_on_def)
  then have "distinct (map (\<lambda>g. clRequestID (snd g)) (exActive e))" using ks by (simp add: issued_def)
  moreover have "count_list (map fst xs) q = length (filter (\<lambda>g. fst g = q) xs)" for q and xs :: "(QueueKind \<times> CollectionTaskClaim) list"
    by (induction xs) auto
  ultimately show ?thesis using inv by (simp add: slots_ok_def)
qed

theorem executor_slots_match_goroutines_witness:
  "map (\<lambda>g. (fst g, clRequestID (snd g))) (exActive sample_polled) = [(QueueBackfill, ''wrk_boot_2'')]
   \<and> exLimiter sample_polled QueueBackfill = 1"
proof -
  have a: "map (\<lambda>g. (fst g, clRequestID (snd g))) (exActive sample_polled) = [(QueueBackfill, ''wrk_boot_2'')]" by code_simp
  then have "length (filter (\<lambda>g. fst g = QueueBackfill) (exActive sample_polled)) = 1" by (cases "exActive sample_polled") auto
  then show ?thesis using executor_slots_match_goroutines [OF sample_executor_run] a by simp
qed

text \<open>
  C24. The error ``shared collection queue capacity changed during claim'' cannot occur: the type of a
  claimed shared task had a free slot when the claim's filter was built, and whatever slots other
  goroutines give back in the meantime, the slot is still there.
\<close>

theorem shared_claim_finds_slot:
  assumes "shared_claim clock settings e = (e1, Inr (db, claim))" and "\<forall>q. 0 \<le> limiter q \<and> limiter q \<le> exLimiter e q"
  shows "snd (shared_admit settings db claim (e1\<lparr>exLimiter := limiter\<rparr>)) = Admitted"
  using shared_admit_spawn [OF assms(1), of limiter] assms(2) by (metis snd_conv)

theorem shared_claim_finds_slot_witness:
  "\<exists>e1 db claim. shared_claim (\<lambda>_. 50002) sample_settings (sample_executor\<lparr>exStore := sample_ready\<rparr>) = (e1, Inr (db, claim))
     \<and> snd (shared_admit sample_settings db claim e1) = Admitted"
proof -
  let ?e = "sample_executor\<lparr>exStore := sample_ready\<rparr>"
  obtain e1 r where c: "shared_claim (\<lambda>_. 50002) sample_settings ?e = (e1, r)" by force
  have "is_inr (snd (shared_claim (\<lambda>_. 50002) sample_settings ?e))" by code_simp
  then obtain db claim where "r = Inr (db, claim)" using c is_inr_store by fastforce
  moreover have "e1\<lparr>exLimiter := newQueueLimiter\<rparr> = e1"
    using c by (auto simp: shared_claim_def nextRequestID_eq sample_executor_def)
  ultimately show ?thesis
    using shared_claim_finds_slot [of "\<lambda>_. 50002" sample_settings ?e e1 db claim newQueueLimiter] c
    by (simp add: sample_executor_def newQueueLimiter_def)
qed



text \<open>
  Whatever a handler of a task without windows returns or fails with, the commit the executor builds
  passes the validation of \<^verbatim>\<open>commitNonWindowResult\<close>, and the task is put back only while it has attempts
  left or when its execution was cancelled.
\<close>

theorem plain_requests_accepted:
  assumes "request = plain_request policy claim nowNanos laterNanos (fetched, written) cause"
    and "0 \<le> fetched" "0 \<le> written" "1000000000 \<le> nowNanos" "nowNanos \<le> laterNanos"
  shows "(\<exists>columns. non_window_columns request = Inr columns)
    \<and> (cqRunStatus request = StPending
        \<longrightarrow> cause = Some Cancelled \<or> rRetryCount (clRun claim) < maxAttempts policy (rTaskType (clRun claim)))"
  using plain_request_pending [OF assms(4,5), of policy claim "(fetched, written)" cause]
    plain_request_rows [of policy claim nowNanos laterNanos "(fetched, written)" cause] assms(1-3)
  by (auto simp: non_window_columns_def Let_def)

theorem plain_requests_accepted_witness:
  "\<exists>columns. non_window_columns (plain_request defaultAttemptPolicy sample_claim_value 50000000000000 50000000000000 (3, 2)
     (Some OtherFailure)) = Inr columns"
  using plain_requests_accepted [OF refl, of 3 2 50000000000000 50000000000000 defaultAttemptPolicy sample_claim_value "Some OtherFailure"]
  by simp



text \<open>
  The type filter that the executor sends to the database is sorted whatever the iteration order of
  the handler map: the in-place sort agrees with the library's.
\<close>

theorem sortStrings_equals_sort: "sortStrings vs = sort vs"
  by (rule sortStrings_sort)

text \<open>
  A window that is given back because the time slice is used up has spent an attempt although its
  handler was never called: the count goes up when the window is claimed and does not come back.
\<close>

theorem slice_yield_spends_attempt:
  "map (\<lambda>w. (wStatus w, wAttemptCount w)) (run_windows sample_ready) = [(StPending, 0)]
   \<and> map (\<lambda>w. (wStatus w, wAttemptCount w)) (run_windows (executeClaim defaultAttemptPolicy 30000000000
       (\<lambda>n. if n = 0 then 50003000000000 else 50033000000000) 50034 (Some handler) [] sample_claim_value sample_claimed))
     = [(StPending, 1)]"
proof
  show "map (\<lambda>w. (wStatus w, wAttemptCount w)) (run_windows sample_ready) = [(StPending, 0)]" by code_simp
  show "map (\<lambda>w. (wStatus w, wAttemptCount w)) (run_windows (executeClaim defaultAttemptPolicy 30000000000
       (\<lambda>n. if n = 0 then 50003000000000 else 50033000000000) 50034 (Some handler) [] sample_claim_value sample_claimed))
     = [(StPending, 1)]"
    by code_simp
qed

end
