(* ===== verification/Alert_Delivery.thy ===== *)
theory Alert_Delivery
  imports Pilot_Prelude "HOL-Library.Product_Lexorder"
begin

text \<open>
  Delivery of alert notifications (\<^verbatim>\<open>model/alert_delivery.go\<close>, \<^verbatim>\<open>service/dingtalk.go\<close>): the durable
  queue with leases, takeovers and retries, and what one attempt makes of the remote answer. The rows of
  \<^verbatim>\<open>alert_delivery\<close> are a list; a claim token is the argument of the claim, since the code draws it at
  random. Durations are nanoseconds, columns Unix seconds. JSON decoding and HTTP date parsing are
  arguments. Transactions are serial, so the row locks that a claim skips never occur.
\<close>

section \<open>Rows\<close>

record AlertDelivery =
  dID :: int
  dAlertEventID :: "int option"
  dEventType :: string
  dChannel :: string
  dStatus :: string
  dAttemptCount :: int
  dClaimToken :: "string option"
  dLeaseExpiresAt :: "int option"
  dPayloadSnapshot :: string
  dErrorCode :: string
  dResponseCode :: "int option"
  dResponseMessage :: "string option"
  dNextRetryAt :: "int option"
  dSentAt :: "int option"
  dCreatedAt :: int
  dUpdatedAt :: int

record delivery_store =
  deliveries :: "AlertDelivery list"
  next_delivery_id :: int

datatype delivery_error = InvalidDeliveryRequest | TestDeduplicated | ErrAlertDeliveryUnavailable | ErrAlertDeliveryLeaseLost

abbreviation EventFiring :: string where "EventFiring \<equiv> ''firing''"
abbreviation EventResolved :: string where "EventResolved \<equiv> ''resolved''"
abbreviation EventTest :: string where "EventTest \<equiv> ''test''"
abbreviation ChannelDingTalk :: string where "ChannelDingTalk \<equiv> ''dingtalk''"
abbreviation DeliveryPending :: string where "DeliveryPending \<equiv> ''pending''"
abbreviation DeliverySuccess :: string where "DeliverySuccess \<equiv> ''success''"
abbreviation DeliveryFailed :: string where "DeliveryFailed \<equiv> ''failed''"
abbreviation AlertDeliveryMaxAttempts :: int where "AlertDeliveryMaxAttempts \<equiv> 5"

section \<open>Snapshots\<close>

text \<open>A decoded JSON value; scalars carry no keys.\<close>

datatype json = JScalar | JArray "json list" | JObject "(string \<times> json) list"

definition sensitive_key :: "string \<Rightarrow> bool" where
  "sensitive_key key \<longleftrightarrow>
     ToLower (map (\<lambda>c. if c = CHR ''-'' \<or> c = CHR '' '' then CHR ''_'' else c) key)
       \<in> set [''webhook'', ''webhook_url'', ''secret'', ''sign'', ''signature'', ''access_token'', ''password'', ''encryption_key'']"

fun alertDeliverySnapshotHasSensitiveKey :: "json \<Rightarrow> bool" and elements_sensitive :: "json list \<Rightarrow> bool"
  and members_sensitive :: "(string \<times> json) list \<Rightarrow> bool" where
  "alertDeliverySnapshotHasSensitiveKey JScalar = False"
| "alertDeliverySnapshotHasSensitiveKey (JArray vs) = elements_sensitive vs"
| "alertDeliverySnapshotHasSensitiveKey (JObject kvs) = members_sensitive kvs"
| "elements_sensitive [] = False"
| "elements_sensitive (v # vs) = (alertDeliverySnapshotHasSensitiveKey v \<or> elements_sensitive vs)"
| "members_sensitive [] = False"
| "members_sensitive ((k, v) # kvs) = (sensitive_key k \<or> alertDeliverySnapshotHasSensitiveKey v \<or> members_sensitive kvs)"

definition validAlertDeliverySnapshot :: "(string \<Rightarrow> json option) \<Rightarrow> string \<Rightarrow> bool" where
  "validAlertDeliverySnapshot decode value =
     (if value = [] \<or> int (length value) > 65536 then False
      else case decode value of None \<Rightarrow> False | Some v \<Rightarrow> \<not> alertDeliverySnapshotHasSensitiveKey v)"

section \<open>Queue\<close>

text \<open>The unique key on event, event type and channel; a test delivery has no event and never conflicts.\<close>

definition same_delivery :: "int option \<Rightarrow> string \<Rightarrow> AlertDelivery \<Rightarrow> bool" where
  "same_delivery event eventType d \<longleftrightarrow> event \<noteq> None \<and> dAlertEventID d = event \<and> dEventType d = eventType
     \<and> dChannel d = ChannelDingTalk"

definition new_delivery :: "delivery_store \<Rightarrow> int option \<Rightarrow> string \<Rightarrow> string \<Rightarrow> int \<Rightarrow> AlertDelivery" where
  "new_delivery db event eventType payload now =
     \<lparr>dID = next_delivery_id db, dAlertEventID = event, dEventType = eventType, dChannel = ChannelDingTalk,
      dStatus = DeliveryPending, dAttemptCount = 0, dClaimToken = None, dLeaseExpiresAt = None,
      dPayloadSnapshot = payload, dErrorCode = [], dResponseCode = None, dResponseMessage = None,
      dNextRetryAt = Some now, dSentAt = None, dCreatedAt = now, dUpdatedAt = now\<rparr>"

definition EnqueueDelivery :: "(string \<Rightarrow> json option) \<Rightarrow> delivery_store \<Rightarrow> int option \<Rightarrow> string \<Rightarrow> string \<Rightarrow> int
    \<Rightarrow> delivery_error + (delivery_store \<times> AlertDelivery \<times> bool)" where
  "EnqueueDelivery decode db event eventType payload now =
     (if now \<le> 0 \<or> (eventType \<noteq> EventFiring \<and> eventType \<noteq> EventResolved \<and> eventType \<noteq> EventTest)
         \<or> (eventType = EventTest \<and> event \<noteq> None)
         \<or> (eventType \<noteq> EventTest \<and> (case event of None \<Rightarrow> True | Some i \<Rightarrow> i \<le> 0))
         \<or> \<not> validAlertDeliverySnapshot decode payload then Inl InvalidDeliveryRequest
      else case find (same_delivery event eventType) (deliveries db) of
             Some existing \<Rightarrow> Inr (db, existing, True)
           | None \<Rightarrow> Inr (db\<lparr>deliveries := deliveries db @ [new_delivery db event eventType payload now],
                        next_delivery_id := next_delivery_id db + 1\<rparr>, new_delivery db event eventType payload now, False))"

definition update_deliveries :: "(AlertDelivery \<Rightarrow> bool) \<Rightarrow> (AlertDelivery \<Rightarrow> AlertDelivery) \<Rightarrow> delivery_store \<Rightarrow> delivery_store" where
  "update_deliveries P f db = db\<lparr>deliveries := update_where P f (deliveries db)\<rparr>"

definition disabled :: "int \<Rightarrow> AlertDelivery \<Rightarrow> AlertDelivery" where
  "disabled now d = d\<lparr>dStatus := DeliveryFailed, dErrorCode := ''NOTIFICATION_DISABLED'',
     dResponseCode := None, dResponseMessage := Some ''notification disabled'', dNextRetryAt := None,
     dClaimToken := None, dLeaseExpiresAt := None, dUpdatedAt := now\<rparr>"

definition DisablePending :: "delivery_store \<Rightarrow> int \<Rightarrow> delivery_error + (delivery_store \<times> nat)" where
  "DisablePending db now =
     (if now \<le> 0 then Inl InvalidDeliveryRequest
      else Inr (update_deliveries (\<lambda>d. dStatus d = DeliveryPending) (disabled now) db,
             length (filter (\<lambda>d. dStatus d = DeliveryPending) (deliveries db))))"

definition exhausted :: "int \<Rightarrow> AlertDelivery \<Rightarrow> bool" where
  "exhausted now d \<longleftrightarrow> dStatus d = DeliveryPending \<and> dClaimToken d = None \<and> dAttemptCount d \<ge> AlertDeliveryMaxAttempts
     \<and> (case dNextRetryAt d of None \<Rightarrow> False | Some n \<Rightarrow> n \<le> now)"

definition FailExhaustedLeases :: "delivery_store \<Rightarrow> int \<Rightarrow> delivery_error + (delivery_store \<times> nat)" where
  "FailExhaustedLeases db now =
     (if now \<le> 0 then Inl InvalidDeliveryRequest
      else Inr (update_deliveries (exhausted now) (\<lambda>d. d\<lparr>dStatus := DeliveryFailed, dErrorCode := ''DELIVERY_RETRY_EXHAUSTED'',
             dResponseMessage := Some ''delivery retry budget exhausted'', dNextRetryAt := None, dClaimToken := None,
             dLeaseExpiresAt := None, dUpdatedAt := now\<rparr>) db,
           length (filter (exhausted now) (deliveries db))))"

section \<open>Claiming and completing\<close>

definition due :: "int \<Rightarrow> AlertDelivery \<Rightarrow> bool" where
  "due now d \<longleftrightarrow> dStatus d = DeliveryPending
     \<and> ((dClaimToken d = None \<and> dAttemptCount d < AlertDeliveryMaxAttempts
           \<and> (case dNextRetryAt d of None \<Rightarrow> False | Some n \<Rightarrow> n \<le> now))
        \<or> (dClaimToken d \<noteq> None \<and> 1 \<le> dAttemptCount d \<and> dAttemptCount d \<le> AlertDeliveryMaxAttempts
           \<and> (case dLeaseExpiresAt d of None \<Rightarrow> False | Some l \<Rightarrow> l \<le> now)))"

text \<open>A resolved notification waits for the firing one of its event.\<close>

definition behind_firing :: "delivery_store \<Rightarrow> AlertDelivery \<Rightarrow> bool" where
  "behind_firing db d \<longleftrightarrow> dEventType d = EventResolved
     \<and> list_ex (\<lambda>f. dAlertEventID f \<noteq> None \<and> dAlertEventID f = dAlertEventID d \<and> dEventType f = EventFiring
          \<and> dChannel f = dChannel d \<and> dStatus f = DeliveryPending) (deliveries db)"

text \<open>\<^verbatim>\<open>COALESCE(lease_expires_at, next_retry_at)\<close>; a due row has one of them.\<close>

definition due_key :: "AlertDelivery \<Rightarrow> int \<times> int" where
  "due_key d = (case dLeaseExpiresAt d of Some l \<Rightarrow> l | None \<Rightarrow> (case dNextRetryAt d of Some n \<Rightarrow> n | None \<Rightarrow> 0), dID d)"

record AlertDeliveryClaim =
  acDelivery :: AlertDelivery
  acClaimToken :: string
  acLeaseExpiresAt :: int
  acTakeover :: bool

definition lease :: "string \<Rightarrow> int \<Rightarrow> int \<Rightarrow> int \<Rightarrow> AlertDelivery \<Rightarrow> AlertDelivery" where
  "lease token leaseUntil now attempt d = d\<lparr>dAttemptCount := attempt, dClaimToken := Some token, dLeaseExpiresAt := Some leaseUntil,
     dNextRetryAt := None, dUpdatedAt := now\<rparr>"

text \<open>The guarded update: the row as the selection read it.\<close>

definition selected_row :: "AlertDelivery \<Rightarrow> AlertDelivery \<Rightarrow> bool" where
  "selected_row d r \<longleftrightarrow> dID r = dID d \<and> dStatus r = DeliveryPending \<and> dAttemptCount r = dAttemptCount d
     \<and> (if dClaimToken d \<noteq> None then dClaimToken r = dClaimToken d \<and> dLeaseExpiresAt r = dLeaseExpiresAt d
        else dClaimToken r = None \<and> dLeaseExpiresAt r = None \<and> dNextRetryAt r = dNextRetryAt d)"

definition claim_delivery :: "delivery_store \<Rightarrow> int option \<Rightarrow> string \<Rightarrow> int \<Rightarrow> int \<Rightarrow> delivery_error + (delivery_store \<times> AlertDeliveryClaim)" where
  "claim_delivery db only token now leaseUntil =
     (if now \<le> 0 \<or> leaseUntil \<le> now then Inl InvalidDeliveryRequest
      else case sort_key due_key (filter (\<lambda>d. due now d \<and> \<not> behind_firing db d
                  \<and> (case only of None \<Rightarrow> True | Some i \<Rightarrow> dID d = i)) (deliveries db)) of
             [] \<Rightarrow> Inl ErrAlertDeliveryUnavailable
           | d # _ \<Rightarrow>
               (let takeover = dClaimToken d \<noteq> None;
                    attempt = (if takeover then dAttemptCount d else dAttemptCount d + 1)
                in if length (filter (selected_row d) (deliveries db)) \<noteq> 1 then Inl ErrAlertDeliveryUnavailable
                   else Inr (update_deliveries (selected_row d) (lease token leaseUntil now attempt) db,
                          \<lparr>acDelivery = lease token leaseUntil now attempt d, acClaimToken = token,
                           acLeaseExpiresAt = leaseUntil, acTakeover = takeover\<rparr>)))"

definition ClaimNextDelivery :: "delivery_store \<Rightarrow> string \<Rightarrow> int \<Rightarrow> int \<Rightarrow> delivery_error + (delivery_store \<times> AlertDeliveryClaim)" where
  "ClaimNextDelivery db token now leaseUntil = claim_delivery db None token now leaseUntil"

definition ClaimDeliveryByID :: "delivery_store \<Rightarrow> int \<Rightarrow> string \<Rightarrow> int \<Rightarrow> int \<Rightarrow> delivery_error + (delivery_store \<times> AlertDeliveryClaim)" where
  "ClaimDeliveryByID db i token now leaseUntil =
     (if i \<le> 0 then Inl InvalidDeliveryRequest else claim_delivery db (Some i) token now leaseUntil)"

record AlertDeliveryCompletion =
  cpDeliveryID :: int
  cpAttemptCount :: int
  cpClaimToken :: string
  cpStatus :: string
  cpErrorCode :: string
  cpResponseCode :: "int option"
  cpResponseMessage :: "string option"
  cpNextRetryAt :: "int option"
  cpSentAt :: "int option"
  cpNow :: int

definition completed :: "AlertDeliveryCompletion \<Rightarrow> AlertDelivery \<Rightarrow> AlertDelivery" where
  "completed c d = d\<lparr>dStatus := cpStatus c, dErrorCode := cpErrorCode c, dResponseCode := cpResponseCode c,
     dResponseMessage := cpResponseMessage c, dNextRetryAt := cpNextRetryAt c, dClaimToken := None, dLeaseExpiresAt := None,
     dSentAt := cpSentAt c, dUpdatedAt := cpNow c\<rparr>"

definition leased_by :: "AlertDeliveryCompletion \<Rightarrow> AlertDelivery \<Rightarrow> bool" where
  "leased_by c d \<longleftrightarrow> dID d = cpDeliveryID c \<and> dStatus d = DeliveryPending \<and> dAttemptCount d = cpAttemptCount c
     \<and> dClaimToken d = Some (cpClaimToken c)"

definition CompleteDelivery :: "delivery_store \<Rightarrow> AlertDeliveryCompletion \<Rightarrow> delivery_error + delivery_store" where
  "CompleteDelivery db c =
     (if cpDeliveryID c \<le> 0 \<or> cpAttemptCount c \<le> 0 \<or> cpClaimToken c = [] \<or> cpNow c \<le> 0
         \<or> (cpStatus c \<noteq> DeliveryPending \<and> cpStatus c \<noteq> DeliverySuccess \<and> cpStatus c \<noteq> DeliveryFailed)
         \<or> (cpStatus c = DeliveryPending \<and> cpNextRetryAt c = None)
         \<or> (cpStatus c \<noteq> DeliveryPending \<and> cpNextRetryAt c \<noteq> None) then Inl InvalidDeliveryRequest
      else if length (filter (leased_by c) (deliveries db)) \<noteq> 1 then Inl ErrAlertDeliveryLeaseLost
      else Inr (update_deliveries (leased_by c) (completed c) db))"

section \<open>One attempt\<close>

definition second :: int where "second = 1000000000"
definition retry_after_maximum :: int where "retry_after_maximum = 3600 * second"

definition dingTalkRetryDelay :: "int \<Rightarrow> int" where
  "dingTalkRetryDelay attempt =
     (if attempt = 1 then 60 * second else if attempt = 2 then 300 * second
      else if attempt = 3 then 900 * second else 3600 * second)"

definition dingTalkRetryAfterDigits :: "string \<Rightarrow> bool" where
  "dingTalkRetryAfterDigits v \<longleftrightarrow> v \<noteq> [] \<and> list_all is_digit v"

text \<open>\<open>ParseTime\<close> is \<^verbatim>\<open>http.ParseTime\<close>, in nanoseconds.\<close>

definition parseDingTalkRetryAfter :: "(string \<Rightarrow> int option) \<Rightarrow> string \<Rightarrow> int \<Rightarrow> int \<times> bool" where
  "parseDingTalkRetryAfter ParseTime raw0 now =
     (let raw = TrimSpace raw0
      in if raw = [] then (0, False)
         else if dingTalkRetryAfterDigits raw
         then (if int (digits_value raw) \<ge> 2 ^ 64 \<or> int (digits_value raw) \<ge> 3600 then (retry_after_maximum, True)
               else (int (digits_value raw) * second, True))
         else if prefix ''-'' raw \<and> dingTalkRetryAfterDigits (TrimPrefix raw ''-'') then (0, False)
         else case ParseTime raw of
                None \<Rightarrow> (0, False)
              | Some parsed \<Rightarrow>
                  (let duration = (if parsed - now < 0 then 0 else parsed - now)
                   in (if duration > retry_after_maximum then retry_after_maximum else duration, True)))"

record dingTalkAttemptResult =
  arSuccess :: bool
  arRetryable :: bool
  arRetryAfter :: int
  arHasRetryAfter :: bool
  arErrorCode :: string
  arErrCode :: string
  arResponseCode :: "int option"
  arResponseMessage :: string

definition rejected :: "string \<Rightarrow> string \<Rightarrow> int option \<Rightarrow> string \<Rightarrow> dingTalkAttemptResult" where
  "rejected errorCode errCode response message = \<lparr>arSuccess = False, arRetryable = False, arRetryAfter = 0,
     arHasRetryAfter = False, arErrorCode = errorCode, arErrCode = errCode, arResponseCode = response, arResponseMessage = message\<rparr>"

text \<open>The HTTP client's answer: a request that cannot be built, no response, or a status with the \<^verbatim>\<open>Retry-After\<close> header and the body read up to
  one byte over the limit.\<close>

datatype http_answer = InvalidPayload | InvalidAddress | RedirectForbidden | NetworkFailed | Answer int string "string option"

text \<open>\<open>errcode\<close> is the JSON decoder: the text of the member \<^verbatim>\<open>errcode\<close> of a body that is one JSON object, without
  the quotes of a string.\<close>

definition decodeDingTalkErrCode :: "(string \<Rightarrow> string option) \<Rightarrow> string \<Rightarrow> string option" where
  "decodeDingTalkErrCode errcode body =
     (case errcode body of
        None \<Rightarrow> None
      | Some raw \<Rightarrow> (case ParseInt64 raw of
            None \<Rightarrow> None
          | Some v \<Rightarrow> if FormatInt v = raw then Some raw else None))"

definition truncateDeliveryMessage :: "string \<Rightarrow> string" where
  "truncateDeliveryMessage message = take 2000 (map (\<lambda>c. if c = char_of (13::nat) \<or> c = char_of (10::nat) then CHR '' '' else c) message)"

abbreviation DingTalkRejected :: string where "DingTalkRejected \<equiv> ''DINGTALK_REJECTED''"
abbreviation DingTalkAddressForbidden :: string where "DingTalkAddressForbidden \<equiv> ''DINGTALK_ADDRESS_FORBIDDEN''"
abbreviation DeliveryRetryExhausted :: string where "DeliveryRetryExhausted \<equiv> ''DELIVERY_RETRY_EXHAUSTED''"

definition send_result ::
    "(string \<Rightarrow> int option) \<Rightarrow> (string \<Rightarrow> string option) \<Rightarrow> int \<Rightarrow> http_answer \<Rightarrow> dingTalkAttemptResult" where
  "send_result ParseTime errcode now answer =
     (case answer of
        InvalidPayload \<Rightarrow> rejected DingTalkRejected ''INVALID_PAYLOAD'' None ''invalid notification payload''
      | InvalidAddress \<Rightarrow> rejected DingTalkAddressForbidden [] None ''invalid notification address''
      | RedirectForbidden \<Rightarrow> rejected DingTalkAddressForbidden [] None ''notification redirect forbidden''
      | NetworkFailed \<Rightarrow> (rejected [] [] None ''notification network request failed'')\<lparr>arRetryable := True\<rparr>
      | Answer status header body \<Rightarrow>
          let http = ''HTTP '' @ FormatInt status
          in if status = 429
             then (let (after, present) = parseDingTalkRetryAfter ParseTime header now
                   in (rejected [] [] (Some status) ''HTTP 429'')\<lparr>arRetryable := True, arRetryAfter := after, arHasRetryAfter := present\<rparr>)
             else if status \<ge> 500 then (rejected [] [] (Some status) http)\<lparr>arRetryable := True\<rparr>
             else if status < 200 \<or> status \<ge> 300
             then rejected DingTalkRejected (''HTTP_'' @ FormatInt status) (Some status) http
             else case body of
                    None \<Rightarrow> rejected DingTalkRejected ''INVALID_RESPONSE'' (Some status) ''invalid notification response''
                  | Some bytes \<Rightarrow>
                      if int (length bytes) > 65536
                      then rejected DingTalkRejected ''RESPONSE_TOO_LARGE'' (Some status) ''notification response too large''
                      else case decodeDingTalkErrCode errcode bytes of
                             None \<Rightarrow> rejected DingTalkRejected ''INVALID_RESPONSE'' (Some status) ''invalid notification response''
                           | Some code \<Rightarrow>
                               if code \<noteq> ''0''
                               then (rejected DingTalkRejected code (Some status) (truncateDeliveryMessage (http @ ''; errcode='' @ code)))\<lparr>arRetryable := True\<rparr>
                               else (rejected [] [] (Some status) (http @ ''; errcode=0''))\<lparr>arSuccess := True\<rparr>)"

definition ASCII_letter :: "char \<Rightarrow> bool" where
  "ASCII_letter c \<longleftrightarrow> (97 \<le> (of_char c :: nat) \<and> of_char c \<le> (122 :: nat)) \<or> (65 \<le> (of_char c :: nat) \<and> of_char c \<le> (90 :: nat))"

definition validDingTalkRequestID :: "string \<Rightarrow> bool" where
  "validDingTalkRequestID v \<longleftrightarrow> 1 \<le> length v \<and> length v \<le> 64
     \<and> list_all (\<lambda>c. ASCII_letter c \<or> is_digit c
          \<or> c = CHR ''.'' \<or> c = CHR ''_'' \<or> c = CHR ''-'') v"

definition attempt_completion :: "AlertDeliveryClaim \<Rightarrow> dingTalkAttemptResult \<Rightarrow> string \<Rightarrow> int \<Rightarrow> int \<Rightarrow> AlertDeliveryCompletion" where
  "attempt_completion cl result message nowNanos laterNanos =
     (let now = nowNanos div second; attempt = dAttemptCount (acDelivery cl);
          base = \<lparr>cpDeliveryID = dID (acDelivery cl), cpAttemptCount = attempt, cpClaimToken = acClaimToken cl, cpStatus = [],
            cpErrorCode = [], cpResponseCode = arResponseCode result, cpResponseMessage = Some message, cpNextRetryAt = None,
            cpSentAt = None, cpNow = now\<rparr>
      in if arSuccess result then base\<lparr>cpStatus := DeliverySuccess, cpSentAt := Some now\<rparr>
         else if arRetryable result \<and> attempt < AlertDeliveryMaxAttempts
         then (let delay = (if arHasRetryAfter result
                     then (if arRetryAfter result > retry_after_maximum then retry_after_maximum else arRetryAfter result)
                     else dingTalkRetryDelay attempt)
               in base\<lparr>cpStatus := DeliveryPending, cpNextRetryAt := Some ((laterNanos + delay) div second),
                    cpErrorCode := arErrorCode result\<rparr>)
         else base\<lparr>cpStatus := DeliveryFailed, cpErrorCode := (if arRetryable result then DeliveryRetryExhausted
                else if arErrorCode result \<noteq> [] then arErrorCode result else DingTalkRejected)\<rparr>)"

definition completeAttempt :: "delivery_store \<Rightarrow> AlertDeliveryClaim \<Rightarrow> dingTalkAttemptResult \<Rightarrow> int \<Rightarrow> int \<Rightarrow> delivery_error + delivery_store" where
  "completeAttempt db cl result nowNanos laterNanos =
     CompleteDelivery db (attempt_completion cl result (truncateDeliveryMessage (arResponseMessage result)) nowNanos laterNanos)"

section \<open>The delivery loop\<close>

abbreviation NotificationDisabled :: string where "NotificationDisabled \<equiv> ''NOTIFICATION_DISABLED''"
abbreviation NotificationNotConfigured :: string where "NotificationNotConfigured \<equiv> ''NOTIFICATION_NOT_CONFIGURED''"

record DingTalkSettingValues =
  dsEnabled :: bool
  dsWebhookCiphertext :: string
  dsSecretCiphertext :: string

text \<open>\<open>settings\<close> is \<open>None\<close> when the stored settings break their contract; \<open>decrypt\<close> is the cipher and
  \<open>webhook_ok\<close> the check of the address. The result is the preflight failure's code, if any.\<close>

definition prepare :: "(string \<Rightarrow> string \<Rightarrow> string option) \<Rightarrow> (string \<Rightarrow> bool) \<Rightarrow> DingTalkSettingValues option \<Rightarrow> string option" where
  "prepare decrypt webhook_ok settings =
     (case settings of
        None \<Rightarrow> Some NotificationNotConfigured
      | Some v \<Rightarrow>
          if \<not> dsEnabled v then Some NotificationDisabled
          else if dsWebhookCiphertext v = [] then Some NotificationNotConfigured
          else case decrypt (dsWebhookCiphertext v) ''setting:notification.dingtalk.webhook'' of
                 None \<Rightarrow> Some NotificationNotConfigured
               | Some webhook \<Rightarrow>
                   if \<not> webhook_ok webhook then Some DingTalkAddressForbidden
                   else if dsSecretCiphertext v = [] then Some NotificationNotConfigured
                   else case decrypt (dsSecretCiphertext v) ''setting:notification.dingtalk.secret'' of
                          None \<Rightarrow> Some NotificationNotConfigured
                        | Some secret \<Rightarrow>
                            if secret = [] \<or> length secret > 1024
                               \<or> list_ex (\<lambda>c. c \<in> {char_of (0::nat), char_of (13::nat), char_of (10::nat)}) secret
                            then Some NotificationNotConfigured else None)"

definition safeDeliveryMessage :: "string \<Rightarrow> string" where
  "safeDeliveryMessage code =
     (if code = NotificationDisabled then ''notification disabled''
      else if code = NotificationNotConfigured then ''notification configuration unavailable''
      else if code = DingTalkAddressForbidden then ''notification address forbidden''
      else ''notification delivery failed'')"

definition send :: "(string \<Rightarrow> int option) \<Rightarrow> (string \<Rightarrow> string option) \<Rightarrow> int \<Rightarrow> http_answer \<Rightarrow> string \<Rightarrow> dingTalkAttemptResult" where
  "send ParseTime errcode now answer requestID =
     (if \<not> validDingTalkRequestID requestID then rejected NotificationNotConfigured [] None (safeDeliveryMessage NotificationNotConfigured)
      else send_result ParseTime errcode now answer)"

text \<open>The payload snapshot as the JSON decoder returns it, less the columns that only fill the text.\<close>

record dingTalkDeliverySnapshot =
  snVersion :: int
  snKind :: string
  snAlertEventID :: string
  snEventType :: string

datatype payload = TestPayload | LegacyPayload | AlertPayload

definition payloadForClaim :: "(string \<Rightarrow> dingTalkDeliverySnapshot option) \<Rightarrow> AlertDeliveryClaim \<Rightarrow> payload option" where
  "payloadForClaim decode cl =
     (case decode (dPayloadSnapshot (acDelivery cl)) of
        None \<Rightarrow> None
      | Some sn \<Rightarrow>
          if snVersion sn \<noteq> 1 then None
          else if snKind sn = ''test'' \<and> dEventType (acDelivery cl) = EventTest then Some TestPayload
          else if snKind sn = ''legacy'' then Some LegacyPayload
          else if snKind sn \<noteq> ''alert''
               \<or> (case dAlertEventID (acDelivery cl) of None \<Rightarrow> True | Some i \<Rightarrow> snAlertEventID sn \<noteq> FormatInt i)
               \<or> snEventType sn \<noteq> dEventType (acDelivery cl) then None
          else Some AlertPayload)"

text \<open>
  One round with the readings \<open>clock 0, clock 1, \<dots>\<close> of the clock in nanoseconds. \<open>requestID\<close> is what the generator
  returns; \<open>post\<close> is the remote side, its answer to a payload. A claim whose payload cannot be built stays
  leased and the error (\<open>Inl None\<close>) ends the loop.
\<close>

record delivery_env =
  enParseTime :: "string \<Rightarrow> int option"
  enErrcode :: "string \<Rightarrow> string option"
  enSnapshot :: "string \<Rightarrow> dingTalkDeliverySnapshot option"
  enPost :: "AlertDelivery \<Rightarrow> payload \<Rightarrow> http_answer"
  enClock :: "nat \<Rightarrow> int"

definition attempt_result :: "delivery_env \<Rightarrow> string option \<Rightarrow> string option \<Rightarrow> AlertDeliveryClaim \<Rightarrow> dingTalkAttemptResult option" where
  "attempt_result env preflight requestID cl =
     (case requestID of
        None \<Rightarrow> None
      | Some rid \<Rightarrow>
          if \<not> validDingTalkRequestID rid then None
          else case preflight of
                 Some code \<Rightarrow> Some (rejected code [] None (safeDeliveryMessage code))
               | None \<Rightarrow>
                   (case payloadForClaim (enSnapshot env) cl of
                      None \<Rightarrow> None
                    | Some p \<Rightarrow> Some (send (enParseTime env) (enErrcode env) (enClock env 2) (enPost env (acDelivery cl) p) rid)))"

definition ProcessNext :: "delivery_env \<Rightarrow> string option \<Rightarrow> string option \<Rightarrow> string
    \<Rightarrow> delivery_store \<Rightarrow> delivery_store \<times> (delivery_error option + bool)" where
  "ProcessNext env preflight requestID token db =
     (let now = enClock env 0 div second
      in if preflight = Some NotificationDisabled
         then (case DisablePending db now of Inl e \<Rightarrow> (db, Inl (Some e)) | Inr (db', changed) \<Rightarrow> (db', Inr (changed > 0)))
         else case FailExhaustedLeases db now of
                Inl e \<Rightarrow> (db, Inl (Some e))
              | Inr (db1, _) \<Rightarrow>
                  (case ClaimNextDelivery db1 token now ((enClock env 1 + 30 * second) div second) of
                     Inl e \<Rightarrow> (db1, if e = ErrAlertDeliveryUnavailable then Inr False else Inl (Some e))
                   | Inr (db2, cl) \<Rightarrow>
                       (case attempt_result env preflight requestID cl of
                          None \<Rightarrow> (db2, Inl None)
                        | Some result \<Rightarrow>
                            (case completeAttempt db2 cl result (enClock env 3) (enClock env 4) of
                               Inl e \<Rightarrow> (db2, Inl (Some e))
                             | Inr db3 \<Rightarrow> (db3, Inr True)))))"

text \<open>The checks before the runtime reports ready; they send nothing.\<close>

definition Recover :: "string option \<Rightarrow> int \<Rightarrow> delivery_store \<Rightarrow> delivery_store \<times> bool" where
  "Recover preflight now db =
     (if now \<le> 0 then (db, False)
      else case (if preflight = Some NotificationDisabled then DisablePending db now else Inr (db, 0)) of
             Inl e \<Rightarrow> (db, False)
           | Inr (db1, _) \<Rightarrow> (case FailExhaustedLeases db1 now of Inl e \<Rightarrow> (db1, False) | Inr (db2, _) \<Rightarrow> (db2, True)))"

section \<open>Test notifications\<close>

abbreviation TestSucceeded :: string where "TestSucceeded \<equiv> ''NOTIFICATION_TEST_SUCCEEDED''"
abbreviation RetryScheduled :: string where "RetryScheduled \<equiv> ''DELIVERY_RETRY_SCHEDULED''"

text \<open>A message reference: its code and parameters, \<open>None\<close> for a null value. The parameters are those that the
  message registry requires of the code.\<close>

definition notificationMessage :: "string \<Rightarrow> string option \<Rightarrow> string option \<Rightarrow> string \<Rightarrow> int option
    \<Rightarrow> (string \<times> (string \<times> string option) list) option" where
  "notificationMessage code event delivery errCode next =
     (if code \<in> {NotificationDisabled, NotificationNotConfigured, DingTalkAddressForbidden}
      then Some (code, [(''alert_event_id'', event), (''delivery_id'', delivery)])
      else if code = TestSucceeded
      then (if delivery = None then None else Some (code, [(''delivery_id'', delivery)]))
      else if code = DingTalkRejected
      then (if delivery = None \<or> errCode = [] then None
            else Some (code, [(''alert_event_id'', event), (''delivery_id'', delivery), (''errcode'', Some errCode)]))
      else if code = DeliveryRetryExhausted
      then (if delivery = None then None else Some (code, [(''alert_event_id'', event), (''delivery_id'', delivery)]))
      else if code = RetryScheduled
      then (case next of
              None \<Rightarrow> None
            | Some n \<Rightarrow> if delivery = None \<or> n < 0 then None
                else Some (code, [(''delivery_id'', delivery), (''next_retry_at'', Some (FormatInt n))]))
      else None)"

record NotificationTestResult =
  ntDeliveryID :: "string option"
  ntStatus :: string
  ntResponseCode :: "int option"
  ntMessage :: "string \<times> (string \<times> string option) list"

datatype test_error = InvalidTestRequest | MessageError | DeliveryError delivery_error | DeliveryMissing

definition test_report :: "AlertDelivery \<Rightarrow> dingTalkAttemptResult \<Rightarrow> delivery_store \<Rightarrow> test_error + NotificationTestResult" where
  "test_report d result db =
     (let i = Some (FormatInt (dID d))
      in if arSuccess result
         then (case notificationMessage TestSucceeded None i [] None of
                 None \<Rightarrow> Inl MessageError
               | Some m \<Rightarrow> Inr \<lparr>ntDeliveryID = i, ntStatus = DeliverySuccess, ntResponseCode = arResponseCode result, ntMessage = m\<rparr>)
         else case find (\<lambda>r. dID r = dID d) (deliveries db) of
                None \<Rightarrow> Inl DeliveryMissing
              | Some row \<Rightarrow>
                  (let scheduled = dStatus row = DeliveryPending \<and> dNextRetryAt row \<noteq> None
                   in case notificationMessage (if scheduled then RetryScheduled else dErrorCode row) None i (arErrCode result)
                             (if scheduled then dNextRetryAt row else None) of
                        None \<Rightarrow> Inl MessageError
                      | Some m \<Rightarrow> Inr \<lparr>ntDeliveryID = i, ntStatus = DeliveryFailed, ntResponseCode = arResponseCode result, ntMessage = m\<rparr>))"

text \<open>\<open>others n\<close> is what other transactions commit between the steps of the test: after the insert, before the
  completion, and before the row is read back. \<open>snapshot\<close> is the marshalled test payload.\<close>

definition TestNotification :: "(string \<Rightarrow> json option) \<Rightarrow> delivery_env \<Rightarrow> string option \<Rightarrow> string \<Rightarrow> string \<Rightarrow> string
    \<Rightarrow> (nat \<Rightarrow> delivery_store \<Rightarrow> delivery_store) \<Rightarrow> delivery_store \<Rightarrow> delivery_store \<times> (test_error + NotificationTestResult)" where
  "TestNotification decode env preflight requestID token snapshot others db =
     (if \<not> validDingTalkRequestID requestID then (db, Inl InvalidTestRequest)
      else case preflight of
             Some code \<Rightarrow>
               (case notificationMessage code None None [] None of
                  None \<Rightarrow> (db, Inl MessageError)
                | Some m \<Rightarrow> (db, Inr \<lparr>ntDeliveryID = None, ntStatus = DeliveryFailed, ntResponseCode = None, ntMessage = m\<rparr>))
           | None \<Rightarrow>
               (let now = enClock env 0 div second
                in case EnqueueDelivery decode db None EventTest snapshot now of
                     Inl e \<Rightarrow> (db, Inl (DeliveryError e))
                   | Inr (db1, d, _) \<Rightarrow>
                       (let db1' = others 0 db1
                        in case ClaimDeliveryByID db1' (dID d) token now ((enClock env 1 + 30 * second) div second) of
                             Inl e \<Rightarrow> (db1', Inl (DeliveryError e))
                           | Inr (db2, cl) \<Rightarrow>
                               (let result = send (enParseTime env) (enErrcode env) (enClock env 2) (enPost env (acDelivery cl) TestPayload) requestID;
                                    db2' = others 1 db2
                                in case completeAttempt db2' cl result (enClock env 3) (enClock env 4) of
                                     Inl e \<Rightarrow> (db2', Inl (DeliveryError e))
                                   | Inr db3 \<Rightarrow> (let db3' = others 2 db3 in (db3', test_report d result db3'))))))"

end
