(* ===== verification/Delivery_Properties.thy ===== *)
theory Delivery_Properties
  imports Alert_Delivery
begin

text \<open>
  Properties of the delivery queue: every row is queued, leased or finished and nothing in between; the
  repository refines a small protocol of leases; a takeover cuts off the earlier sender; resolved
  notifications wait for firing ones; and no delivery is stuck.
\<close>

section \<open>Well-formed rows\<close>

definition delivery_ok :: "AlertDelivery \<Rightarrow> bool" where
  "delivery_ok d \<longleftrightarrow> (dStatus d = DeliveryPending \<and> dClaimToken d = None \<and> dLeaseExpiresAt d = None \<and> dNextRetryAt d \<noteq> None
       \<and> 0 \<le> dAttemptCount d \<and> dAttemptCount d < 5)
   \<or> (dStatus d = DeliveryPending \<and> dClaimToken d \<noteq> None \<and> dLeaseExpiresAt d \<noteq> None \<and> dNextRetryAt d = None
       \<and> 1 \<le> dAttemptCount d \<and> dAttemptCount d \<le> 5)
   \<or> (dStatus d \<in> {DeliverySuccess, DeliveryFailed} \<and> dClaimToken d = None \<and> dLeaseExpiresAt d = None \<and> dNextRetryAt d = None
       \<and> 0 \<le> dAttemptCount d \<and> dAttemptCount d \<le> 5)"

definition store_ok :: "(string \<Rightarrow> json option) \<Rightarrow> delivery_store \<Rightarrow> bool" where
  "store_ok decode db \<longleftrightarrow> distinct (map dID (deliveries db)) \<and> 1 \<le> next_delivery_id db
     \<and> (\<forall>d \<in> set (deliveries db). 1 \<le> dID d \<and> dID d < next_delivery_id db \<and> delivery_ok d
          \<and> validAlertDeliverySnapshot decode (dPayloadSnapshot d))"

definition delivery_start :: "delivery_store \<Rightarrow> bool" where
  "delivery_start db \<longleftrightarrow> deliveries db = [] \<and> next_delivery_id db = 1"

text \<open>The transactions of the repository; \<open>fresh\<close> holds of the tokens that claims draw.\<close>

inductive delivery_step :: "(string \<Rightarrow> json option) \<Rightarrow> (string \<Rightarrow> bool) \<Rightarrow> delivery_store \<Rightarrow> delivery_store \<Rightarrow> bool"
  for decode fresh where
  enqueue: "EnqueueDelivery decode db event eventType payload now = Inr (db', d, dup) \<Longrightarrow> delivery_step decode fresh db db'"
| disable: "DisablePending db now = Inr (db', n) \<Longrightarrow> delivery_step decode fresh db db'"
| exhaust: "FailExhaustedLeases db now = Inr (db', n) \<Longrightarrow> delivery_step decode fresh db db'"
| claim: "claim_delivery db only token now leaseUntil = Inr (db', cl) \<Longrightarrow> fresh token \<Longrightarrow> delivery_step decode fresh db db'"
| complete: "completeAttempt db cl result a b = Inr db' \<Longrightarrow> delivery_step decode fresh db db'"

text \<open>A change of rows that keeps identity and payload.\<close>

definition row_change :: "(AlertDelivery \<Rightarrow> AlertDelivery) \<Rightarrow> bool" where
  "row_change f \<longleftrightarrow> (\<forall>d. dID (f d) = dID d \<and> dPayloadSnapshot (f d) = dPayloadSnapshot d)"

lemma update_store_ok:
  assumes "store_ok decode db" "row_change f" and "\<And>d. d \<in> set (deliveries db) \<Longrightarrow> P d \<Longrightarrow> delivery_ok d \<Longrightarrow> delivery_ok (f d)"
  shows "store_ok decode (update_deliveries P f db)"
proof -
  have "map dID (update_where P f (deliveries db)) = map dID (deliveries db)"
    by (rule map_update_where) (use assms(2) in \<open>simp add: row_change_def\<close>)
  then show ?thesis
    using assms unfolding store_ok_def update_deliveries_def
    by (auto simp: set_update_where row_change_def)
qed

lemma no_exhausted: "delivery_ok d \<Longrightarrow> \<not> exhausted now d"
  by (auto simp: delivery_ok_def exhausted_def)

lemma FailExhausted_same:
  assumes "store_ok decode db" "FailExhaustedLeases db now = Inr (db', n)"
  shows "db' = db \<and> n = 0"
proof -
  have none: "\<forall>d \<in> set (deliveries db). \<not> exhausted now d" using assms(1) no_exhausted by (auto simp: store_ok_def)
  then have "update_where (exhausted now) f (deliveries db) = deliveries db" for f
    unfolding update_where_def by (intro map_idI) simp
  moreover have "filter (exhausted now) (deliveries db) = []" using none by (simp add: filter_empty_conv)
  ultimately show ?thesis using assms(2) by (auto simp: FailExhaustedLeases_def update_deliveries_def split: if_split_asm)
qed

definition claim_attempt :: "AlertDelivery \<Rightarrow> int" where
  "claim_attempt d = (if dClaimToken d \<noteq> None then dAttemptCount d else dAttemptCount d + 1)"

lemma unique_row:
  assumes "distinct (map dID xs)" "d \<in> set xs" "P d" "\<And>r. P r \<Longrightarrow> dID r = dID d"
  shows "filter P xs = [d]"
  using assms(1,2)
proof (induction xs)
  case (Cons x xs)
  show ?case
  proof (cases "x = d")
    case True
    then have "\<forall>r \<in> set xs. \<not> P r" using Cons.prems(1) assms(4) by (metis distinct.simps(2) image_eqI list.set_map list.simps(9))
    then show ?thesis using True assms(3) by (simp add: filter_empty_conv)
  next
    case False
    then have d: "d \<in> set xs" using Cons.prems(2) by simp
    then have "dID x \<noteq> dID d" using Cons.prems(1) by auto
    then have "\<not> P x" using assms(4) by blast
    then show ?thesis using Cons d by simp
  qed
qed simp

lemma update_by_id:
  assumes "distinct (map dID (deliveries db))" "d \<in> set (deliveries db)" "P d" "\<And>r. P r \<Longrightarrow> dID r = dID d"
  shows "update_deliveries P f db = update_deliveries (\<lambda>r. dID r = dID d) f db"
proof -
  have "P r \<longleftrightarrow> dID r = dID d" if r: "r \<in> set (deliveries db)" for r
  proof
    assume "dID r = dID d"
    then have "r = d" using r assms(1,2) by (simp add: distinct_map inj_on_def)
    then show "P r" using assms(3) by simp
  qed (rule assms(4))
  then have "update_where P f (deliveries db) = update_where (\<lambda>r. dID r = dID d) f (deliveries db)"
    unfolding update_where_def by (intro map_cong refl) simp
  then show ?thesis by (simp add: update_deliveries_def)
qed

text \<open>The rows a claim chooses from, in their order.\<close>

definition candidates :: "delivery_store \<Rightarrow> int option \<Rightarrow> int \<Rightarrow> AlertDelivery list" where
  "candidates db only now = sort_key due_key (filter (\<lambda>d. due now d \<and> \<not> behind_firing db d
     \<and> (case only of None \<Rightarrow> True | Some i \<Rightarrow> dID d = i)) (deliveries db))"

lemma set_candidates:
  "d \<in> set (candidates db only now) \<longleftrightarrow> d \<in> set (deliveries db) \<and> due now d \<and> \<not> behind_firing db d
     \<and> (case only of None \<Rightarrow> True | Some i \<Rightarrow> dID d = i)"
  by (auto simp: candidates_def)

lemma claim_eq:
  assumes ok: "store_ok decode db" and now: "0 < now" "now < leaseUntil"
  shows "claim_delivery db only token now leaseUntil =
    (case candidates db only now of [] \<Rightarrow> Inl ErrAlertDeliveryUnavailable
     | d # _ \<Rightarrow> Inr (update_deliveries (\<lambda>r. dID r = dID d) (lease token leaseUntil now (claim_attempt d)) db,
         \<lparr>acDelivery = lease token leaseUntil now (claim_attempt d) d, acClaimToken = token,
          acLeaseExpiresAt = leaseUntil, acTakeover = (dClaimToken d \<noteq> None)\<rparr>))"
proof (cases "candidates db only now")
  case Nil
  then show ?thesis using now by (simp add: claim_delivery_def candidates_def [symmetric])
next
  case (Cons d ds)
  then have d: "d \<in> set (deliveries db)" "due now d" using set_candidates [of d db only now] by auto
  have ids: "distinct (map dID (deliveries db))" and "delivery_ok d" using ok d(1) by (auto simp: store_ok_def)
  then have r: "selected_row d d" "\<And>r. selected_row d r \<Longrightarrow> dID r = dID d"
    using d(2) by (auto simp: selected_row_def due_def delivery_ok_def)
  have "filter (selected_row d) (deliveries db) = [d]" by (rule unique_row [OF ids d(1)]) (fact r)+
  then have one: "length (filter (selected_row d) (deliveries db)) = 1" by simp
  have "update_deliveries (selected_row d) f db = update_deliveries (\<lambda>r. dID r = dID d) f db" for f
    by (rule update_by_id [OF ids d(1), of "selected_row d"]) (fact r)+
  then show ?thesis
    using Cons now one unfolding claim_delivery_def candidates_def [symmetric] by (simp add: Let_def claim_attempt_def del: not_None_eq)
qed

lemma claim_valid_now: "claim_delivery db only token now leaseUntil = Inr y \<Longrightarrow> 0 < now \<and> now < leaseUntil"
  by (auto simp: claim_delivery_def split: if_split_asm)

lemma claim_Inr:
  assumes "claim_delivery db only token now leaseUntil = Inr (db', cl)" "store_ok decode db"
  obtains d where "d \<in> set (deliveries db)" "due now d" "\<not> behind_firing db d"
    "\<And>e. e \<in> set (candidates db only now) \<Longrightarrow> due_key d \<le> due_key e"
    "db' = update_deliveries (\<lambda>r. dID r = dID d) (lease token leaseUntil now (claim_attempt d)) db"
    "cl = \<lparr>acDelivery = lease token leaseUntil now (claim_attempt d) d, acClaimToken = token,
       acLeaseExpiresAt = leaseUntil, acTakeover = (dClaimToken d \<noteq> None)\<rparr>"
proof -
  from claim_valid_now [OF assms(1)] claim_eq [OF assms(2)] assms(1)
  obtain d ds where c: "candidates db only now = d # ds"
    "db' = update_deliveries (\<lambda>r. dID r = dID d) (lease token leaseUntil now (claim_attempt d)) db"
    "cl = \<lparr>acDelivery = lease token leaseUntil now (claim_attempt d) d, acClaimToken = token,
       acLeaseExpiresAt = leaseUntil, acTakeover = (dClaimToken d \<noteq> None)\<rparr>"
    by (auto split: list.split_asm)
  have "sorted (map due_key (d # ds))" unfolding c(1) [symmetric] candidates_def by simp
  then have "due_key d \<le> due_key e" if "e \<in> set (candidates db only now)" for e using that c(1) by auto
  moreover have "d \<in> set (candidates db only now)" using c(1) by simp
  ultimately show thesis using that c(2,3) set_candidates by blast
qed

lemma lease_ok: "delivery_ok d \<Longrightarrow> due now d \<Longrightarrow> delivery_ok (lease token leaseUntil now (claim_attempt d) d)"
  by (auto simp: delivery_ok_def due_def lease_def claim_attempt_def)

lemma row_changes:
  "row_change (lease token leaseUntil now n)" "row_change (completed c)" "row_change (disabled now)"
  by (simp_all add: row_change_def lease_def completed_def disabled_def)

section \<open>Completion\<close>

lemma Complete_Inr:
  assumes "CompleteDelivery db c = Inr db'"
  shows "db' = update_deliveries (leased_by c) (completed c) db" "length (filter (leased_by c) (deliveries db)) = 1"
    "cpStatus c \<in> {DeliveryPending, DeliverySuccess, DeliveryFailed}"
    "cpStatus c = DeliveryPending \<longleftrightarrow> cpNextRetryAt c \<noteq> None" "0 < cpAttemptCount c"
  using assms by (auto simp: CompleteDelivery_def split: if_split_asm)

lemma attempt_completion_pending:
  "cpStatus (attempt_completion cl result m a b) = DeliveryPending \<Longrightarrow> cpAttemptCount (attempt_completion cl result m a b) < 5"
  by (auto simp: attempt_completion_def Let_def split: if_split_asm)

lemma completed_ok:
  assumes "CompleteDelivery db (attempt_completion cl result m a b) = Inr db'" "delivery_ok d"
    "leased_by (attempt_completion cl result m a b) d"
  shows "delivery_ok (completed (attempt_completion cl result m a b) d)"
proof -
  let ?c = "attempt_completion cl result m a b"
  have d: "1 \<le> dAttemptCount d" "dAttemptCount d \<le> 5" "dAttemptCount d = cpAttemptCount ?c"
    using assms(2,3) by (auto simp: delivery_ok_def leased_by_def)
  consider "cpStatus ?c = DeliveryPending" "cpNextRetryAt ?c \<noteq> None" | "cpStatus ?c \<in> {DeliverySuccess, DeliveryFailed}" "cpNextRetryAt ?c = None"
    using Complete_Inr(3,4) [OF assms(1)] by auto
  then show ?thesis
  proof cases
    case 1
    then show ?thesis using d attempt_completion_pending [of cl result m a b] by (simp add: delivery_ok_def completed_def)
  next
    case 2
    then show ?thesis using d by (simp add: delivery_ok_def completed_def)
  qed
qed

section \<open>Invariant\<close>

lemma enqueue_ok:
  assumes "EnqueueDelivery decode db event eventType payload now = Inr (db', d, dup)" "store_ok decode db"
  shows "store_ok decode db'"
proof (cases "find (same_delivery event eventType) (deliveries db)")
  case None
  have v: "validAlertDeliverySnapshot decode payload" and db: "deliveries db' = deliveries db @ [d]"
    "next_delivery_id db' = next_delivery_id db + 1" and d: "d = new_delivery db event eventType payload now"
    using assms(1) None by (auto simp: EnqueueDelivery_def split: if_split_asm)
  have "delivery_ok d" by (simp add: d new_delivery_def delivery_ok_def)
  moreover have "next_delivery_id db \<notin> dID ` set (deliveries db)" using assms(2) by (auto simp: store_ok_def)
  moreover have "dID d = next_delivery_id db" "dPayloadSnapshot d = payload" by (simp_all add: d new_delivery_def)
  ultimately show ?thesis using assms(2) v db by (auto simp: store_ok_def)
next
  case (Some e)
  then show ?thesis using assms by (auto simp: EnqueueDelivery_def split: if_split_asm)
qed

lemma delivery_step_ok: "delivery_step decode fresh db db' \<Longrightarrow> store_ok decode db \<Longrightarrow> store_ok decode db'"
proof (induction rule: delivery_step.induct)
  case (enqueue db event eventType payload now db' d dup)
  then show ?case using enqueue_ok by blast
next
  case (disable db now db' n)
  have "db' = update_deliveries (\<lambda>d. dStatus d = DeliveryPending) (disabled now) db"
    using disable(1) by (auto simp: DisablePending_def Let_def split: if_split_asm)
  moreover have "store_ok decode (update_deliveries (\<lambda>d. dStatus d = DeliveryPending) (disabled now) db)"
    by (rule update_store_ok [OF disable(2)]) (auto simp: row_changes disabled_def delivery_ok_def)
  ultimately show ?case by simp
next
  case (exhaust db now db' n)
  then show ?case using FailExhausted_same by blast
next
  case (claim db only token now leaseUntil db' cl)
  from claim(1,3) obtain d where d: "d \<in> set (deliveries db)" "due now d"
    "db' = update_deliveries (\<lambda>r. dID r = dID d) (lease token leaseUntil now (claim_attempt d)) db"
    by (rule claim_Inr) blast
  show ?case unfolding d(3)
  proof (rule update_store_ok [OF claim(3) row_changes(1)])
    fix r assume "r \<in> set (deliveries db)" "dID r = dID d" "delivery_ok r"
    moreover from this have "r = d" using claim(3) d(1) by (auto simp: store_ok_def distinct_map inj_on_def)
    ultimately show "delivery_ok (lease token leaseUntil now (claim_attempt d) r)" using lease_ok d(2) by simp
  qed
next
  case (complete db cl result a b db')
  let ?c = "attempt_completion cl result (truncateDeliveryMessage (arResponseMessage result)) a b"
  have c: "CompleteDelivery db ?c = Inr db'" using complete(1) by (simp add: completeAttempt_def)
  show ?case unfolding Complete_Inr(1) [OF c]
    by (rule update_store_ok [OF complete(2) row_changes(2)]) (rule completed_ok [OF c])
qed

interpretation delivery: invariant_system delivery_start "delivery_step decode fresh" "store_ok decode"
proof unfold_locales
  show "delivery_start db \<Longrightarrow> store_ok decode db" for db by (simp add: delivery_start_def store_ok_def)
  show "store_ok decode db \<Longrightarrow> delivery_step decode fresh db db' \<Longrightarrow> store_ok decode db'" for db db'
    by (rule delivery_step_ok)
qed

section \<open>The protocol of one delivery\<close>

text \<open>What a delivery is to its senders: queued with the attempts used, leased under a token, or finished.\<close>

datatype phase = Queued int | Leased string int | Delivered | GivenUp

inductive protocol_step :: "(string \<Rightarrow> bool) \<Rightarrow> phase option \<Rightarrow> phase option \<Rightarrow> bool" for fresh where
  insert: "protocol_step fresh None (Some (Queued 0))"
| first: "n < 5 \<Longrightarrow> fresh t \<Longrightarrow> protocol_step fresh (Some (Queued n)) (Some (Leased t (n + 1)))"
| takeover: "fresh t \<Longrightarrow> protocol_step fresh (Some (Leased t' n)) (Some (Leased t n))"
| retry: "n < 5 \<Longrightarrow> protocol_step fresh (Some (Leased t n)) (Some (Queued n))"
| success: "protocol_step fresh (Some (Leased t n)) (Some Delivered)"
| failure: "protocol_step fresh (Some (Leased t n)) (Some GivenUp)"
| withdraw: "protocol_step fresh (Some (Queued n)) (Some GivenUp)"

inductive_simps protocol_step_simps:
  "protocol_step fresh None q" "protocol_step fresh (Some (Queued n)) q" "protocol_step fresh (Some (Leased t n)) q"
  "protocol_step fresh (Some Delivered) q" "protocol_step fresh (Some GivenUp) q"

definition phase_of :: "AlertDelivery \<Rightarrow> phase" where
  "phase_of d = (if dStatus d = DeliveryPending
     then (case dClaimToken d of None \<Rightarrow> Queued (dAttemptCount d) | Some t \<Rightarrow> Leased t (dAttemptCount d))
     else if dStatus d = DeliverySuccess then Delivered else GivenUp)"

definition delivery_row :: "int \<Rightarrow> delivery_store \<Rightarrow> AlertDelivery option" where
  "delivery_row i db = find (\<lambda>d. dID d = i) (deliveries db)"

definition phase :: "int \<Rightarrow> delivery_store \<Rightarrow> phase option" where
  "phase i db = map_option phase_of (delivery_row i db)"

lemma delivery_row_Some: "delivery_row i db = Some d \<Longrightarrow> d \<in> set (deliveries db) \<and> dID d = i"
  by (auto simp: delivery_row_def find_Some_iff)

lemma delivery_row_update:
  assumes "row_change f"
  shows "delivery_row i (update_deliveries P f db) = map_option (\<lambda>d. if P d then f d else d) (delivery_row i db)"
proof -
  have "find (\<lambda>d. dID d = i) (update_where P f xs) = map_option (\<lambda>d. if P d then f d else d) (find (\<lambda>d. dID d = i) xs)" for xs
    using assms by (induction xs) (simp_all add: update_where_def row_change_def)
  then show ?thesis by (simp add: delivery_row_def update_deliveries_def)
qed

lemma phase_update:
  assumes "row_change f"
    and "\<And>d. delivery_row i db = Some d \<Longrightarrow> P d \<Longrightarrow> protocol_step fresh (Some (phase_of d)) (Some (phase_of (f d)))"
  shows "phase i (update_deliveries P f db) = phase i db \<or> protocol_step fresh (phase i db) (phase i (update_deliveries P f db))"
  using assms by (cases "delivery_row i db") (auto simp: phase_def delivery_row_update)

text \<open>A system whose steps each do at most one step of an abstract protocol.\<close>

locale simulation = invariant_system start step inv
  for start :: "'s \<Rightarrow> bool" and step :: "'s \<Rightarrow> 's \<Rightarrow> bool" and inv :: "'s \<Rightarrow> bool" +
  fixes abs :: "'s \<Rightarrow> 'a" and astep :: "'a \<Rightarrow> 'a \<Rightarrow> bool"
  assumes simulates: "inv s \<Longrightarrow> step s t \<Longrightarrow> abs t = abs s \<or> astep (abs s) (abs t)"
begin

lemma simulates_run: "step\<^sup>*\<^sup>* s t \<Longrightarrow> inv s \<Longrightarrow> astep\<^sup>*\<^sup>* (abs s) (abs t)"
proof (induction rule: rtranclp_induct)
  case (step t u)
  then have "inv t" using steps_inv by blast
  then show ?case using simulates [OF _ step(2)] step by (auto intro: rtranclp.rtrancl_into_rtrancl)
qed simp

lemma reachable_simulates: "start s0 \<Longrightarrow> step\<^sup>*\<^sup>* s0 s \<Longrightarrow> step\<^sup>*\<^sup>* s t \<Longrightarrow> astep\<^sup>*\<^sup>* (abs s) (abs t)"
  by (blast intro: simulates_run reachable_inv)

end

lemma claim_phase:
  assumes "claim_delivery db only token now leaseUntil = Inr (db', cl)" "store_ok decode db" "fresh token"
  shows "phase i db' = phase i db \<or> protocol_step fresh (phase i db) (phase i db')"
proof -
  from assms(1,2) obtain d where d: "d \<in> set (deliveries db)" "due now d"
    "db' = update_deliveries (\<lambda>r. dID r = dID d) (lease token leaseUntil now (claim_attempt d)) db"
    by (rule claim_Inr) blast
  show ?thesis unfolding d(3)
  proof (rule phase_update [OF row_changes(1)])
    fix r assume r: "delivery_row i db = Some r" "dID r = dID d"
    then have "r = d" using delivery_row_Some [OF r(1)] assms(2) d(1) by (auto simp: store_ok_def distinct_map inj_on_def)
    moreover have "phase_of (lease token leaseUntil now (claim_attempt d) d) = Leased token (claim_attempt d)"
      using d(2) by (simp add: phase_of_def lease_def due_def)
    moreover have "protocol_step fresh (Some (phase_of d)) (Some (Leased token (claim_attempt d)))"
      using d(2) assms(3) by (auto simp: phase_of_def due_def claim_attempt_def intro: protocol_step.intros)
    ultimately show "protocol_step fresh (Some (phase_of r)) (Some (phase_of (lease token leaseUntil now (claim_attempt d) r)))"
      by simp
  qed
qed

lemma complete_phase:
  assumes "completeAttempt db cl result a b = Inr db'"
  shows "phase i db' = phase i db \<or> protocol_step fresh (phase i db) (phase i db')"
proof -
  let ?c = "attempt_completion cl result (truncateDeliveryMessage (arResponseMessage result)) a b"
  have c: "CompleteDelivery db ?c = Inr db'" using assms by (simp add: completeAttempt_def)
  show ?thesis unfolding Complete_Inr(1) [OF c]
  proof (rule phase_update [OF row_changes(2)])
    fix d assume "leased_by ?c d"
    then have "phase_of d = Leased (cpClaimToken ?c) (cpAttemptCount ?c)" by (simp add: leased_by_def phase_of_def)
    moreover have "phase_of (completed ?c d) \<in> {Delivered, GivenUp}
        \<or> (phase_of (completed ?c d) = Queued (cpAttemptCount ?c) \<and> cpAttemptCount ?c < 5)"
      using Complete_Inr(3) [OF c] attempt_completion_pending [of cl result] \<open>leased_by ?c d\<close>
      by (auto simp: phase_of_def completed_def leased_by_def)
    ultimately show "protocol_step fresh (Some (phase_of d)) (Some (phase_of (completed ?c d)))"
      by (auto intro: protocol_step.intros)
  qed
qed

lemma disable_phase:
  assumes "DisablePending db now = Inr (db', n)"
  shows "phase i db' = phase i db \<or> protocol_step fresh (phase i db) (phase i db')"
proof -
  have "db' = update_deliveries (\<lambda>d. dStatus d = DeliveryPending) (disabled now) db"
    using assms by (auto simp: DisablePending_def Let_def split: if_split_asm)
  moreover have "protocol_step fresh (Some (phase_of d)) (Some (phase_of (disabled now d)))" if "dStatus d = DeliveryPending" for d
    using that by (auto simp: phase_of_def disabled_def split: option.split intro: protocol_step.intros)
  ultimately show ?thesis using phase_update [OF row_changes(3)] by simp
qed

lemma find_snoc: "find P (xs @ [x]) = (case find P xs of None \<Rightarrow> if P x then Some x else None | Some y \<Rightarrow> Some y)"
  by (induction xs) auto

lemma enqueue_phase:
  assumes "EnqueueDelivery decode db event eventType payload now = Inr (db', d, dup)"
  shows "phase i db' = phase i db \<or> protocol_step fresh (phase i db) (phase i db')"
proof (cases "find (same_delivery event eventType) (deliveries db)")
  case None
  then have db: "deliveries db' = deliveries db @ [new_delivery db event eventType payload now]"
    using assms by (auto simp: EnqueueDelivery_def split: if_split_asm)
  have "phase_of (new_delivery db event eventType payload now) = Queued 0" by (simp add: phase_of_def new_delivery_def)
  then show ?thesis
    by (cases "delivery_row i db") (auto simp: phase_def delivery_row_def db find_snoc protocol_step_simps)
next
  case (Some e)
  then show ?thesis using assms by (auto simp: EnqueueDelivery_def split: if_split_asm)
qed

interpretation delivery_protocol: simulation delivery_start "delivery_step decode fresh" "store_ok decode" "phase i" "protocol_step fresh"
proof unfold_locales
  fix db db' assume ok: "store_ok decode db" and "delivery_step decode fresh db db'"
  from this(2) show "phase i db' = phase i db \<or> protocol_step fresh (phase i db) (phase i db')"
  proof cases
    case (exhaust now n)
    have "db' = db" using FailExhausted_same [OF ok exhaust] by simp
    then show ?thesis by simp
  qed (rule enqueue_phase disable_phase complete_phase claim_phase [OF _ ok], assumption+)+
qed

section \<open>Leases\<close>

lemma delivery_row_member:
  assumes "store_ok decode db" "d \<in> set (deliveries db)"
  shows "delivery_row (dID d) db = Some d"
proof -
  obtain e where e: "delivery_row (dID d) db = Some e"
    using assms(2) by (cases "delivery_row (dID d) db") (auto simp: delivery_row_def find_None_iff)
  then have "e = d" using delivery_row_Some [OF e] assms by (auto simp: store_ok_def distinct_map inj_on_def)
  then show ?thesis using e by simp
qed

lemma complete_needs_lease:
  assumes "completeAttempt db cl result a b = Inr db'" "store_ok decode db"
  shows "\<exists>n. phase (dID (acDelivery cl)) db = Some (Leased (acClaimToken cl) n)"
proof -
  let ?c = "attempt_completion cl result (truncateDeliveryMessage (arResponseMessage result)) a b"
  have "CompleteDelivery db ?c = Inr db'" using assms(1) by (simp add: completeAttempt_def)
  from Complete_Inr(2) [OF this] have "filter (leased_by ?c) (deliveries db) \<noteq> []" by auto
  then obtain d where d: "d \<in> set (deliveries db)" "leased_by ?c d" by (auto simp: filter_empty_conv)
  have c: "cpDeliveryID ?c = dID (acDelivery cl)" "cpClaimToken ?c = acClaimToken cl"
    by (simp_all add: attempt_completion_def Let_def)
  have "dID d = dID (acDelivery cl)" using d(2) c(1) by (simp add: leased_by_def)
  then have "delivery_row (dID (acDelivery cl)) db = Some d" using delivery_row_member [OF assms(2) d(1)] by simp
  moreover have "phase_of d = Leased (acClaimToken cl) (dAttemptCount d)"
    using d(2) c(2) by (simp add: leased_by_def phase_of_def)
  ultimately show ?thesis by (simp add: phase_def)
qed

lemma claim_leases:
  assumes "claim_delivery db only token now leaseUntil = Inr (db', cl)" "store_ok decode db"
  shows "delivery_row (dID (acDelivery cl)) db' = Some (acDelivery cl)" "acClaimToken cl = token"
    "phase (dID (acDelivery cl)) db' = Some (Leased token (dAttemptCount (acDelivery cl)))"
proof -
  from assms obtain d where d: "d \<in> set (deliveries db)" "due now d"
    "db' = update_deliveries (\<lambda>r. dID r = dID d) (lease token leaseUntil now (claim_attempt d)) db"
    "cl = \<lparr>acDelivery = lease token leaseUntil now (claim_attempt d) d, acClaimToken = token,
       acLeaseExpiresAt = leaseUntil, acTakeover = (dClaimToken d \<noteq> None)\<rparr>"
    by (rule claim_Inr) blast
  have i: "dID (acDelivery cl) = dID d" by (simp add: d(4) lease_def)
  have "delivery_row (dID d) db' = Some (lease token leaseUntil now (claim_attempt d) d)"
    unfolding d(3) delivery_row_update [OF row_changes(1)] delivery_row_member [OF assms(2) d(1)] by simp
  then show row: "delivery_row (dID (acDelivery cl)) db' = Some (acDelivery cl)" by (simp add: i) (simp add: d(4))
  show "acClaimToken cl = token" by (simp add: d(4))
  have "phase_of (acDelivery cl) = Leased token (dAttemptCount (acDelivery cl))"
    using d(2) by (simp add: d(4) phase_of_def lease_def due_def)
  then show "phase (dID (acDelivery cl)) db' = Some (Leased token (dAttemptCount (acDelivery cl)))"
    by (simp add: phase_def row)
qed

lemma protocol_avoids:
  assumes "(protocol_step (\<lambda>t. t \<noteq> old))\<^sup>*\<^sup>* p q" "\<forall>n. p \<noteq> Some (Leased old n)"
  shows "q \<noteq> Some (Leased old n)"
  using assms by (induction arbitrary: n rule: rtranclp_induct) (auto elim: protocol_step.cases)

lemma protocol_finished:
  assumes "(protocol_step fresh)\<^sup>*\<^sup>* p q" "p \<in> {Some Delivered, Some GivenUp}"
  shows "q = p"
  using assms by (induction rule: rtranclp_induct) (auto simp: protocol_step_simps)

section \<open>Progress\<close>

fun phase_budget :: "phase \<Rightarrow> nat" where
  "phase_budget (Queued n) = nat (2 * (5 - n) + 1)"
| "phase_budget (Leased t n) = nat (2 * (5 - n) + 2)"
| "phase_budget _ = 0"

definition delivery_budget :: "delivery_store \<Rightarrow> nat" where
  "delivery_budget db = sum_list (map (\<lambda>d. phase_budget (phase_of d)) (deliveries db))"

lemma budget_update_le:
  assumes "\<And>d. d \<in> set (deliveries db) \<Longrightarrow> P d \<Longrightarrow> phase_budget (phase_of (f d)) \<le> phase_budget (phase_of d)"
  shows "delivery_budget (update_deliveries P f db) \<le> delivery_budget db"
  unfolding delivery_budget_def update_deliveries_def update_where_def using assms
  by (auto simp: comp_def intro!: sum_list_mono)

lemma sum_list_less:
  fixes g h :: "'a \<Rightarrow> nat"
  assumes "\<And>x. x \<in> set xs \<Longrightarrow> g x \<le> h x" "y \<in> set xs" "g y < h y"
  shows "sum_list (map g xs) < sum_list (map h xs)"
  using assms
proof (induction xs)
  case (Cons x xs)
  have le: "sum_list (map g xs) \<le> sum_list (map h xs)" using Cons.prems(1) by (intro sum_list_mono) simp
  show ?case
  proof (cases "y = x")
    case True
    then show ?thesis using le Cons.prems(3) by simp
  next
    case False
    then have "sum_list (map g xs) < sum_list (map h xs)" using Cons by simp
    moreover have "g x \<le> h x" using Cons.prems(1) by simp
    ultimately show ?thesis by simp
  qed
qed simp

lemma budget_update_less:
  assumes "\<And>d. d \<in> set (deliveries db) \<Longrightarrow> P d \<Longrightarrow> phase_budget (phase_of (f d)) < phase_budget (phase_of d)"
    and "filter P (deliveries db) \<noteq> []"
  shows "delivery_budget (update_deliveries P f db) < delivery_budget db"
proof -
  obtain d where d: "d \<in> set (deliveries db)" "P d" using assms(2) by (auto simp: filter_empty_conv)
  have "sum_list (map (\<lambda>d. phase_budget (phase_of (if P d then f d else d))) (deliveries db))
      < sum_list (map (\<lambda>d. phase_budget (phase_of d)) (deliveries db))"
    by (rule sum_list_less [OF _ d(1)]) (use assms(1) d in \<open>auto intro: less_imp_le\<close>)
  then show ?thesis by (simp add: delivery_budget_def update_deliveries_def update_where_def comp_def)
qed

lemma claim_budget:
  assumes "claim_delivery db only token now leaseUntil = Inr (db', cl)" "store_ok decode db"
  shows "delivery_budget db' \<le> delivery_budget db"
proof -
  from assms obtain d where d: "d \<in> set (deliveries db)" "due now d"
    "db' = update_deliveries (\<lambda>r. dID r = dID d) (lease token leaseUntil now (claim_attempt d)) db"
    by (rule claim_Inr) blast
  show ?thesis unfolding d(3)
  proof (rule budget_update_le)
    fix r assume r: "r \<in> set (deliveries db)" "dID r = dID d"
    then have "r = d" using assms(2) d(1) by (auto simp: store_ok_def distinct_map inj_on_def)
    then show "phase_budget (phase_of (lease token leaseUntil now (claim_attempt d) r)) \<le> phase_budget (phase_of r)"
      using d(2) by (auto simp: phase_of_def due_def lease_def claim_attempt_def)
  qed
qed

lemma complete_budget:
  assumes "completeAttempt db cl result a b = Inr db'" "store_ok decode db"
  shows "delivery_budget db' < delivery_budget db"
proof -
  let ?c = "attempt_completion cl result (truncateDeliveryMessage (arResponseMessage result)) a b"
  have c: "CompleteDelivery db ?c = Inr db'" using assms(1) by (simp add: completeAttempt_def)
  show ?thesis unfolding Complete_Inr(1) [OF c]
  proof (rule budget_update_less)
    show "filter (leased_by ?c) (deliveries db) \<noteq> []" using Complete_Inr(2) [OF c] by auto
    fix d assume d: "d \<in> set (deliveries db)" "leased_by ?c d"
    then have "delivery_ok d" using assms(2) by (simp add: store_ok_def)
    then have "dAttemptCount d \<le> 5" by (auto simp: delivery_ok_def)
    then show "phase_budget (phase_of (completed ?c d)) < phase_budget (phase_of d)"
      using d(2) Complete_Inr(3) [OF c] by (auto simp: phase_of_def leased_by_def completed_def)
  qed
qed

lemma disable_budget:
  assumes "DisablePending db now = Inr (db', n)" "0 < n" "store_ok decode db"
  shows "delivery_budget db' < delivery_budget db"
proof -
  have db: "db' = update_deliveries (\<lambda>d. dStatus d = DeliveryPending) (disabled now) db"
    "n = length (filter (\<lambda>d. dStatus d = DeliveryPending) (deliveries db))"
    using assms(1) by (auto simp: DisablePending_def split: if_split_asm)
  show ?thesis unfolding db(1)
  proof (rule budget_update_less)
    show "filter (\<lambda>d. dStatus d = DeliveryPending) (deliveries db) \<noteq> []" using assms(2) db(2) by auto
    fix d assume d: "d \<in> set (deliveries db)" "dStatus d = DeliveryPending"
    then have "delivery_ok d" using assms(3) by (simp add: store_ok_def)
    then have "dAttemptCount d \<le> 5" by (auto simp: delivery_ok_def)
    then show "phase_budget (phase_of (disabled now d)) < phase_budget (phase_of d)"
      using d(2) by (auto simp: phase_of_def disabled_def split: option.split)
  qed
qed

section \<open>Reachable queues\<close>

abbreviation delivery_reachable :: "(string \<Rightarrow> json option) \<Rightarrow> delivery_store \<Rightarrow> bool" where
  "delivery_reachable decode db \<equiv> (delivery_step decode (\<lambda>_. True))\<^sup>*\<^sup>* \<lparr>deliveries = [], next_delivery_id = 1\<rparr> db"

lemma empty_start: "delivery_start \<lparr>deliveries = [], next_delivery_id = 1\<rparr>"
  by (simp add: delivery_start_def)

lemmas reachable_deliveries = delivery.reachable_inv [OF empty_start]

lemma delivery_step_mono: "delivery_step decode f db db' \<Longrightarrow> (\<And>t. f t \<Longrightarrow> g t) \<Longrightarrow> delivery_step decode g db db'"
  by (induction rule: delivery_step.induct) (auto intro: delivery_step.intros)

text \<open>
  C27. In every reachable queue the rows are well formed: identifiers are unique, every stored snapshot is a
  JSON document without a sensitive key, a pending row is either queued with a due time and fewer than five
  attempts or leased with a token and a deadline, and a finished row keeps neither. So no row is ever
  what the clean-up of exhausted leases looks for, and it changes nothing.
\<close>

theorem delivery_rows_well_formed:
  assumes "delivery_reachable decode db"
  shows "store_ok decode db \<and> (0 < now \<longrightarrow> FailExhaustedLeases db now = Inr (db, 0))"
proof -
  have ok: "store_ok decode db" using reachable_deliveries [OF assms] .
  show ?thesis
  proof (intro conjI impI)
    assume "0 < now"
    then obtain db' n where f: "FailExhaustedLeases db now = Inr (db', n)" by (simp add: FailExhaustedLeases_def)
    then show "FailExhaustedLeases db now = Inr (db, 0)" using FailExhausted_same [OF ok f] by simp
  qed (rule ok)
qed


text \<open>
  C29. A takeover cuts off the earlier sender: once a delivery has been claimed with another token, no completion
  under the old token is accepted in any later state, whatever else happens, and whether or not the new
  sender has finished.
\<close>

theorem takeover_fences_sender:
  assumes "delivery_reachable decode db" and "claim_delivery db only token now leaseUntil = Inr (db1, cl)"
    and "dID (acDelivery cl) = dID (acDelivery old)" and "token \<noteq> acClaimToken old"
    and "(delivery_step decode (\<lambda>t. t \<noteq> acClaimToken old))\<^sup>*\<^sup>* db1 db2"
  shows "completeAttempt db2 old result a b \<noteq> Inr db3"
proof
  assume fin: "completeAttempt db2 old result a b = Inr db3"
  let ?i = "dID (acDelivery old)"
  have ok: "store_ok decode db" using reachable_deliveries [OF assms(1)] .
  have ok1: "store_ok decode db1" using delivery_step_ok [OF delivery_step.claim [OF assms(2)] ok] by blast
  have "phase ?i db1 = Some (Leased token (dAttemptCount (acDelivery cl)))"
    using claim_leases(3) [OF assms(2) ok] assms(3) by simp
  then have "phase ?i db2 \<noteq> Some (Leased (acClaimToken old) n)" for n
    using protocol_avoids [OF delivery_protocol.simulates_run [OF assms(5) ok1]] assms(4) by simp
  moreover have "store_ok decode db2" using delivery.steps_inv [OF assms(5) ok1] .
  ultimately show False using complete_needs_lease [OF fin] by blast
qed

text \<open>
  C30. A notification that an alert is resolved is claimed only when no firing notification of the same event is
  still pending, and every claim takes a due delivery that has waited longest.
\<close>

theorem resolved_after_firing:
  assumes "delivery_reachable decode db" and "ClaimNextDelivery db token now leaseUntil = Inr (db', cl)"
  shows "(dEventType (acDelivery cl) = EventResolved \<longrightarrow>
      (\<forall>f \<in> set (deliveries db). dAlertEventID f = dAlertEventID (acDelivery cl) \<and> dAlertEventID f \<noteq> None
         \<and> dEventType f = EventFiring \<and> dChannel f = dChannel (acDelivery cl) \<longrightarrow> dStatus f \<noteq> DeliveryPending))
    \<and> (\<exists>d \<in> set (deliveries db). dID d = dID (acDelivery cl) \<and> due now d
         \<and> (\<forall>e \<in> set (deliveries db). due now e \<and> \<not> behind_firing db e \<longrightarrow> due_key d \<le> due_key e))"
proof -
  from claim_Inr [OF assms(2) [unfolded ClaimNextDelivery_def] reachable_deliveries [OF assms(1)]]
  obtain d where d: "d \<in> set (deliveries db)" "due now d" "\<not> behind_firing db d"
    "\<And>e. e \<in> set (candidates db None now) \<Longrightarrow> due_key d \<le> due_key e"
    "acDelivery cl = lease token leaseUntil now (claim_attempt d) d" by (metis AlertDeliveryClaim.select_convs(1))
  then have same: "dID (acDelivery cl) = dID d" "dEventType (acDelivery cl) = dEventType d"
    "dAlertEventID (acDelivery cl) = dAlertEventID d" "dChannel (acDelivery cl) = dChannel d" by (simp_all add: lease_def)
  show ?thesis
  proof (intro conjI)
    show "dEventType (acDelivery cl) = EventResolved \<longrightarrow>
      (\<forall>f \<in> set (deliveries db). dAlertEventID f = dAlertEventID (acDelivery cl) \<and> dAlertEventID f \<noteq> None
         \<and> dEventType f = EventFiring \<and> dChannel f = dChannel (acDelivery cl) \<longrightarrow> dStatus f \<noteq> DeliveryPending)"
      unfolding same using d(3) unfolding behind_firing_def list_ex_iff by blast
    show "\<exists>d \<in> set (deliveries db). dID d = dID (acDelivery cl) \<and> due now d
         \<and> (\<forall>e \<in> set (deliveries db). due now e \<and> \<not> behind_firing db e \<longrightarrow> due_key d \<le> due_key e)"
      using d(1,2,4) same(1) by (intro bexI [of _ d]) (auto simp: set_candidates)
  qed
qed

definition claimable_from :: "delivery_store \<Rightarrow> AlertDelivery \<Rightarrow> int \<Rightarrow> bool" where
  "claimable_from db f time \<longleftrightarrow> (\<forall>now leaseUntil token. time \<le> now \<and> 0 < now \<and> now < leaseUntil \<longrightarrow>
     (\<exists>db' cl. ClaimDeliveryByID db (dID f) token now leaseUntil = Inr (db', cl) \<and> dID (acDelivery cl) = dID f))"

lemma claimable_unblocked:
  assumes "store_ok decode db" "f \<in> set (deliveries db)" "dStatus f = DeliveryPending" "\<not> behind_firing db f"
  shows "claimable_from db f (fst (due_key f))"
  unfolding claimable_from_def
proof (intro allI impI)
  fix now leaseUntil token assume t: "fst (due_key f) \<le> now \<and> 0 < now \<and> now < (leaseUntil :: int)"
  have ok: "delivery_ok f" "0 < dID f" using assms(1,2) by (auto simp: store_ok_def)
  then have "due now f" using t assms(3) by (auto simp: due_key_def due_def delivery_ok_def)
  then have "f \<in> set (candidates db (Some (dID f)) now)" using assms(2,4) by (simp add: set_candidates)
  then obtain d ds where c: "candidates db (Some (dID f)) now = d # ds" by (cases "candidates db (Some (dID f)) now") auto
  then have "dID d = dID f" using set_candidates [of d db "Some (dID f)" now] by simp
  then show "\<exists>db' cl. ClaimDeliveryByID db (dID f) token now leaseUntil = Inr (db', cl) \<and> dID (acDelivery cl) = dID f"
    using claim_eq [OF assms(1)] t c ok(2) by (simp add: ClaimDeliveryByID_def lease_def)
qed

text \<open>
  C31. No delivery is stuck: a pending delivery can be claimed from its due time on, or a firing notification
  of the same event stands before it and can be claimed from its own.
\<close>

theorem no_delivery_stuck:
  assumes "delivery_reachable decode db" and "d \<in> set (deliveries db)" and "dStatus d = DeliveryPending"
  shows "\<exists>f \<in> set (deliveries db). claimable_from db f (fst (due_key f))
    \<and> (f = d \<or> (dEventType d = EventResolved \<and> dEventType f = EventFiring \<and> dAlertEventID f = dAlertEventID d))"
proof (cases "behind_firing db d")
  case True
  then obtain f where f: "f \<in> set (deliveries db)" "dEventType d = EventResolved" "dEventType f = EventFiring"
    "dAlertEventID f = dAlertEventID d" "dStatus f = DeliveryPending" unfolding behind_firing_def list_ex_iff by blast
  then have "\<not> behind_firing db f" by (simp add: behind_firing_def)
  then show ?thesis using claimable_unblocked [OF reachable_deliveries [OF assms(1)] f(1) f(5)] f by blast
next
  case False
  then show ?thesis using claimable_unblocked [OF reachable_deliveries [OF assms(1)] assms(2,3)] assms(2) by blast
qed

text \<open>
  C32. Every round of the delivery loop that reports work done lowers the budget of the queue, eleven for a
  new delivery, so the loop reaches a pause after at most that many rounds when nothing is added.
\<close>

theorem delivery_rounds_bounded:
  assumes "delivery_reachable decode db" and "ProcessNext env preflight requestID token db = (db', Inr True)"
  shows "delivery_budget db' < delivery_budget db"
proof (cases "preflight = Some NotificationDisabled")
  case True
  then obtain n where "DisablePending db (enClock env 0 div second) = Inr (db', n)" "0 < n"
    using assms(2) by (auto simp: ProcessNext_def Let_def split: sum.split_asm prod.split_asm)
  then show ?thesis using disable_budget reachable_deliveries [OF assms(1)] by blast
next
  case False
  have ok: "store_ok decode db" using reachable_deliveries [OF assms(1)] .
  obtain db1 n where f: "FailExhaustedLeases db (enClock env 0 div second) = Inr (db1, n)"
    using False assms(2) by (auto simp: ProcessNext_def Let_def split: sum.split_asm)
  have "db1 = db" using FailExhausted_same [OF ok f] by simp
  with False assms(2) f obtain db2 cl result where
    c: "claim_delivery db None token (enClock env 0 div second) ((enClock env 1 + 30 * second) div second) = Inr (db2, cl)"
    and r: "completeAttempt db2 cl result (enClock env 3) (enClock env 4) = Inr db'"
    by (auto simp: ProcessNext_def ClaimNextDelivery_def Let_def split: sum.split_asm option.split_asm if_split_asm prod.split_asm)
  have "store_ok decode db2" using delivery_step_ok [OF delivery_step.claim [OF c, of "\<lambda>_. True"] ok] by simp
  then show ?thesis using claim_budget [OF c ok] complete_budget [OF r] by fastforce
qed

lemma retry_after_bounds:
  assumes "parseDingTalkRetryAfter ParseTime raw now = (after, present)"
  shows "0 \<le> after \<and> after \<le> retry_after_maximum"
proof -
  have "0 \<le> fst (parseDingTalkRetryAfter ParseTime raw now) \<and> fst (parseDingTalkRetryAfter ParseTime raw now) \<le> retry_after_maximum"
    unfolding parseDingTalkRetryAfter_def Let_def by (simp add: retry_after_maximum_def second_def split: option.split)
  then show ?thesis by (simp add: assms)
qed

lemma send_retry_nonneg: "0 \<le> arRetryAfter (send ParseTime errcode now answer requestID)"
proof -
  have "0 \<le> fst (parseDingTalkRetryAfter ParseTime h now)" for h
    using retry_after_bounds by (metis prod.collapse)
  then show ?thesis
    by (auto simp: send_def send_result_def rejected_def Let_def split_def split: http_answer.split option.split)
qed

lemma retry_delay_bounds: "0 < dingTalkRetryDelay n \<and> dingTalkRetryDelay n \<le> retry_after_maximum"
  by (simp add: dingTalkRetryDelay_def retry_after_maximum_def second_def)

lemma completion_shape:
  fixes cl result m a b
  defines "c \<equiv> attempt_completion cl result m a b"
  shows "cpDeliveryID c = dID (acDelivery cl)" "cpAttemptCount c = dAttemptCount (acDelivery cl)"
    "cpClaimToken c = acClaimToken cl" "cpNow c = a div second" "cpStatus c \<in> {DeliveryPending, DeliverySuccess, DeliveryFailed}"
    "cpStatus c = DeliveryPending \<longleftrightarrow> cpNextRetryAt c \<noteq> None" "cpStatus c = DeliverySuccess \<longleftrightarrow> arSuccess result"
    "cpStatus c = DeliveryPending \<longleftrightarrow> \<not> arSuccess result \<and> arRetryable result \<and> dAttemptCount (acDelivery cl) < 5"
  unfolding c_def attempt_completion_def Let_def by simp_all

lemma completion_retry:
  assumes "cpNextRetryAt (attempt_completion cl result m a b) = Some r" "0 \<le> arRetryAfter result"
  shows "b div second \<le> r \<and> r \<le> b div second + 3600"
proof -
  define delay where "delay = (if arHasRetryAfter result
    then (if arRetryAfter result > retry_after_maximum then retry_after_maximum else arRetryAfter result)
    else dingTalkRetryDelay (dAttemptCount (acDelivery cl)))"
  have "0 \<le> retry_after_maximum" by (simp add: retry_after_maximum_def second_def)
  then have delay: "0 \<le> delay" "delay \<le> retry_after_maximum" "r = (b + delay) div second"
    using assms retry_delay_bounds [of "dAttemptCount (acDelivery cl)"] unfolding delay_def
    by (auto simp: attempt_completion_def Let_def split: if_split_asm)
  have "b div second \<le> (b + delay) div second" using delay(1) by (intro zdiv_mono1) (simp_all add: second_def)
  moreover have "(b + delay) div second \<le> (b + 3600 * second) div second"
    using delay(2) by (intro zdiv_mono1) (simp_all add: second_def retry_after_maximum_def)
  moreover have "(b + 3600 * second) div second = b div second + 3600" by (simp add: second_def)
  ultimately show ?thesis using delay(3) by simp
qed

lemma claimed_completion:
  assumes "claim_delivery db only token now leaseUntil = Inr (db1, cl)" "store_ok decode db" "token \<noteq> []" "second \<le> a"
  shows "\<exists>db2. completeAttempt db1 cl result a b = Inr db2 \<and> delivery_row (dID (acDelivery cl)) db2
    = Some (completed (attempt_completion cl result (truncateDeliveryMessage (arResponseMessage result)) a b) (acDelivery cl))"
proof -
  let ?c = "attempt_completion cl result (truncateDeliveryMessage (arResponseMessage result)) a b"
  note c = completion_shape [of cl result "truncateDeliveryMessage (arResponseMessage result)" a b]
  have ok1: "store_ok decode db1" using delivery_step_ok [OF delivery_step.claim [OF assms(1), of "\<lambda>_. True"] assms(2)] by simp
  note row = claim_leases [OF assms(1,2)]
  have mem: "acDelivery cl \<in> set (deliveries db1)" using delivery_row_Some [OF row(1)] by simp
  have "0 < a div second" using assms(4) by (simp add: second_def pos_imp_zdiv_pos_iff)
  have held: "phase_of (acDelivery cl) = Leased token (dAttemptCount (acDelivery cl))" using row by (simp add: phase_def)
  then have st: "dStatus (acDelivery cl) = DeliveryPending" "dClaimToken (acDelivery cl) = Some token"
    by (auto simp: phase_of_def split: if_split_asm option.split_asm)
  have lb: "leased_by ?c (acDelivery cl)" "\<And>r. leased_by ?c r \<Longrightarrow> dID r = dID (acDelivery cl)"
    using c st row(2) by (simp_all add: leased_by_def)
  have "filter (leased_by ?c) (deliveries db1) = [acDelivery cl]"
    by (rule unique_row [OF _ mem]) (use ok1 in \<open>simp add: store_ok_def\<close>, fact lb, fact lb)
  then have one: "length (filter (leased_by ?c) (deliveries db1)) = 1" by simp
  have ok: "delivery_ok (acDelivery cl)" "0 < dID (acDelivery cl)" using ok1 mem by (auto simp: store_ok_def)
  then have "0 < dAttemptCount (acDelivery cl)" using st by (auto simp: delivery_ok_def)
  then have "CompleteDelivery db1 ?c = Inr (update_deliveries (leased_by ?c) (completed ?c) db1)"
    using c row(2) assms(3) ok(2) one \<open>0 < a div second\<close> by (auto simp: CompleteDelivery_def)
  then show ?thesis using lb(1) row(1) by (simp add: completeAttempt_def delivery_row_update [OF row_changes(2)])
qed

text \<open>
  C33. The outcome of an attempt is always accepted while the lease is held, it is recorded as the answer
  says, and a retry is due at most an hour after the attempt, whatever the remote side puts in \<^verbatim>\<open>Retry-After\<close>.
\<close>

theorem attempt_outcome_recorded:
  assumes "delivery_reachable decode db" and "claim_delivery db only token now leaseUntil = Inr (db1, cl)"
    and "token \<noteq> []" and "second \<le> a" and "result = send ParseTime errcode t answer rid"
  shows "\<exists>db2 d. completeAttempt db1 cl result a b = Inr db2 \<and> delivery_row (dID (acDelivery cl)) db2 = Some d
    \<and> (dStatus d = DeliverySuccess \<longleftrightarrow> arSuccess result)
    \<and> (dStatus d = DeliveryPending \<longleftrightarrow> \<not> arSuccess result \<and> arRetryable result \<and> dAttemptCount (acDelivery cl) < 5)
    \<and> (dStatus d = DeliveryPending \<longrightarrow> (\<exists>r. dNextRetryAt d = Some r \<and> b div second \<le> r \<and> r \<le> b div second + 3600))"
proof -
  let ?c = "attempt_completion cl result (truncateDeliveryMessage (arResponseMessage result)) a b"
  note c = completion_shape [of cl result "truncateDeliveryMessage (arResponseMessage result)" a b]
  from claimed_completion [OF assms(2) reachable_deliveries [OF assms(1)] assms(3,4)]
  obtain db2 where db2: "completeAttempt db1 cl result a b = Inr db2" "delivery_row (dID (acDelivery cl)) db2 = Some (completed ?c (acDelivery cl))"
    by blast
  have "dStatus (completed ?c (acDelivery cl)) = cpStatus ?c" "dNextRetryAt (completed ?c (acDelivery cl)) = cpNextRetryAt ?c"
    by (simp_all add: completed_def)
  moreover have "0 \<le> arRetryAfter result" using send_retry_nonneg assms(5) by simp
  ultimately show ?thesis using db2 c(6-8) completion_retry [of cl result _ a b] by fastforce
qed

section \<open>Test notifications\<close>

lemma send_failure_code:
  assumes "\<not> arSuccess (send ParseTime errcode now answer rid)" "\<not> arRetryable (send ParseTime errcode now answer rid)"
  shows "arErrorCode (send ParseTime errcode now answer rid) \<in> {NotificationNotConfigured, DingTalkAddressForbidden}
    \<or> (arErrorCode (send ParseTime errcode now answer rid) = DingTalkRejected \<and> arErrCode (send ParseTime errcode now answer rid) \<noteq> [])"
  using assms unfolding send_def
  by (cases answer) (auto simp: send_result_def rejected_def Let_def split_def split: option.split if_split)

lemma test_report_total:
  assumes row: "delivery_row (dID d) db = Some (completed (attempt_completion cl r m a b) e)" and "0 \<le> arRetryAfter r"
    and code: "\<not> arSuccess r \<Longrightarrow> \<not> arRetryable r \<Longrightarrow> arErrorCode r \<in> {NotificationNotConfigured, DingTalkAddressForbidden}
      \<or> (arErrorCode r = DingTalkRejected \<and> arErrCode r \<noteq> [])" and b: "0 \<le> b"
  shows "\<exists>report. test_report d r db = Inr report"
proof (cases "arSuccess r")
  case True
  then show ?thesis by (simp add: test_report_def Let_def notificationMessage_def)
next
  case False
  let ?c = "attempt_completion cl r m a b"
  note c = completion_shape [of cl r m a b]
  have f: "find (\<lambda>x. dID x = dID d) (deliveries db) = Some (completed ?c e)" using row by (simp add: delivery_row_def)
  have k: "dStatus (completed ?c e) = cpStatus ?c" "dNextRetryAt (completed ?c e) = cpNextRetryAt ?c"
    "dErrorCode (completed ?c e) = cpErrorCode ?c" by (simp_all add: completed_def)
  show ?thesis
  proof (cases "cpStatus ?c = DeliveryPending")
    case True
    then obtain n where n: "cpNextRetryAt ?c = Some n" using c(6) by auto
    have "0 \<le> b div second" using b by (simp add: second_def)
    then have "0 \<le> n" using completion_retry [OF n assms(2)] by simp
    then show ?thesis using False f k True n by (simp add: test_report_def Let_def notificationMessage_def)
  next
    case fin: False
    have "cpErrorCode ?c \<in> {DeliveryRetryExhausted, NotificationNotConfigured, DingTalkAddressForbidden}
        \<or> (cpErrorCode ?c = DingTalkRejected \<and> arErrCode r \<noteq> [])"
      using False fin c(8) code by (auto simp: attempt_completion_def Let_def split: if_split_asm)
    then show ?thesis using False f k fin by (auto simp: test_report_def Let_def notificationMessage_def)
  qed
qed

lemma test_claim:
  assumes ok: "store_ok decode db" and "validAlertDeliverySnapshot decode snapshot" "0 < now" "now < leaseUntil"
  shows "\<exists>db1 d dup db2 cl. EnqueueDelivery decode db None EventTest snapshot now = Inr (db1, d, dup) \<and> store_ok decode db1
    \<and> claim_delivery db1 (Some (dID d)) token now leaseUntil = Inr (db2, cl) \<and> 0 < dID d \<and> dID (acDelivery cl) = dID d"
proof -
  define d where "d = new_delivery db None EventTest snapshot now"
  define db1 where "db1 = db\<lparr>deliveries := deliveries db @ [d], next_delivery_id := next_delivery_id db + 1\<rparr>"
  have "find (same_delivery None EventTest) (deliveries db) = None" by (simp add: find_None_iff same_delivery_def)
  then have e: "EnqueueDelivery decode db None EventTest snapshot now = Inr (db1, d, False)"
    using assms(2,3) by (simp add: EnqueueDelivery_def d_def db1_def)
  have ok1: "store_ok decode db1" using enqueue_ok [OF e ok] .
  have d: "d \<in> set (deliveries db1)" "dStatus d = DeliveryPending" "\<not> behind_firing db1 d" "fst (due_key d) = now"
    by (simp_all add: db1_def) (simp_all add: d_def new_delivery_def behind_firing_def due_key_def)
  have "0 < dID d" using ok by (simp add: d_def new_delivery_def store_ok_def)
  moreover obtain db2 cl where "ClaimDeliveryByID db1 (dID d) token now leaseUntil = Inr (db2, cl)" "dID (acDelivery cl) = dID d"
    using claimable_unblocked [OF ok1 d(1-3)] assms(3,4) d(4) unfolding claimable_from_def by (metis order_refl)
  ultimately show ?thesis using e ok1 by (auto simp: ClaimDeliveryByID_def)
qed

text \<open>
  A test notification that no other transaction disturbs always ends with a report: every outcome of the
  attempt has a message with the parameters that its code requires.
\<close>

theorem test_notification_reports:
  assumes "delivery_reachable decode db" and "validDingTalkRequestID rid" and "token \<noteq> []"
    and "preflight \<in> {None, Some NotificationDisabled, Some NotificationNotConfigured, Some DingTalkAddressForbidden}"
    and "validAlertDeliverySnapshot decode snapshot" and "second \<le> enClock env 0" and "enClock env 0 \<le> enClock env 1"
    and "second \<le> enClock env 3" and "0 \<le> enClock env 4"
  shows "\<exists>db' report. TestNotification decode env preflight rid token snapshot (\<lambda>_ db. db) db = (db', Inr report)"
proof (cases preflight)
  case (Some code)
  then show ?thesis using assms(2,4) by (auto simp: TestNotification_def notificationMessage_def)
next
  case None
  let ?now = "enClock env 0 div second" and ?until = "(enClock env 1 + 30 * second) div second"
  have now: "0 < ?now" using assms(6) by (simp add: second_def pos_imp_zdiv_pos_iff)
  have until: "?now < ?until" using assms(7) by (simp add: second_def)
  from test_claim [OF reachable_deliveries [OF assms(1)] assms(5) now until, of token]
  obtain db1 d dup db2 cl where e: "EnqueueDelivery decode db None EventTest snapshot ?now = Inr (db1, d, dup)"
    and ok1: "store_ok decode db1" and cl: "claim_delivery db1 (Some (dID d)) token ?now ?until = Inr (db2, cl)"
    and i: "0 < dID d" "dID (acDelivery cl) = dID d" by blast
  let ?r = "send (enParseTime env) (enErrcode env) (enClock env 2) (enPost env (acDelivery cl) TestPayload) rid"
  from claimed_completion [OF cl ok1 assms(3,8), of ?r "enClock env 4"]
  obtain db3 where db3: "completeAttempt db2 cl ?r (enClock env 3) (enClock env 4) = Inr db3"
    and row: "delivery_row (dID d) db3 = Some (completed (attempt_completion cl ?r (truncateDeliveryMessage (arResponseMessage ?r))
      (enClock env 3) (enClock env 4)) (acDelivery cl))" unfolding i(2) by blast
  obtain report where "test_report d ?r db3 = Inr report"
    using test_report_total [OF row send_retry_nonneg send_failure_code assms(9)] by blast
  then show ?thesis using None assms(2) e cl i db3 by (simp add: TestNotification_def ClaimDeliveryByID_def Let_def)
qed

text \<open>
  The delivery loop may claim a test notification between its insertion and the test's own claim: the message
  is then sent and recorded as delivered, yet the test fails with the error that no delivery is available.
\<close>

definition sample_json :: "string \<Rightarrow> json option" where
  "sample_json text = (if text = ''bad'' then None else Some (JObject [(''version'', JScalar)]))"

definition sample_env :: "int \<Rightarrow> http_answer \<Rightarrow> delivery_env" where
  "sample_env t answer = \<lparr>enParseTime = (\<lambda>_. None), enErrcode = (\<lambda>_. Some ''0''),
     enSnapshot = (\<lambda>_. Some \<lparr>snVersion = 1, snKind = ''test'', snAlertEventID = [], snEventType = []\<rparr>),
     enPost = (\<lambda>_ _. answer), enClock = (\<lambda>n. t * second)\<rparr>"

theorem test_notification_race:
  "(case TestNotification sample_json (sample_env 100 (Answer 200 [] (Some ''body''))) None ''req-1'' ''t1'' ''test''
      (\<lambda>n db. if n = 0 then fst (ProcessNext (sample_env 100 (Answer 200 [] (Some ''body''))) None (Some ''req-2'') ''t2'' db) else db)
      \<lparr>deliveries = [], next_delivery_id = 1\<rparr> of (db, r) \<Rightarrow>
     r = Inl (DeliveryError ErrAlertDeliveryUnavailable) \<and> phase 1 db = Some Delivered)"
  by code_simp

section \<open>A sample history\<close>

definition sample_row :: "int \<Rightarrow> string \<Rightarrow> int \<Rightarrow> AlertDelivery" where
  "sample_row i t now = \<lparr>dID = i, dAlertEventID = Some 7, dEventType = t, dChannel = ChannelDingTalk, dStatus = DeliveryPending,
     dAttemptCount = 0, dClaimToken = None, dLeaseExpiresAt = None, dPayloadSnapshot = ''{}'', dErrorCode = [], dResponseCode = None,
     dResponseMessage = None, dNextRetryAt = Some now, dSentAt = None, dCreatedAt = now, dUpdatedAt = now\<rparr>"

definition sample_lease :: "string \<Rightarrow> int \<Rightarrow> int \<Rightarrow> AlertDelivery" where
  "sample_lease token now leaseUntil = (sample_row 1 EventFiring 100)\<lparr>dAttemptCount := 1, dClaimToken := Some token,
     dLeaseExpiresAt := Some leaseUntil, dNextRetryAt := None, dUpdatedAt := now\<rparr>"

definition sample_queue_1 :: delivery_store where
  "sample_queue_1 = \<lparr>deliveries = [sample_row 1 EventFiring 100], next_delivery_id = 2\<rparr>"

definition sample_queue_2 :: delivery_store where
  "sample_queue_2 = \<lparr>deliveries = [sample_row 1 EventFiring 100, sample_row 2 EventResolved 101], next_delivery_id = 3\<rparr>"

definition sample_queue_3 :: delivery_store where
  "sample_queue_3 = \<lparr>deliveries = [sample_lease ''t1'' 102 132, sample_row 2 EventResolved 101], next_delivery_id = 3\<rparr>"

definition sample_sender :: AlertDeliveryClaim where
  "sample_sender = \<lparr>acDelivery = sample_lease ''t1'' 102 132, acClaimToken = ''t1'', acLeaseExpiresAt = 132, acTakeover = False\<rparr>"

lemma not_isl_pair: "\<not> isl x \<Longrightarrow> x = Inr (fst (projr x), snd (projr x))"
  by (cases x) auto

lemma sample_enqueued:
  "EnqueueDelivery sample_json \<lparr>deliveries = [], next_delivery_id = 1\<rparr> (Some 7) EventFiring ''{}'' 100
     = Inr (sample_queue_1, sample_row 1 EventFiring 100, False)"
  "EnqueueDelivery sample_json sample_queue_1 (Some 7) EventResolved ''{}'' 101 = Inr (sample_queue_2, sample_row 2 EventResolved 101, False)"
  by code_simp+

lemma sample_claimed_delivery: "claim_delivery sample_queue_2 None ''t1'' 102 132 = Inr (sample_queue_3, sample_sender)"
  by code_simp

lemma sample_queues_reachable:
  "delivery_reachable sample_json sample_queue_2" "delivery_reachable sample_json sample_queue_3"
proof -
  have "delivery_reachable sample_json sample_queue_1"
    using sample_enqueued(1) delivery_step.enqueue by (blast intro: r_into_rtranclp)
  then show two: "delivery_reachable sample_json sample_queue_2"
    using sample_enqueued(2) delivery_step.enqueue by (blast intro: rtranclp.rtrancl_into_rtrancl)
  then show "delivery_reachable sample_json sample_queue_3"
    by (rule rtranclp.rtrancl_into_rtrancl) (rule delivery_step.claim [OF sample_claimed_delivery TrueI])
qed

section \<open>Witnesses\<close>

theorem delivery_rows_well_formed_witness: "FailExhaustedLeases sample_queue_3 200 = Inr (sample_queue_3, 0)"
  using delivery_rows_well_formed [OF sample_queues_reachable(2), of 200] by simp


definition sample_queue_4 :: delivery_store where
  "sample_queue_4 = \<lparr>deliveries = [sample_lease ''t2'' 140 170, sample_row 2 EventResolved 101], next_delivery_id = 3\<rparr>"

definition sample_successor :: AlertDeliveryClaim where
  "sample_successor = \<lparr>acDelivery = sample_lease ''t2'' 140 170, acClaimToken = ''t2'', acLeaseExpiresAt = 170, acTakeover = True\<rparr>"

lemma sample_takeover: "claim_delivery sample_queue_3 None ''t2'' 140 170 = Inr (sample_queue_4, sample_successor)"
  by code_simp

theorem takeover_fences_sender_witness:
  "completeAttempt sample_queue_4 sample_sender (send (\<lambda>_. None) (\<lambda>_. Some ''0'') 1 (Answer 200 [] (Some ''ok'')) ''r1'') (150 * second) (150 * second)
     \<noteq> Inr sample_queue_4"
proof -
  have "dID (acDelivery sample_successor) = 1" by code_simp
  moreover have "dID (acDelivery sample_sender) = 1" by code_simp
  ultimately have i: "dID (acDelivery sample_successor) = dID (acDelivery sample_sender)" by simp
  have "acClaimToken sample_sender = ''t1''" by code_simp
  then have t: "''t2'' \<noteq> acClaimToken sample_sender" by simp
  show ?thesis by (rule takeover_fences_sender [OF sample_queues_reachable(2) sample_takeover i t rtranclp.rtrancl_refl])
qed

theorem resolved_after_firing_witness: "list_ex (\<lambda>d. dID d = dID (acDelivery sample_sender) \<and> due 102 d) (deliveries sample_queue_2)"
  using resolved_after_firing [OF sample_queues_reachable(1) sample_claimed_delivery [folded ClaimNextDelivery_def]]
  unfolding list_ex_iff by blast

theorem no_delivery_stuck_witness: "list_ex (\<lambda>f. claimable_from sample_queue_2 f (fst (due_key f))) (deliveries sample_queue_2)"
proof -
  have "length (deliveries sample_queue_2) = 2" by code_simp
  then have d: "deliveries sample_queue_2 ! 1 \<in> set (deliveries sample_queue_2)" by simp
  have p: "dStatus (deliveries sample_queue_2 ! 1) = DeliveryPending" by code_simp
  show ?thesis using no_delivery_stuck [OF sample_queues_reachable(1) d p] unfolding list_ex_iff by blast
qed

theorem delivery_rounds_bounded_witness:
  "delivery_budget (fst (ProcessNext (sample_env 200 NetworkFailed) (Some NotificationNotConfigured) (Some ''r1'') ''t5'' sample_queue_2))
     < delivery_budget sample_queue_2"
proof -
  let ?p = "ProcessNext (sample_env 200 NetworkFailed) (Some NotificationNotConfigured) (Some ''r1'') ''t5'' sample_queue_2"
  have "snd ?p = Inr True" by code_simp
  then have "?p = (fst ?p, Inr True)" by (metis prod.collapse)
  then show ?thesis by (rule delivery_rounds_bounded [OF sample_queues_reachable(1)])
qed

theorem attempt_outcome_recorded_witness:
  "\<exists>db2 d r. completeAttempt sample_queue_3 sample_sender (send (\<lambda>_. None) (\<lambda>_. Some ''0'') 1 (Answer 503 [] None) ''r1'')
      (103 * second) (103 * second) = Inr db2
    \<and> delivery_row (dID (acDelivery sample_sender)) db2 = Some d \<and> dNextRetryAt d = Some r \<and> r \<le> 3703"
proof -
  have t: "''t1'' \<noteq> []" "second \<le> 103 * second" by (simp_all add: second_def)
  have r: "\<not> arSuccess (send (\<lambda>_. None) (\<lambda>_. Some ''0'') 1 (Answer 503 [] None) ''r1'')"
    "arRetryable (send (\<lambda>_. None) (\<lambda>_. Some ''0'') 1 (Answer 503 [] None) ''r1'')"
    "dAttemptCount (acDelivery sample_sender) < 5" by code_simp+
  from attempt_outcome_recorded [OF sample_queues_reachable(1) sample_claimed_delivery t refl, of _ _ 1 "Answer 503 [] None" "''r1''" "103 * second"]
  show ?thesis using r by (fastforce simp: second_def)
qed

theorem test_notification_reports_witness:
  "\<exists>db' report. TestNotification sample_json (sample_env 300 (Answer 404 [] None)) None ''r1'' ''t9'' ''{}'' (\<lambda>_ db. db) sample_queue_3
     = (db', Inr report)"
proof (rule test_notification_reports [OF sample_queues_reachable(2)])
  show "validDingTalkRequestID ''r1''" "validAlertDeliverySnapshot sample_json ''{}''" by code_simp+
  show "second \<le> enClock (sample_env 300 (Answer 404 [] None)) 0" "enClock (sample_env 300 (Answer 404 [] None)) 0 \<le> enClock (sample_env 300 (Answer 404 [] None)) 1"
    "second \<le> enClock (sample_env 300 (Answer 404 [] None)) 3" "0 \<le> enClock (sample_env 300 (Answer 404 [] None)) 4"
    by (simp_all add: sample_env_def second_def)
qed simp_all

end
