(* ===== verification/Message_Registry.thy ===== *)
theory Message_Registry
  imports Pilot_Prelude
begin

text \<open>
  Message references (\<^verbatim>\<open>constant/message.go\<close>, \<^verbatim>\<open>dto/message.go\<close>): the registry of message codes with the
  parameters that each requires or allows, and the validation that every message passes when it is built
  and when it is stored. A parameter map is an association list with distinct keys. A number is an integer
  or another finite number. Stored parameters are kept decoded: the round trip through JSON numbers is exact for
  the integers that a float64 represents, in particular for every timestamp below \<open>2 ^ 53\<close>.
\<close>

section \<open>Registry\<close>

datatype param_value = PNull | PString string | PInteger int | PFraction | PBool bool

datatype MessageParamKind = KindString | KindInteger | KindNumber | KindBoolean

datatype MessageParamFormat = FormatNone | FormatIDString | FormatNonNegativeIntegerString | FormatTimestamp

record MessageParamSpec =
  psKind :: MessageParamKind
  psFormat :: MessageParamFormat
  psNullable :: bool
  psAllowedValues :: "string list"

type_synonym message_params = "(string \<times> param_value) list"

definition param_spec :: "MessageParamKind \<Rightarrow> MessageParamFormat \<Rightarrow> MessageParamSpec" where
  "param_spec kind format = \<lparr>psKind = kind, psFormat = format, psNullable = False, psAllowedValues = []\<rparr>"

definition stringParam :: "string \<Rightarrow> string \<times> MessageParamSpec" where
  "stringParam name = (name, param_spec KindString FormatNone)"

definition enumParam :: "string \<Rightarrow> string list \<Rightarrow> string \<times> MessageParamSpec" where
  "enumParam name allowed = (name, (param_spec KindString FormatNone)\<lparr>psAllowedValues := allowed\<rparr>)"

definition idParam :: "string \<Rightarrow> string \<times> MessageParamSpec" where
  "idParam name = (name, param_spec KindString FormatIDString)"

definition nullableIDParam :: "string \<Rightarrow> string \<times> MessageParamSpec" where
  "nullableIDParam name = (name, (param_spec KindString FormatIDString)\<lparr>psNullable := True\<rparr>)"

definition decimalStringParam :: "string \<Rightarrow> string \<times> MessageParamSpec" where
  "decimalStringParam name = (name, param_spec KindString FormatNonNegativeIntegerString)"

definition timestampParam :: "string \<Rightarrow> string \<times> MessageParamSpec" where
  "timestampParam name = (name, param_spec KindInteger FormatTimestamp)"

definition numberParam :: "string \<Rightarrow> string \<times> MessageParamSpec" where
  "numberParam name = (name, param_spec KindNumber FormatNone)"

text \<open>Code, required parameters, optional parameters.\<close>

definition MessageRegistry :: "(string \<times> (string \<times> MessageParamSpec) list \<times> (string \<times> MessageParamSpec) list) list" where
  "MessageRegistry = [
     (''COLLECTION_RETRY_EXHAUSTED'', [idParam ''site_id'', idParam ''run_id''], []),
     (''COLLECTION_EXECUTION_FAILED'', [], [enumParam ''failure_kind'' [''upstream_unavailable'',
        ''authorization_expired'', ''permission_denied'', ''rate_limited'', ''upstream_server_error'',
        ''response_invalid'', ''response_too_large'', ''export_disabled'', ''address_forbidden'',
        ''configuration_changed'', ''task_contract_invalid'', ''internal_error'']]),
     (''DATA_VALIDATION_MISMATCH'', [idParam ''site_id'', timestampParam ''start_timestamp'', timestampParam
        ''end_timestamp''], []),
     (''UPSTREAM_RESPONSE_INVALID'', [idParam ''site_id''], [stringParam ''capability_key'']),
     (''UPSTREAM_RESPONSE_TOO_LARGE'', [idParam ''site_id'', decimalStringParam ''response_bytes'', decimalStringParam
        ''limit_bytes''], []),
     (''SITE_CONFIG_CHANGED'', [idParam ''site_id'', numberParam ''expected_config_version'', numberParam
        ''actual_config_version''], []),
     (''DEPENDENCY_WINDOWS_MISSING'', [idParam ''site_id'', idParam ''run_id'', timestampParam ''start_timestamp'',
        timestampParam ''end_timestamp''], []),
     (''WORKER_LEASE_LOST'', [idParam ''site_id'', idParam ''run_id'', timestampParam ''hour_ts''], []),
     (''EXPORT_DISK_LOW'', [idParam ''export_id'', decimalStringParam ''free_bytes'', decimalStringParam
        ''threshold_bytes''], []),
     (''EXPORT_FILE_TOO_LARGE'', [idParam ''export_id'', decimalStringParam ''file_bytes'', decimalStringParam
        ''limit_bytes''], []),
     (''EXPORT_SNAPSHOT_FAILED'', [idParam ''export_id''], []),
     (''EXPORT_WRITE_FAILED'', [idParam ''export_id''], []),
     (''EXPORT_EXPIRED'', [idParam ''export_id''], []),
     (''EXPORT_FILE_MISSING'', [idParam ''export_id''], []),
     (''NOTIFICATION_DISABLED'', [nullableIDParam ''alert_event_id'', nullableIDParam ''delivery_id''], []),
     (''NOTIFICATION_NOT_CONFIGURED'', [nullableIDParam ''alert_event_id'', nullableIDParam ''delivery_id''], []),
     (''NOTIFICATION_TEST_SUCCEEDED'', [idParam ''delivery_id''], []),
     (''DINGTALK_ADDRESS_FORBIDDEN'', [nullableIDParam ''alert_event_id'', nullableIDParam ''delivery_id''], []),
     (''DINGTALK_REJECTED'', [nullableIDParam ''alert_event_id'', idParam ''delivery_id'', stringParam ''errcode''],
        []),
     (''DELIVERY_RETRY_EXHAUSTED'', [nullableIDParam ''alert_event_id'', idParam ''delivery_id''], []),
     (''DELIVERY_RETRY_SCHEDULED'', [idParam ''delivery_id'', decimalStringParam ''next_retry_at''], []),
     (''DATA_PENDING'', [stringParam ''scope_type'', nullableIDParam ''scope_id'', numberParam ''progress''], []),
     (''DATA_BACKFILLING'', [stringParam ''scope_type'', nullableIDParam ''scope_id'', numberParam ''progress''], []),
     (''DATA_WINDOW_MISSING'', [idParam ''site_id'', timestampParam ''start_timestamp'', timestampParam
        ''end_timestamp''], []),
     (''DATA_UPSTREAM_UNAVAILABLE'', [idParam ''site_id'', timestampParam ''start_timestamp'', timestampParam
        ''end_timestamp''], []),
     (''DATA_SCOPE_PAUSED'', [stringParam ''scope_type'', idParam ''scope_id'', timestampParam ''start_timestamp'',
        timestampParam ''end_timestamp''], []),
     (''DATA_PARTIAL_SITES'', [numberParam ''complete_site_count'', numberParam ''expected_site_count''], []),
     (''DATA_VALIDATION_FAILED'', [idParam ''site_id'', timestampParam ''start_timestamp'', timestampParam
        ''end_timestamp''], []),
     (''CAPABILITY_OK'', [idParam ''site_id'', stringParam ''capability_key''], []),
     (''CAPABILITY_UPSTREAM_UNAVAILABLE'', [idParam ''site_id'', stringParam ''capability_key''], []),
     (''CAPABILITY_RESPONSE_INVALID'', [idParam ''site_id'', stringParam ''capability_key''], []),
     (''CAPABILITY_EXPORT_DISABLED'', [idParam ''site_id'', stringParam ''capability_key''], []),
     (''CAPABILITY_IDENTITY_FAILED'', [idParam ''site_id'', stringParam ''capability_key''], []),
     (''CAPABILITY_FIRST_USER_PROOF_FAILED'', [idParam ''site_id'', stringParam ''capability_key''], []),
     (''CAPABILITY_NO_TRAFFIC_SKIPPED'', [idParam ''site_id'', stringParam ''capability_key''], []),
     (''ALERT_SITE_OFFLINE'', [idParam ''site_id'', stringParam ''site_name''], []),
     (''ALERT_AUTH_EXPIRED'', [idParam ''site_id'', stringParam ''site_name''], []),
     (''ALERT_EXPORT_DISABLED'', [idParam ''site_id'', stringParam ''site_name''], []),
     (''ALERT_COLLECTION_MISSING'', [idParam ''site_id'', timestampParam ''start_timestamp'', timestampParam
        ''end_timestamp''], []),
     (''ALERT_BACKFILL_FAILED'', [idParam ''site_id'', idParam ''run_id''], []),
     (''ALERT_VALIDATION_FAILED'', [idParam ''site_id'', timestampParam ''start_timestamp'', timestampParam
        ''end_timestamp'', enumParam ''failure_kind'' [''data_mismatch'', ''execution_failed'']], []),
     (''ALERT_INSTANCE_STALE'', [idParam ''site_id'', stringParam ''instance_name''], []),
     (''ALERT_INSTANCE_OFFLINE'', [idParam ''site_id'', stringParam ''instance_name''], []),
     (''ALERT_NO_INSTANCE'', [idParam ''site_id'', stringParam ''site_name''], []),
     (''ALERT_CPU_HIGH'', [idParam ''site_id'', stringParam ''target_type'', stringParam ''target_name'', stringParam
        ''value'', stringParam ''threshold''], []),
     (''ALERT_MEMORY_HIGH'', [idParam ''site_id'', stringParam ''target_type'', stringParam ''target_name'',
        stringParam ''value'', stringParam ''threshold''], []),
     (''ALERT_DISK_HIGH'', [idParam ''site_id'', stringParam ''target_type'', stringParam ''target_name'', stringParam
        ''value'', stringParam ''threshold''], []),
     (''ALERT_ACCOUNT_MISSING'', [idParam ''account_id'', stringParam ''account_name''], [idParam ''site_id'']),
     (''ALERT_ACCOUNT_IDENTITY_MISMATCH'', [idParam ''account_id'', stringParam ''account_name''], [idParam
        ''site_id'']),
     (''ALERT_ACCOUNT_DISABLED'', [idParam ''account_id'', stringParam ''account_name''], [idParam ''site_id'']),
     (''ALERT_ACCOUNT_QUOTA_EMPTY'', [idParam ''account_id'', stringParam ''account_name''], [idParam ''site_id'']),
     (''ALERT_CHANNEL_BALANCE_LOW'', [idParam ''site_id'', stringParam ''site_name'', stringParam ''value'',
        stringParam ''threshold''], []),
     (''ALERT_CHANNEL_RESPONSE_TIME_HIGH'', [idParam ''site_id'', stringParam ''site_name'', stringParam ''value'',
        stringParam ''threshold''], []),
     (''ALERT_CHANNEL_AVAILABILITY_LOW'', [idParam ''site_id'', stringParam ''site_name'', stringParam ''value'',
        stringParam ''threshold''], []),
     (''ALERT_SCOPE_INACTIVE'', [stringParam ''scope_type'', idParam ''scope_id'', stringParam ''scope_name''], []),
     (''INTERNAL_CONTRACT_ERROR'', [stringParam ''component''], [stringParam ''value''])]"

section \<open>Validation\<close>

definition isPositiveDecimalInt64 :: "string \<Rightarrow> bool" where
  "isPositiveDecimalInt64 v \<longleftrightarrow> v \<noteq> [] \<and> hd v \<noteq> CHR ''0'' \<and> list_all is_digit v
     \<and> (case ParseInt64 v of None \<Rightarrow> False | Some i \<Rightarrow> i > 0)"

definition isNonNegativeDecimalInt64 :: "string \<Rightarrow> bool" where
  "isNonNegativeDecimalInt64 v \<longleftrightarrow> v \<noteq> [] \<and> list_all is_digit v \<and> \<not> (1 < length v \<and> hd v = CHR ''0'')
     \<and> (case ParseInt64 v of None \<Rightarrow> False | Some i \<Rightarrow> i \<ge> 0)"

definition isIntegerValue :: "param_value \<Rightarrow> bool \<Rightarrow> bool" where
  "isIntegerValue v nonNegative = (case v of PInteger i \<Rightarrow> \<not> nonNegative \<or> i \<ge> 0 | _ \<Rightarrow> False)"

definition isNumberValue :: "param_value \<Rightarrow> bool" where
  "isNumberValue v = (case v of PInteger _ \<Rightarrow> True | PFraction \<Rightarrow> True | _ \<Rightarrow> False)"

definition validateMessageParam :: "MessageParamSpec \<Rightarrow> param_value \<Rightarrow> bool" where
  "validateMessageParam spec v =
     (if v = PNull then psNullable spec
      else case psKind spec of
             KindString \<Rightarrow>
               (case v of
                  PString t \<Rightarrow>
                    (case psFormat spec of
                       FormatNone \<Rightarrow> True
                     | FormatIDString \<Rightarrow> isPositiveDecimalInt64 t
                     | FormatNonNegativeIntegerString \<Rightarrow> isNonNegativeDecimalInt64 t
                     | FormatTimestamp \<Rightarrow> False)
                    \<and> (psAllowedValues spec = [] \<or> t \<in> set (psAllowedValues spec))
                | _ \<Rightarrow> False)
           | KindInteger \<Rightarrow> (psFormat spec = FormatNone \<or> psFormat spec = FormatTimestamp) \<and> isIntegerValue v (psFormat spec = FormatTimestamp)
           | KindNumber \<Rightarrow> isNumberValue v
           | KindBoolean \<Rightarrow> (case v of PBool _ \<Rightarrow> True | _ \<Rightarrow> False))"

primrec required_present :: "(string \<times> MessageParamSpec) list \<Rightarrow> message_params \<Rightarrow> bool" where
  "required_present [] params = True"
| "required_present (p # ps) params = (map_of params (fst p) \<noteq> None \<and> required_present ps params)"

text \<open>Unknown keys and values that their specification rejects are errors.\<close>

primrec params_accepted :: "message_params \<Rightarrow> (string \<times> MessageParamSpec) list \<Rightarrow> bool" where
  "params_accepted [] allowed = True"
| "params_accepted (p # ps) allowed =
     ((case map_of allowed (fst p) of None \<Rightarrow> False | Some spec \<Rightarrow> validateMessageParam spec (snd p)) \<and> params_accepted ps allowed)"

text \<open>An optional parameter replaces a required one of the same name, as in the source's map.\<close>

definition ValidateMessageParams :: "string \<Rightarrow> message_params \<Rightarrow> bool" where
  "ValidateMessageParams code params =
     (case map_of MessageRegistry code of
        None \<Rightarrow> False
      | Some (req, opt) \<Rightarrow> required_present req params \<and> params_accepted params (opt @ req))"

record MessageRef =
  mrCode :: string
  mrParams :: message_params
  mrTechnicalDetail :: string

definition NewMessageRef :: "string \<Rightarrow> message_params \<Rightarrow> string \<Rightarrow> MessageRef option" where
  "NewMessageRef code params detail =
     (if ValidateMessageParams code params then Some \<lparr>mrCode = code, mrParams = params, mrTechnicalDetail = detail\<rparr> else None)"

end
