(* ===== verification/Alert_Rules.thy ===== *)
theory Alert_Rules
  imports Message_Registry Alert_Delivery
begin

text \<open>
  Alert rules (\<^verbatim>\<open>service/alert.go\<close>, \<^verbatim>\<open>model/alert.go\<close>): decimal texts, the rules that are in effect for a site,
  the rule that a value matches, and the edits of rules with their checks. A decimal is the integer of its
  ten-digit scaling, which is exact for the texts that the patterns accept. A threshold is the text that
  the column returns, with two fractional digits.
\<close>

section \<open>Decimals\<close>

definition digits_int :: "string \<Rightarrow> int" where
  "digits_int s = foldl (\<lambda>a c. 10 * a + int (digit_value c)) 0 s"

text \<open>The pattern \<^verbatim>\<open>^-?(0|[1-9][0-9]*)(\.[0-9]{1,k})?$\<close>: sign, integer digits and fractional digits.\<close>

definition decimal_match :: "nat \<Rightarrow> string \<Rightarrow> (bool \<times> string \<times> string) option" where
  "decimal_match k s =
     (let neg = prefix ''-'' s;
          body = (if prefix ''-'' s then tl s else s);
          whole = takeWhile is_digit body;
          rest = dropWhile is_digit body
      in if whole = [] \<or> (hd whole = CHR ''0'' \<and> whole \<noteq> ''0'') then None
         else if rest = [] then Some (neg, whole, [])
         else if hd rest = CHR ''.'' \<and> tl rest \<noteq> [] \<and> length (tl rest) \<le> k \<and> list_all is_digit (tl rest)
         then Some (neg, whole, tl rest) else None)"

definition decimal_scale :: int where "decimal_scale = 10000000000"

definition decimal_value :: "bool \<Rightarrow> string \<Rightarrow> string \<Rightarrow> int" where
  "decimal_value neg whole fraction =
     (let v = digits_int whole * decimal_scale + digits_int fraction * 10 ^ (10 - length fraction) in if neg then - v else v)"

text \<open>The result is the value and the canonical text.\<close>

definition parseAlertDecimal :: "string \<Rightarrow> bool \<Rightarrow> (int \<times> string) option" where
  "parseAlertDecimal raw allowNegative =
     (if raw \<noteq> TrimSpace raw then None
      else case decimal_match 10 raw of
             None \<Rightarrow> None
           | Some (neg, whole, fraction) \<Rightarrow>
               if length whole > 20 then None
               else let value = decimal_value neg whole fraction
                    in if \<not> allowNegative \<and> value < 0 then None
                       else Some (value,
                              if value = 0 then ''0''
                              else if fraction \<noteq> []
                              then TrimSuffix ((if neg then ''-'' else []) @ whole @ ''.'' @ TrimRight1 fraction (CHR ''0'')) ''.''
                              else raw))"

definition parseAlertThreshold :: "string \<Rightarrow> bool \<Rightarrow> (int \<times> string) option" where
  "parseAlertThreshold raw allowNegative =
     (if raw \<noteq> TrimSpace raw \<or> decimal_match 2 raw = None then None else parseAlertDecimal raw allowNegative)"

text \<open>\<^verbatim>\<open>big.Rat.FloatString(k)\<close> of a value with at most \<open>k\<close> fractional digits, where it does not round.\<close>

primrec pad_digits :: "nat \<Rightarrow> int \<Rightarrow> string" where
  "pad_digits 0 v = []"
| "pad_digits (Suc k) v = pad_digits k (v div 10) @ [digit_char (nat (v mod 10))]"

definition FloatString :: "nat \<Rightarrow> int \<Rightarrow> string" where
  "FloatString k v = (if v < 0 then ''-'' else []) @ FormatInt (abs v div decimal_scale) @ ''.''
     @ pad_digits k (abs v mod decimal_scale div 10 ^ (10 - k))"

section \<open>Rows\<close>

record AlertRule =
  ruID :: int
  ruRuleKey :: string
  ruName :: string
  ruEnabled :: bool
  ruLevel :: string
  ruMetric :: string
  ruCompareOperator :: string
  ruThresholdValue :: "string option"
  ruForTimes :: int
  ruScopeType :: string
  ruScopeID :: int
  ruCreatedAt :: int
  ruUpdatedAt :: int

record AlertRulePatch =
  rpEnabled :: "bool option"
  rpThresholdValue :: "string option"
  rpForTimes :: "int option"
  rpUpdatedAt :: int

record AlertEvent =
  evID :: int
  evRuleID :: int
  evRuleKey :: string
  evSiteID :: "int option"
  evTargetType :: string
  evTargetKey :: string
  evActiveKey :: "string option"
  evLevel :: string
  evStatus :: string
  evConsecutiveCount :: int
  evCurrentValue :: "string option"
  evThresholdValue :: "string option"
  evMessageCode :: string
  evMessageParams :: "message_params option"
  evMessage :: string
  evFirstObservedAt :: int
  evFirstFiredAt :: "int option"
  evLastFiredAt :: "int option"
  evResolvedAt :: "int option"
  evResolutionReason :: "string option"
  evCreatedAt :: int
  evUpdatedAt :: int

record AlertEvaluationCursor =
  ecActiveKey :: string
  ecLastSampleAt :: int
  ecLastSampleKey :: string
  ecCreatedAt :: int
  ecUpdatedAt :: int

record alert_store =
  alert_rules :: "AlertRule list"
  next_rule_id :: int
  site_ids :: "int list"
  alert_events :: "AlertEvent list"
  next_event_id :: int
  cursors :: "AlertEvaluationCursor list"
  dingtalk_enabled :: bool
  delivery_queue :: delivery_store

abbreviation AlertScopeGlobal :: string where "AlertScopeGlobal \<equiv> ''global''"
abbreviation AlertScopeSite :: string where "AlertScopeSite \<equiv> ''site''"
abbreviation AlertLevelInfo :: string where "AlertLevelInfo \<equiv> ''info''"
abbreviation AlertLevelWarning :: string where "AlertLevelWarning \<equiv> ''warning''"
abbreviation AlertLevelCritical :: string where "AlertLevelCritical \<equiv> ''critical''"

section \<open>Effective rules\<close>

definition effectiveAlertRulesForSite :: "AlertRule list \<Rightarrow> int \<Rightarrow> string \<Rightarrow> AlertRule option" where
  "effectiveAlertRulesForSite rules siteID =
     (let globals = fold (\<lambda>r m. if ruScopeType r = AlertScopeGlobal \<and> ruScopeID r = 0 then m(ruLevel r \<mapsto> r) else m) rules Map.empty
      in if siteID \<le> 0 then globals
         else fold (\<lambda>r m. if ruScopeType r = AlertScopeSite \<and> ruScopeID r = siteID then m(ruLevel r \<mapsto> r) else m) rules globals)"

definition prefer_site :: "AlertRule \<Rightarrow> (string \<Rightarrow> AlertRule option) \<Rightarrow> (string \<Rightarrow> AlertRule option)" where
  "prefer_site r m =
     (case m (ruLevel r) of
        None \<Rightarrow> m(ruLevel r \<mapsto> r)
      | Some current \<Rightarrow>
          if ruScopeType current = AlertScopeGlobal \<and> ruScopeType r = AlertScopeSite then m(ruLevel r \<mapsto> r) else m)"

definition effectiveAlertRules :: "AlertRule list \<Rightarrow> string \<Rightarrow> AlertRule option" where
  "effectiveAlertRules rules = fold prefer_site (sort_key ruID rules) Map.empty"

text \<open>The comparison of a value with a rule, and the first level that matches.\<close>

definition rule_matches :: "AlertRule \<Rightarrow> int \<Rightarrow> bool" where
  "rule_matches r value =
     (case ruThresholdValue r of
        None \<Rightarrow> False
      | Some text \<Rightarrow>
          (case parseAlertThreshold text True of
             None \<Rightarrow> False
           | Some (threshold, _) \<Rightarrow>
               (ruCompareOperator r = ''>='' \<and> value \<ge> threshold) \<or> (ruCompareOperator r = ''<='' \<and> value \<le> threshold)
               \<or> (ruCompareOperator r = ''=='' \<and> value = threshold)))"

primrec first_matching :: "(string \<Rightarrow> AlertRule option) \<Rightarrow> int \<Rightarrow> string list \<Rightarrow> AlertRule option" where
  "first_matching rules value [] = None"
| "first_matching rules value (level # levels) =
     (case rules level of
        None \<Rightarrow> first_matching rules value levels
      | Some r \<Rightarrow> if ruEnabled r \<and> rule_matches r value then Some r else first_matching rules value levels)"

definition matchingAlertRule :: "(string \<Rightarrow> AlertRule option) \<Rightarrow> int \<Rightarrow> AlertRule option" where
  "matchingAlertRule rules value = first_matching rules value [AlertLevelCritical, AlertLevelWarning, AlertLevelInfo]"

definition validEffectiveAlertPair :: "(string \<Rightarrow> AlertRule option) \<Rightarrow> bool" where
  "validEffectiveAlertPair effective =
     (case (effective AlertLevelWarning, effective AlertLevelCritical) of
        (Some w, Some c) \<Rightarrow>
          (case (ruThresholdValue w, ruThresholdValue c) of
             (Some wt, Some ct) \<Rightarrow>
               (case (parseAlertThreshold wt True, parseAlertThreshold ct True) of
                  (Some (wv, _), Some (cv, _)) \<Rightarrow>
                    if ruCompareOperator w \<noteq> ruCompareOperator c then False
                    else if ruCompareOperator w = ''>='' then wv < cv
                    else if ruCompareOperator w = ''<='' then wv > cv
                    else if ruCompareOperator w = ''=='' then wv = cv
                    else False
                | _ \<Rightarrow> False)
           | _ \<Rightarrow> True)
      | _ \<Rightarrow> True)"

section \<open>Editing rules\<close>

definition ContainsText :: "string \<Rightarrow> string \<Rightarrow> bool" where
  "ContainsText s t = list_ex (prefix t) (suffixes s)"

definition alertValueKind :: "string \<Rightarrow> string" where
  "alertValueKind metric =
     (if ContainsText metric ''percent'' then ''percentage''
      else if ContainsText metric ''stale_seconds'' then ''seconds''
      else if metric = ''account.quota'' then ''quota''
      else if metric = ''channel.availability_rate'' then ''ratio''
      else if metric = ''channel.balance_total'' then ''decimal''
      else if metric = ''channel.response_time_avg_ms'' \<or> metric = ''channel.response_time_max_ms'' then ''milliseconds''
      else if metric \<in> set [''site.auth_expired'', ''site.data_export_enabled'', ''instance.online'', ''account.remote_exists'',
          ''account.identity_match'', ''account.remote_enabled''] then ''boolean''
      else ''count'')"

text \<open>The patch, and the fields with an error.\<close>

definition alertRulePatch :: "AlertRule \<Rightarrow> bool option \<Rightarrow> string option \<Rightarrow> int option \<Rightarrow> int \<Rightarrow> AlertRulePatch \<times> string list" where
  "alertRulePatch rule enabled threshold forTimes now =
     (let kind = alertValueKind (ruMetric rule);
          patch = \<lparr>rpEnabled = enabled, rpThresholdValue = None, rpForTimes = forTimes, rpUpdatedAt = now\<rparr>;
          times = (case forTimes of None \<Rightarrow> [] | Some n \<Rightarrow> if n < 1 \<or> n > 60 then [''for_times''] else [])
      in if kind = ''boolean''
         then (patch, (if threshold \<noteq> None then [''threshold_value''] else []) @ (if forTimes \<noteq> None then [''for_times''] else []))
         else case threshold of
                None \<Rightarrow> (patch, times)
              | Some text \<Rightarrow>
                  (case parseAlertThreshold text False of
                     None \<Rightarrow> (patch, ''threshold_value'' # times)
                   | Some (value, canonical) \<Rightarrow>
                       (patch\<lparr>rpThresholdValue := Some canonical\<rparr>,
                        (if (kind = ''percentage'' \<and> (value < 1 * decimal_scale \<or> value > 100 * decimal_scale))
                            \<or> (kind = ''seconds'' \<and> (value < 1 * decimal_scale \<or> value > 86400 * decimal_scale))
                            \<or> (kind = ''ratio'' \<and> (value < 0 \<or> value > 1 * decimal_scale))
                         then [''threshold_value''] else []) @ times)))"

definition applyAlertPatch :: "AlertRule \<Rightarrow> AlertRulePatch \<Rightarrow> AlertRule" where
  "applyAlertPatch rule patch = rule\<lparr>
     ruEnabled := (case rpEnabled patch of None \<Rightarrow> ruEnabled rule | Some e \<Rightarrow> e),
     ruThresholdValue := (case rpThresholdValue patch of None \<Rightarrow> ruThresholdValue rule | Some t \<Rightarrow> Some t),
     ruForTimes := (case rpForTimes patch of None \<Rightarrow> ruForTimes rule | Some n \<Rightarrow> n),
     ruUpdatedAt := rpUpdatedAt patch\<rparr>"

definition same_rule :: "AlertRule \<Rightarrow> AlertRule \<Rightarrow> bool" where
  "same_rule target r \<longleftrightarrow> ruID r = ruID target \<and> ruScopeType r = ruScopeType target \<and> ruScopeID r = ruScopeID target"

fun replace_first :: "('a \<Rightarrow> bool) \<Rightarrow> 'a \<Rightarrow> 'a list \<Rightarrow> 'a list" where
  "replace_first P y [] = [y]"
| "replace_first P y (x # xs) = (if P x then y # xs else x # replace_first P y xs)"

definition site_scopes :: "AlertRule list \<Rightarrow> int list" where
  "site_scopes rules = 0 # map ruScopeID (filter (\<lambda>r. ruScopeType r = AlertScopeSite \<and> ruScopeID r > 0) rules)"

text \<open>The pair must be valid for the global scope and for every site with an override; \<open>True\<close> is no error.\<close>

definition validateAlertPairs :: "AlertRule list \<Rightarrow> AlertRule \<Rightarrow> AlertRulePatch \<Rightarrow> bool" where
  "validateAlertPairs rules target patch =
     (let updated = replace_first (same_rule target) (applyAlertPatch target patch) rules
      in list_all (\<lambda>siteID. validEffectiveAlertPair (effectiveAlertRulesForSite updated siteID)) (site_scopes updated))"

datatype rule_error = RuleInvalid "string list" | ErrAlertRuleNotFound | ErrAlertRuleConflict

definition deleted_prefix :: string where "deleted_prefix = ''__deleted_''"

definition live_rule :: "int \<Rightarrow> AlertRule \<Rightarrow> bool" where
  "live_rule i r \<longleftrightarrow> ruID r = i \<and> ruScopeType r \<in> {AlertScopeGlobal, AlertScopeSite} \<and> take 10 (ruRuleKey r) \<noteq> deleted_prefix"

definition LockAllRulesByKey :: "alert_store \<Rightarrow> string \<Rightarrow> AlertRule list" where
  "LockAllRulesByKey db key = sort_key ruID (filter (\<lambda>r. ruRuleKey r = key) (alert_rules db))"

definition LockRulesByKey :: "alert_store \<Rightarrow> string \<Rightarrow> int \<Rightarrow> AlertRule list" where
  "LockRulesByKey db key siteID = sort_key ruID (filter (\<lambda>r. ruRuleKey r = key
     \<and> ((ruScopeType r = AlertScopeGlobal \<and> ruScopeID r = 0) \<or> (ruScopeType r = AlertScopeSite \<and> ruScopeID r = siteID))) (alert_rules db))"

text \<open>A decimal column with two fractional digits returns its value in that form.\<close>

definition column_text :: "string option \<Rightarrow> string option" where
  "column_text t = (case t of
     None \<Rightarrow> None
   | Some text \<Rightarrow> (case parseAlertThreshold text True of None \<Rightarrow> Some text | Some (v, _) \<Rightarrow> Some (FloatString 2 v)))"

definition stored_rule :: "AlertRule \<Rightarrow> AlertRule" where
  "stored_rule r = r\<lparr>ruThresholdValue := column_text (ruThresholdValue r)\<rparr>"

record AlertRuleUpdateRequest =
  uqEnabled :: "bool option"
  uqThresholdValue :: "string option"
  uqForTimes :: "int option"

definition request_fields :: "AlertRuleUpdateRequest \<Rightarrow> string list" where
  "request_fields q =
     (case uqThresholdValue q of None \<Rightarrow> [] | Some t \<Rightarrow> if TrimSpace t = [] then [''threshold_value''] else [])
     @ (case uqForTimes q of None \<Rightarrow> [] | Some n \<Rightarrow> if n < 1 \<or> n > 60 then [''for_times''] else [])"

definition UpdateRule :: "alert_store \<Rightarrow> int \<Rightarrow> AlertRuleUpdateRequest \<Rightarrow> int \<Rightarrow> rule_error + (alert_store \<times> AlertRule)" where
  "UpdateRule db i q now =
     (let fields = (if uqEnabled q = None \<and> uqThresholdValue q = None \<and> uqForTimes q = None then [''body''] else []) @ request_fields q
      in if fields \<noteq> [] then Inl (RuleInvalid fields)
         else case find (live_rule i) (alert_rules db) of
                None \<Rightarrow> Inl ErrAlertRuleNotFound
              | Some unlocked \<Rightarrow>
                  (let rules = LockAllRulesByKey db (ruRuleKey unlocked)
                   in case find (\<lambda>r. ruID r = i) rules of
                        None \<Rightarrow> Inl ErrAlertRuleNotFound
                      | Some target \<Rightarrow>
                          (case alertRulePatch target (uqEnabled q) (uqThresholdValue q) (uqForTimes q) now of (patch, errors) \<Rightarrow>
                             if errors \<noteq> [] then Inl (RuleInvalid errors)
                             else if \<not> validateAlertPairs rules target patch then Inl (RuleInvalid [''threshold_value''])
                             else Inr (db\<lparr>alert_rules := update_where (\<lambda>r. ruID r = i) (\<lambda>r. stored_rule (applyAlertPatch r patch)) (alert_rules db)\<rparr>,
                                    applyAlertPatch target patch))))"

definition validAlertID :: "string \<Rightarrow> bool" where
  "validAlertID v \<longleftrightarrow> (case ParseInt64 v of None \<Rightarrow> False | Some i \<Rightarrow> i > 0 \<and> FormatInt i = v)"

definition override_rule :: "alert_store \<Rightarrow> AlertRule \<Rightarrow> int \<Rightarrow> int \<Rightarrow> AlertRulePatch \<Rightarrow> AlertRule" where
  "override_rule db base siteID now patch = \<lparr>ruID = next_rule_id db, ruRuleKey = ruRuleKey base, ruName = ruName base,
     ruEnabled = (case rpEnabled patch of None \<Rightarrow> ruEnabled base | Some e \<Rightarrow> e), ruLevel = ruLevel base, ruMetric = ruMetric base,
     ruCompareOperator = ruCompareOperator base,
     ruThresholdValue = column_text (case rpThresholdValue patch of None \<Rightarrow> ruThresholdValue base | Some t \<Rightarrow> Some t),
     ruForTimes = (case rpForTimes patch of None \<Rightarrow> ruForTimes base | Some n \<Rightarrow> n),
     ruScopeType = AlertScopeSite, ruScopeID = siteID, ruCreatedAt = now, ruUpdatedAt = now\<rparr>"

definition CreateOverride :: "alert_store \<Rightarrow> string \<Rightarrow> string \<Rightarrow> AlertRuleUpdateRequest \<Rightarrow> int \<Rightarrow> rule_error + (alert_store \<times> int)" where
  "CreateOverride db baseText siteText q now =
     (let fields = (if validAlertID baseText then [] else [''base_rule_id'']) @ (if validAlertID siteText then [] else [''site_id''])
            @ request_fields q
      in if fields \<noteq> [] then Inl (RuleInvalid fields)
         else let baseID = the (ParseInt64 baseText); siteID = the (ParseInt64 siteText)
              in case find (live_rule baseID) (alert_rules db) of
                   None \<Rightarrow> Inl ErrAlertRuleNotFound
                 | Some base \<Rightarrow>
                     if ruScopeType base \<noteq> AlertScopeGlobal then Inl (RuleInvalid [''base_rule_id''])
                     else let rules = LockAllRulesByKey db (ruRuleKey base)
                          in case find (\<lambda>r. ruID r = baseID) rules of
                               None \<Rightarrow> Inl ErrAlertRuleNotFound
                             | Some locked \<Rightarrow>
                                 if list_ex (\<lambda>r. ruRuleKey r = ruRuleKey locked \<and> ruLevel r = ruLevel locked
                                      \<and> ruScopeType r = AlertScopeSite \<and> ruScopeID r = siteID) (alert_rules db)
                                 then Inl ErrAlertRuleConflict
                                 else if siteID \<notin> set (site_ids db) then Inl (RuleInvalid [''site_id''])
                                 else (case alertRulePatch locked (uqEnabled q) (uqThresholdValue q) (uqForTimes q) now of (patch, errors) \<Rightarrow>
                                   if errors \<noteq> [] then Inl (RuleInvalid errors)
                                   else if \<not> validateAlertPairs rules (locked\<lparr>ruScopeType := AlertScopeSite, ruScopeID := siteID\<rparr>) patch
                                   then Inl (RuleInvalid [''threshold_value''])
                                   else Inr (db\<lparr>alert_rules := alert_rules db @ [override_rule db locked siteID now patch],
                                             next_rule_id := next_rule_id db + 1\<rparr>, next_rule_id db)))"

text \<open>An override with events keeps its row under a retired key.\<close>

definition DeleteOverride :: "alert_store \<Rightarrow> int \<Rightarrow> rule_error + alert_store" where
  "DeleteOverride db i =
     (case find (live_rule i) (alert_rules db) of
        None \<Rightarrow> Inl ErrAlertRuleNotFound
      | Some rule \<Rightarrow>
          if ruScopeType rule \<noteq> AlertScopeSite then Inl (RuleInvalid [''id''])
          else if list_ex (\<lambda>e. evRuleID e = i) (alert_events db)
          then Inr (db\<lparr>alert_rules := update_where (\<lambda>r. ruID r = i \<and> ruScopeType r = AlertScopeSite)
                     (\<lambda>r. r\<lparr>ruRuleKey := deleted_prefix @ FormatInt i\<rparr>) (alert_rules db)\<rparr>)
          else Inr (db\<lparr>alert_rules := filter (\<lambda>r. ruID r \<noteq> i) (alert_rules db)\<rparr>))"

section \<open>Seeds\<close>

text \<open>Key, name, level, metric, operator, threshold and repetitions of the built-in rules.\<close>

definition defaultAlertRules :: "(string \<times> string \<times> string \<times> string \<times> string \<times> string \<times> int) list" where
  "defaultAlertRules = [
     (''site_offline'', ''Site Offline'', ''critical'', ''site.probe_fail_count'', ''>='', ''3'', 1),
     (''site_auth_expired'', ''Site Authorization Expired'', ''critical'', ''site.auth_expired'', ''=='', ''1'', 1),
     (''site_export_disabled'', ''Data Export Disabled'', ''warning'', ''site.data_export_enabled'', ''=='', ''0'', 1),
     (''collection_missing'', ''Collection Window Missing'', ''critical'', ''collection.missing'', ''>='', ''1'', 1),
     (''backfill_failed'', ''Backfill Failed'', ''warning'', ''collection.backfill_failed'', ''>='', ''1'', 1),
     (''validation_failed'', ''Statistics Validation Failed'', ''critical'', ''collection.validation_failed'', ''>='', ''1'', 1),
     (''instance_stale'', ''Instance Stale'', ''warning'', ''instance.stale_seconds'', ''>='', ''90'', 1),
     (''instance_offline'', ''Instance Offline'', ''critical'', ''instance.online'', ''=='', ''0'', 3),
     (''cpu_high'', ''CPU High'', ''warning'', ''instance.cpu_percent'', ''>='', ''85'', 3),
     (''cpu_high'', ''CPU Critical'', ''critical'', ''instance.cpu_percent'', ''>='', ''95'', 3),
     (''memory_high'', ''Memory High'', ''warning'', ''instance.memory_percent'', ''>='', ''85'', 3),
     (''memory_high'', ''Memory Critical'', ''critical'', ''instance.memory_percent'', ''>='', ''95'', 3),
     (''disk_high'', ''Disk High'', ''warning'', ''instance.disk_percent'', ''>='', ''85'', 3),
     (''disk_high'', ''Disk Critical'', ''critical'', ''instance.disk_percent'', ''>='', ''95'', 1),
     (''site_no_instance'', ''All Instances Unavailable'', ''critical'', ''site.online_instances'', ''<='', ''0'', 1),
     (''account_missing'', ''Managed Account Missing'', ''critical'', ''account.remote_exists'', ''=='', ''0'', 1),
     (''account_identity_mismatch'', ''Managed Account Identity Mismatch'', ''critical'', ''account.identity_match'', ''=='', ''0'', 1),
     (''account_disabled'', ''Managed Account Disabled'', ''warning'', ''account.remote_enabled'', ''=='', ''0'', 1),
     (''account_quota_empty'', ''Remote Account Balance Empty'', ''warning'', ''account.quota'', ''<='', ''0'', 1),
     (''channel_balance_low'', ''Channel Balance Low'', ''warning'', ''channel.balance_total'', ''<='', ''100'', 1),
     (''channel_balance_low'', ''Channel Balance Empty'', ''critical'', ''channel.balance_total'', ''<='', ''0'', 1),
     (''channel_response_time_high'', ''Channel Response Time High'', ''warning'', ''channel.response_time_avg_ms'', ''>='', ''1000'', 3),
     (''channel_response_time_high'', ''Channel Response Time Critical'', ''critical'', ''channel.response_time_avg_ms'', ''>='', ''3000'', 1),
     (''channel_availability_low'', ''Channel Availability Low'', ''warning'', ''channel.availability_rate'', ''<='', ''0.90'', 3),
     (''channel_availability_low'', ''Channel Availability Critical'', ''critical'', ''channel.availability_rate'', ''<='', ''0.80'', 1)]"

text \<open>\<^verbatim>\<open>INSERT IGNORE\<close> skips a rule whose scope is taken.\<close>

definition seed_rule :: "int \<Rightarrow> string \<times> string \<times> string \<times> string \<times> string \<times> string \<times> int \<Rightarrow> alert_store \<Rightarrow> alert_store" where
  "seed_rule now seed db =
     (case seed of (key, name, level, metric, operator, threshold, forTimes) \<Rightarrow>
        if list_ex (\<lambda>r. ruRuleKey r = key \<and> ruLevel r = level \<and> ruScopeType r = AlertScopeGlobal \<and> ruScopeID r = 0) (alert_rules db) then db
        else db\<lparr>alert_rules := alert_rules db @ [\<lparr>ruID = next_rule_id db, ruRuleKey = key, ruName = name, ruEnabled = True, ruLevel = level,
               ruMetric = metric, ruCompareOperator = operator, ruThresholdValue = column_text (Some threshold), ruForTimes = forTimes,
               ruScopeType = AlertScopeGlobal, ruScopeID = 0, ruCreatedAt = now, ruUpdatedAt = now\<rparr>],
             next_rule_id := next_rule_id db + 1\<rparr>)"

definition seed_alert_rules :: "int \<Rightarrow> alert_store \<Rightarrow> alert_store" where
  "seed_alert_rules now db = fold (seed_rule now) defaultAlertRules db"

end
