(* ===== verification/Alert_Engine.thy ===== *)
theory Alert_Engine
  imports Alert_Rules
begin

text \<open>
  Evaluation of alert samples (\<^verbatim>\<open>AlertService.Evaluate\<close> in \<^verbatim>\<open>service/alert.go\<close>): validation of a sample, the
  evaluation cursor that recognises repeated samples, and the life of an event from pending through firing to
  resolved, with the notifications that its transitions queue. The digest of the active key and the JSON text of
  a notification snapshot are arguments; parameter maps are kept decoded.
\<close>

section \<open>Samples\<close>

datatype collection_target = TargetNone | TargetHour | TargetRun

record alertRuleContract =
  rcTargetType :: string
  rcMessageCode :: string
  rcCollectionTarget :: collection_target

definition alertRuleContracts :: "(string \<times> alertRuleContract) list" where
  "alertRuleContracts = [
     (''site_offline'', \<lparr>rcTargetType = ''site'', rcMessageCode = ''ALERT_SITE_OFFLINE'', rcCollectionTarget = TargetNone\<rparr>),
     (''site_auth_expired'', \<lparr>rcTargetType = ''site'', rcMessageCode = ''ALERT_AUTH_EXPIRED'', rcCollectionTarget = TargetNone\<rparr>),
     (''site_export_disabled'', \<lparr>rcTargetType = ''site'', rcMessageCode = ''ALERT_EXPORT_DISABLED'', rcCollectionTarget = TargetNone\<rparr>),
     (''collection_missing'', \<lparr>rcTargetType = ''collection'', rcMessageCode = ''ALERT_COLLECTION_MISSING'', rcCollectionTarget = TargetHour\<rparr>),
     (''backfill_failed'', \<lparr>rcTargetType = ''collection'', rcMessageCode = ''ALERT_BACKFILL_FAILED'', rcCollectionTarget = TargetRun\<rparr>),
     (''validation_failed'', \<lparr>rcTargetType = ''collection'', rcMessageCode = ''ALERT_VALIDATION_FAILED'', rcCollectionTarget = TargetHour\<rparr>),
     (''instance_stale'', \<lparr>rcTargetType = ''instance'', rcMessageCode = ''ALERT_INSTANCE_STALE'', rcCollectionTarget = TargetNone\<rparr>),
     (''instance_offline'', \<lparr>rcTargetType = ''instance'', rcMessageCode = ''ALERT_INSTANCE_OFFLINE'', rcCollectionTarget = TargetNone\<rparr>),
     (''site_no_instance'', \<lparr>rcTargetType = ''site'', rcMessageCode = ''ALERT_NO_INSTANCE'', rcCollectionTarget = TargetNone\<rparr>),
     (''cpu_high'', \<lparr>rcTargetType = ''instance'', rcMessageCode = ''ALERT_CPU_HIGH'', rcCollectionTarget = TargetNone\<rparr>),
     (''memory_high'', \<lparr>rcTargetType = ''instance'', rcMessageCode = ''ALERT_MEMORY_HIGH'', rcCollectionTarget = TargetNone\<rparr>),
     (''disk_high'', \<lparr>rcTargetType = ''instance'', rcMessageCode = ''ALERT_DISK_HIGH'', rcCollectionTarget = TargetNone\<rparr>),
     (''account_missing'', \<lparr>rcTargetType = ''account'', rcMessageCode = ''ALERT_ACCOUNT_MISSING'', rcCollectionTarget = TargetNone\<rparr>),
     (''account_identity_mismatch'', \<lparr>rcTargetType = ''account'', rcMessageCode = ''ALERT_ACCOUNT_IDENTITY_MISMATCH'', rcCollectionTarget = TargetNone\<rparr>),
     (''account_disabled'', \<lparr>rcTargetType = ''account'', rcMessageCode = ''ALERT_ACCOUNT_DISABLED'', rcCollectionTarget = TargetNone\<rparr>),
     (''account_quota_empty'', \<lparr>rcTargetType = ''account'', rcMessageCode = ''ALERT_ACCOUNT_QUOTA_EMPTY'', rcCollectionTarget = TargetNone\<rparr>),
     (''channel_balance_low'', \<lparr>rcTargetType = ''site'', rcMessageCode = ''ALERT_CHANNEL_BALANCE_LOW'', rcCollectionTarget = TargetNone\<rparr>),
     (''channel_response_time_high'', \<lparr>rcTargetType = ''site'', rcMessageCode = ''ALERT_CHANNEL_RESPONSE_TIME_HIGH'', rcCollectionTarget = TargetNone\<rparr>),
     (''channel_availability_low'', \<lparr>rcTargetType = ''site'', rcMessageCode = ''ALERT_CHANNEL_AVAILABILITY_LOW'', rcCollectionTarget = TargetNone\<rparr>)]"

abbreviation SampleKnown :: string where "SampleKnown \<equiv> ''known''"
abbreviation SampleUnknown :: string where "SampleUnknown \<equiv> ''unknown''"
abbreviation SampleScopeInactive :: string where "SampleScopeInactive \<equiv> ''scope_inactive''"
abbreviation StatusPending :: string where "StatusPending \<equiv> ''pending''"
abbreviation StatusFiring :: string where "StatusFiring \<equiv> ''firing''"
abbreviation StatusResolved :: string where "StatusResolved \<equiv> ''resolved''"
abbreviation ResolutionRecovered :: string where "ResolutionRecovered \<equiv> ''recovered''"
abbreviation ResolutionRemediated :: string where "ResolutionRemediated \<equiv> ''remediated''"
abbreviation ResolutionRetired :: string where "ResolutionRetired \<equiv> ''retired''"
abbreviation ResolutionSuperseded :: string where "ResolutionSuperseded \<equiv> ''superseded''"

record AlertEvaluation =
  aeRuleKey :: string
  aeSiteID :: "int option"
  aeTargetType :: string
  aeTargetKey :: string
  aeTargetName :: string
  aeState :: string
  aeCurrentValue :: "string option"
  aeTechnicalDetail :: string
  aeScopeType :: string
  aeScopeID :: int
  aeScopeName :: string
  aeSource :: string
  aeRequestID :: string
  aeObservedAt :: int
  aeSampleKey :: string
  aePriorSampleKeys :: "string list"
  aeResolutionReason :: string

record AlertEvaluationResult =
  erEventID :: int
  erStatus :: string
  erLevel :: string
  erTransition :: string

record canonicalAlertTarget =
  ctKey :: string
  ctEntityID :: int

datatype eval_error = EvalInvalid "string list" | EvalRuleNotFound | ErrAlertSampleConflict | EvalClockInvalid
  | EvalMessageInvalid | EvalThresholdInvalid | EvalCursorInvalid | EvalActiveKeyTaken | EvalDelivery delivery_error

definition canonicalID :: "string \<Rightarrow> int option" where
  "canonicalID v = (case ParseInt64 v of None \<Rightarrow> None | Some i \<Rightarrow> if i \<le> 0 \<or> FormatInt i \<noteq> v then None else Some i)"

definition canonicalAlertTargetKey :: "AlertEvaluation \<Rightarrow> alertRuleContract \<Rightarrow> canonicalAlertTarget option" where
  "canonicalAlertTargetKey ev contract =
     (case aeSiteID ev of
        None \<Rightarrow> None
      | Some site \<Rightarrow>
          if site \<le> 0 \<or> aeTargetType ev \<noteq> rcTargetType contract \<or> aeTargetKey ev = [] then None
          else if rcTargetType contract = ''site''
          then (case canonicalID (aeTargetKey ev) of
                  None \<Rightarrow> None
                | Some i \<Rightarrow> if aeTargetKey ev \<noteq> FormatInt site then None else Some \<lparr>ctKey = aeTargetKey ev, ctEntityID = i\<rparr>)
          else if rcTargetType contract = ''account''
          then map_option (\<lambda>i. \<lparr>ctKey = aeTargetKey ev, ctEntityID = i\<rparr>) (canonicalID (aeTargetKey ev))
          else if rcTargetType contract = ''instance'' \<or> rcTargetType contract = ''collection''
          then (case split_once (CHR ''/'') (aeTargetKey ev) of
                  (p, None) \<Rightarrow> None
                | (p, Some name) \<Rightarrow>
                    if name = [] \<or> name \<noteq> TrimSpace name \<or> canonicalID p = None \<or> p \<noteq> FormatInt site then None
                    else if rcTargetType contract = ''instance''
                    then (if ContainsAny name ctl_chars then None else Some \<lparr>ctKey = p @ ''/'' @ name, ctEntityID = 0\<rparr>)
                    else case canonicalID name of
                           None \<Rightarrow> None
                         | Some i \<Rightarrow>
                             if rcCollectionTarget contract = TargetNone
                                \<or> (rcCollectionTarget contract = TargetHour \<and> i > 2 ^ 63 - 1 - 3600) then None
                             else Some \<lparr>ctKey = p @ ''/'' @ name, ctEntityID = i\<rparr>)
          else None)"

text \<open>The fields with an error.\<close>

definition validateAlertEvaluation :: "AlertEvaluation \<Rightarrow> string list" where
  "validateAlertEvaluation ev =
     (case map_of alertRuleContracts (aeRuleKey ev) of
        None \<Rightarrow> [''rule_key'']
      | Some contract \<Rightarrow>
          (if aeRuleKey ev = [] \<or> length (aeRuleKey ev) > 64 then [''rule_key''] else [])
          @ (if aeTargetType ev \<noteq> rcTargetType contract then [''target_type''] else [])
          @ (case aeSiteID ev of None \<Rightarrow> [''site_id''] | Some i \<Rightarrow> if i \<le> 0 then [''site_id''] else [])
          @ (case canonicalAlertTargetKey ev contract of
               None \<Rightarrow> [''target_key'']
             | Some t \<Rightarrow> if length (ctKey t) > 255 \<or> ContainsAny (ctKey t) ctl_chars then [''target_key''] else []))
     @ (if aeState ev \<notin> set [SampleKnown, SampleUnknown, SampleScopeInactive] then [''state''] else [])
     @ (if aeState ev = SampleKnown \<and> aeCurrentValue ev = None then [''current_value''] else [])
     @ (if aeState ev = SampleScopeInactive \<and> aeScopeID ev \<le> 0 then [''scope_id''] else [])
     @ (if aeResolutionReason ev \<noteq> [] \<and> aeResolutionReason ev \<notin> set [ResolutionRecovered, ResolutionRemediated, ResolutionRetired, ResolutionSuperseded]
        then [''resolution_reason''] else [])
     @ (if aeObservedAt ev \<le> 0 then [''observed_at''] else [])
     @ (if aeSampleKey ev = [] \<or> length (aeSampleKey ev) > 255 \<or> TrimSpace (aeSampleKey ev) \<noteq> aeSampleKey ev
           \<or> ContainsAny (aeSampleKey ev) ctl_chars then [''sample_key''] else [])"

section \<open>The cursor\<close>

definition alertEvaluationAlreadyApplied :: "AlertEvaluationCursor option \<Rightarrow> AlertEvaluation \<Rightarrow> eval_error + bool" where
  "alertEvaluationAlreadyApplied cursor ev =
     (case cursor of
        None \<Rightarrow> Inr False
      | Some c \<Rightarrow>
          if aeObservedAt ev > ecLastSampleAt c then Inr False
          else if aeObservedAt ev < ecLastSampleAt c \<or> aeSampleKey ev = ecLastSampleKey c then Inr True
          else Inl ErrAlertSampleConflict)"

definition alertEvaluationIdentityUpgrade :: "AlertEvaluationCursor option \<Rightarrow> AlertEvaluation \<Rightarrow> bool" where
  "alertEvaluationIdentityUpgrade cursor ev =
     (case cursor of
        None \<Rightarrow> False
      | Some c \<Rightarrow> aeObservedAt ev = ecLastSampleAt c \<and> aeSampleKey ev \<noteq> ecLastSampleKey c
          \<and> ecLastSampleKey c \<in> set (aePriorSampleKeys ev))"

definition alertIdentityUpgradeRequiresMutation :: "AlertEvent \<Rightarrow> AlertEvaluation \<Rightarrow> bool" where
  "alertIdentityUpgradeRequiresMutation active ev =
     (if aeState ev = SampleScopeInactive then True
      else if aeState ev \<noteq> SampleKnown then False
      else case (aeCurrentValue ev, evCurrentValue active) of
             (Some n, Some c) \<Rightarrow>
               (case (parseAlertDecimal n True, parseAlertDecimal c True) of
                  (Some (nv, _), Some (cv, _)) \<Rightarrow> nv \<noteq> cv
                | _ \<Rightarrow> True)
           | _ \<Rightarrow> False)"

definition AdvanceEvaluationCursor :: "alert_store \<Rightarrow> AlertEvaluationCursor \<Rightarrow> eval_error + alert_store" where
  "AdvanceEvaluationCursor db c =
     (if ecActiveKey c = [] \<or> ecLastSampleAt c \<le> 0 \<or> ecLastSampleKey c = [] \<or> ecUpdatedAt c \<le> 0 then Inl EvalCursorInvalid
      else Inr (db\<lparr>cursors := update_where (\<lambda>r. ecActiveKey r = ecActiveKey c)
             (\<lambda>r. r\<lparr>ecLastSampleAt := ecLastSampleAt c, ecLastSampleKey := ecLastSampleKey c, ecUpdatedAt := ecUpdatedAt c\<rparr>) (cursors db)\<rparr>))"

definition CreateEvaluationCursor :: "alert_store \<Rightarrow> AlertEvaluationCursor \<Rightarrow> eval_error + alert_store" where
  "CreateEvaluationCursor db c =
     (if ecActiveKey c = [] \<or> ecLastSampleAt c \<le> 0 \<or> ecLastSampleKey c = [] \<or> ecCreatedAt c \<le> 0 \<or> ecUpdatedAt c \<le> 0 then Inl EvalCursorInvalid
      else Inr (db\<lparr>cursors := cursors db @ [c]\<rparr>))"

section \<open>Messages\<close>

fun JoinStrings :: "string list \<Rightarrow> string \<Rightarrow> string" where
  "JoinStrings [] sep = []"
| "JoinStrings [x] sep = x"
| "JoinStrings (x # y # ys) sep = x @ sep @ JoinStrings (y # ys) sep"

definition alertTechnicalDetail :: "AlertEvaluation \<Rightarrow> string" where
  "alertTechnicalDetail ev =
     (let evidence = (if aeSource ev \<noteq> [] then [''source='' @ aeSource ev] else [])
            @ (if aeRequestID ev \<noteq> [] then [''request_id='' @ aeRequestID ev] else [])
      in if evidence = [] then aeTechnicalDetail ev
         else JoinStrings ((if aeTechnicalDetail ev \<noteq> [] then [aeTechnicalDetail ev] else []) @ evidence) ''; '')"

definition alert_params :: "AlertEvaluation \<Rightarrow> alertRuleContract \<Rightarrow> canonicalAlertTarget \<Rightarrow> string \<Rightarrow> string \<Rightarrow> eval_error + message_params" where
  "alert_params ev contract target threshold currentValue =
     (let site = (''site_id'', PString (FormatInt (the (aeSiteID ev))));
          key = aeRuleKey ev;
          hour = [(''start_timestamp'', PInteger (ctEntityID target)), (''end_timestamp'', PInteger (ctEntityID target + 3600))];
          measured = [(''value'', PString currentValue), (''threshold'', PString threshold)]
      in if key \<in> set [''site_offline'', ''site_auth_expired'', ''site_export_disabled'', ''site_no_instance'']
         then Inr [site, (''site_name'', PString (aeTargetName ev))]
         else if key = ''collection_missing'' then Inr (site # hour)
         else if key = ''backfill_failed'' then Inr [site, (''run_id'', PString (FormatInt (ctEntityID target)))]
         else if key = ''validation_failed''
         then (let failureKind = TrimSpace (aeSource ev)
               in if failureKind \<notin> set [''data_mismatch'', ''execution_failed''] then Inl (EvalInvalid [''source''])
                  else Inr (site # hour @ [(''failure_kind'', PString failureKind)]))
         else if key \<in> set [''instance_stale'', ''instance_offline''] then Inr [site, (''instance_name'', PString (aeTargetName ev))]
         else if key \<in> set [''cpu_high'', ''memory_high'', ''disk_high'']
         then Inr ([site, (''target_type'', PString (rcTargetType contract)), (''target_name'', PString (aeTargetName ev))] @ measured)
         else if key \<in> set [''account_missing'', ''account_identity_mismatch'', ''account_disabled'', ''account_quota_empty'']
         then Inr [(''account_id'', PString (FormatInt (ctEntityID target))), (''account_name'', PString (aeTargetName ev)), site]
         else if key \<in> set [''channel_balance_low'', ''channel_response_time_high'', ''channel_availability_low'']
         then Inr ([site, (''site_name'', PString (aeTargetName ev))] @ measured)
         else Inl (EvalInvalid [''rule_key'']))"

definition buildAlertMessage :: "AlertEvaluation \<Rightarrow> alertRuleContract \<Rightarrow> canonicalAlertTarget \<Rightarrow> string \<Rightarrow> string \<Rightarrow> eval_error + MessageRef" where
  "buildAlertMessage ev contract target threshold currentValue =
     and_then (alert_params ev contract target threshold currentValue) (\<lambda>params.
       case NewMessageRef (rcMessageCode contract) params (alertTechnicalDetail ev) of None \<Rightarrow> Inl EvalMessageInvalid | Some m \<Rightarrow> Inr m)"

definition scopeInactiveMessage :: "AlertEvaluation \<Rightarrow> eval_error + MessageRef" where
  "scopeInactiveMessage ev =
     (let scopeType = (if TrimSpace (aeScopeType ev) = [] then aeTargetType ev else TrimSpace (aeScopeType ev));
          scopeName = (if aeScopeName ev = [] then aeTargetName ev else aeScopeName ev)
      in case NewMessageRef ''ALERT_SCOPE_INACTIVE'' [(''scope_type'', PString scopeType),
                (''scope_id'', PString (FormatInt (aeScopeID ev))), (''scope_name'', PString scopeName)] (alertTechnicalDetail ev) of
           None \<Rightarrow> Inl EvalMessageInvalid | Some m \<Rightarrow> Inr m)"

primrec set_param :: "string \<Rightarrow> param_value \<Rightarrow> message_params \<Rightarrow> message_params" where
  "set_param k v [] = []"
| "set_param k v (p # ps) = (if fst p = k then (k, v) else p) # set_param k v ps"

definition updateResolvedAlertEvidence :: "AlertEvaluation \<Rightarrow> AlertEvent \<Rightarrow> string \<Rightarrow> eval_error + AlertEvent" where
  "updateResolvedAlertEvidence ev event currentValue =
     (if evMessageCode event = [] then Inl EvalMessageInvalid
      else let params = (case evMessageParams event of None \<Rightarrow> [] | Some p \<Rightarrow> p);
               valued = set_param ''value'' (PString currentValue) params
           in if map_of valued ''threshold'' \<noteq> None \<and> evThresholdValue event = None then Inl EvalMessageInvalid
              else let full = (case evThresholdValue event of None \<Rightarrow> valued | Some t \<Rightarrow> set_param ''threshold'' (PString t) valued)
                   in case NewMessageRef (evMessageCode event) full (alertTechnicalDetail (ev\<lparr>aeTechnicalDetail := []\<rparr>)) of
                        None \<Rightarrow> Inl EvalMessageInvalid
                      | Some m \<Rightarrow> Inr (event\<lparr>evCurrentValue := Some currentValue, evMessageParams := Some (mrParams m),
                                       evMessage := mrTechnicalDetail m\<rparr>))"

section \<open>Events\<close>

definition alertResolutionReason :: "AlertEvaluation \<Rightarrow> string" where
  "alertResolutionReason ev =
     (if aeResolutionReason ev \<noteq> [] then aeResolutionReason ev
      else if aeRuleKey ev = ''backfill_failed'' then ResolutionRemediated else ResolutionRecovered)"

definition resolveAlertEvent :: "AlertEvent \<Rightarrow> int \<Rightarrow> string \<Rightarrow> AlertEvent" where
  "resolveAlertEvent e now reason = e\<lparr>evStatus := StatusResolved, evActiveKey := None, evResolvedAt := Some now, evUpdatedAt := now,
     evResolutionReason := Some reason\<rparr>"

definition active_event :: "alert_store \<Rightarrow> string \<Rightarrow> AlertEvent option" where
  "active_event db key = find (\<lambda>e. evActiveKey e = Some key) (alert_events db)"

definition save_event :: "alert_store \<Rightarrow> AlertEvent \<Rightarrow> alert_store" where
  "save_event db e = db\<lparr>alert_events := update_where (\<lambda>r. evID r = evID e) (\<lambda>_. e) (alert_events db)\<rparr>"

definition evaluationResult :: "AlertEvent \<Rightarrow> string \<Rightarrow> AlertEvaluationResult" where
  "evaluationResult e transition = \<lparr>erEventID = evID e, erStatus = evStatus e, erLevel = evLevel e, erTransition = transition\<rparr>"

definition plain_result :: "string \<Rightarrow> AlertEvaluationResult" where
  "plain_result transition = \<lparr>erEventID = 0, erStatus = [], erLevel = [], erTransition = transition\<rparr>"

definition report :: "AlertEvent option \<Rightarrow> string \<Rightarrow> AlertEvaluationResult" where
  "report active transition = (case active of None \<Rightarrow> plain_result transition | Some e \<Rightarrow> evaluationResult e transition)"

text \<open>\<open>snapshot_text\<close> is the marshalled snapshot of an event, \<open>decode_json\<close> the JSON decoder of the delivery queue.\<close>

record alert_env =
  digest :: "string \<Rightarrow> string"
  snapshot_text :: "AlertEvent \<Rightarrow> string \<Rightarrow> string"
  decode_json :: "string \<Rightarrow> json option"

definition alertActiveKey :: "alert_env \<Rightarrow> string \<Rightarrow> string \<Rightarrow> string \<Rightarrow> string" where
  "alertActiveKey env ruleKey targetType targetKey =
     ''v1:'' @ digest env (ruleKey @ [char_of (0::nat)] @ targetType @ [char_of (0::nat)] @ targetKey)"

definition enqueueAlertTransition :: "alert_env \<Rightarrow> alert_store \<Rightarrow> AlertEvent \<Rightarrow> string \<Rightarrow> int \<Rightarrow> eval_error + alert_store" where
  "enqueueAlertTransition env db e eventType now =
     (if evLevel e \<noteq> AlertLevelWarning \<and> evLevel e \<noteq> AlertLevelCritical then Inr db
      else if \<not> dingtalk_enabled db then Inr db
      else case EnqueueDelivery (decode_json env) (delivery_queue db) (Some (evID e)) eventType (snapshot_text env e eventType) now of
             Inl err \<Rightarrow> Inl (EvalDelivery err)
           | Inr (queue, _, _) \<Rightarrow> Inr (db\<lparr>delivery_queue := queue\<rparr>))"

definition notify_resolved :: "alert_env \<Rightarrow> alert_store \<Rightarrow> bool \<Rightarrow> AlertEvent \<Rightarrow> int \<Rightarrow> eval_error + alert_store" where
  "notify_resolved env db wasFiring e now =
     (if wasFiring \<and> evResolutionReason e = Some ResolutionRecovered then enqueueAlertTransition env db e EventResolved now else Inr db)"

definition resolve_event :: "alert_env \<Rightarrow> alert_store \<Rightarrow> AlertEvaluation \<Rightarrow> AlertEvent \<Rightarrow> string \<Rightarrow> eval_error + (alert_store \<times> AlertEvent)" where
  "resolve_event env db ev active canonical =
     and_then (updateResolvedAlertEvidence ev active canonical) (\<lambda>updated.
       let resolved = resolveAlertEvent updated (aeObservedAt ev) (alertResolutionReason ev)
       in and_then (notify_resolved env (save_event db resolved) (evStatus active = StatusFiring) resolved (aeObservedAt ev)) (\<lambda>db1.
            Inr (db1, resolved)))"

definition retire_event :: "alert_env \<Rightarrow> alert_store \<Rightarrow> AlertEvaluation \<Rightarrow> AlertEvent \<Rightarrow> eval_error + (alert_store \<times> AlertEvaluationResult)" where
  "retire_event env db ev active =
     and_then (scopeInactiveMessage ev) (\<lambda>m.
       let resolved = (resolveAlertEvent active (aeObservedAt ev) ResolutionRetired)\<lparr>evMessageCode := mrCode m,
             evMessageParams := Some (mrParams m), evMessage := mrTechnicalDetail m\<rparr>
       in and_then (notify_resolved env (save_event db resolved) (evStatus active = StatusFiring) resolved (aeObservedAt ev)) (\<lambda>db1.
            Inr (db1, evaluationResult resolved ''resolved'')))"

text \<open>The active event has the level of the matching rule.\<close>

definition continued :: "AlertEvaluation \<Rightarrow> AlertRule \<Rightarrow> string \<Rightarrow> string \<Rightarrow> MessageRef \<Rightarrow> AlertEvent \<Rightarrow> AlertEvent \<times> string" where
  "continued ev candidate threshold canonical m active =
     (let now = aeObservedAt ev;
          e = active\<lparr>evCurrentValue := Some canonical, evThresholdValue := Some threshold, evUpdatedAt := now,
            evMessageCode := mrCode m, evMessageParams := Some (mrParams m), evMessage := mrTechnicalDetail m\<rparr>
      in if evStatus active = StatusPending
         then (let counted = e\<lparr>evConsecutiveCount := evConsecutiveCount active + 1\<rparr>
               in if evConsecutiveCount counted \<ge> ruForTimes candidate
                  then (counted\<lparr>evStatus := StatusFiring, evFirstFiredAt := Some now, evLastFiredAt := Some now\<rparr>, ''firing'')
                  else (counted, ''pending''))
         else if evStatus active = StatusFiring then (e\<lparr>evLastFiredAt := Some now\<rparr>, ''unchanged'')
         else (e, ''unchanged''))"

definition continue_event :: "alert_env \<Rightarrow> alert_store \<Rightarrow> AlertEvaluation \<Rightarrow> AlertRule \<Rightarrow> string \<Rightarrow> string \<Rightarrow> MessageRef \<Rightarrow> AlertEvent
    \<Rightarrow> eval_error + (alert_store \<times> AlertEvaluationResult)" where
  "continue_event env db ev candidate threshold canonical m active =
     (case continued ev candidate threshold canonical m active of (e, transition) \<Rightarrow>
        and_then (if transition = ''firing'' then enqueueAlertTransition env (save_event db e) e EventFiring (aeObservedAt ev)
                  else Inr (save_event db e)) (\<lambda>db1. Inr (db1, evaluationResult e transition)))"

definition new_event :: "alert_store \<Rightarrow> AlertEvaluation \<Rightarrow> string \<Rightarrow> string \<Rightarrow> AlertRule \<Rightarrow> string \<Rightarrow> string \<Rightarrow> MessageRef \<Rightarrow> AlertEvent" where
  "new_event db ev targetKey key candidate threshold canonical m =
     (let now = aeObservedAt ev; fired = (if ruForTimes candidate \<le> 1 then Some now else None)
      in \<lparr>evID = next_event_id db, evRuleID = ruID candidate, evRuleKey = ruRuleKey candidate, evSiteID = aeSiteID ev,
          evTargetType = aeTargetType ev, evTargetKey = targetKey, evActiveKey = Some key, evLevel = ruLevel candidate,
          evStatus = (if ruForTimes candidate \<le> 1 then StatusFiring else StatusPending), evConsecutiveCount = 1,
          evCurrentValue = Some canonical, evThresholdValue = Some threshold, evMessageCode = mrCode m,
          evMessageParams = Some (mrParams m), evMessage = mrTechnicalDetail m, evFirstObservedAt = now, evFirstFiredAt = fired,
          evLastFiredAt = fired, evResolvedAt = None, evResolutionReason = None, evCreatedAt = now, evUpdatedAt = now\<rparr>)"

definition open_event :: "alert_env \<Rightarrow> alert_store \<Rightarrow> AlertEvaluation \<Rightarrow> string \<Rightarrow> string \<Rightarrow> AlertRule \<Rightarrow> string \<Rightarrow> string \<Rightarrow> MessageRef
    \<Rightarrow> eval_error + (alert_store \<times> AlertEvaluationResult)" where
  "open_event env db ev targetKey key candidate threshold canonical m =
     (let e = new_event db ev targetKey key candidate threshold canonical m;
          transition = (if ruForTimes candidate \<le> 1 then ''firing'' else ''pending'');
          created = db\<lparr>alert_events := alert_events db @ [e], next_event_id := next_event_id db + 1\<rparr>
      in if list_ex (\<lambda>r. evActiveKey r = Some key) (alert_events db) then Inl EvalActiveKeyTaken
         else and_then (if transition = ''firing'' then enqueueAlertTransition env created e EventFiring (aeObservedAt ev) else Inr created)
                (\<lambda>db1. Inr (db1, evaluationResult e transition)))"

definition known_sample :: "alert_env \<Rightarrow> alert_store \<Rightarrow> AlertEvaluation \<Rightarrow> alertRuleContract \<Rightarrow> canonicalAlertTarget \<Rightarrow> string
    \<Rightarrow> AlertRule list \<Rightarrow> AlertEvent option \<Rightarrow> int \<Rightarrow> eval_error + (alert_store \<times> AlertEvaluationResult)" where
  "known_sample env db ev contract target key rules active value =
     (let canonical = FloatString 10 value
      in case matchingAlertRule (effectiveAlertRules rules) value of
           None \<Rightarrow>
             (case active of
                None \<Rightarrow> Inr (db, plain_result ''unchanged'')
              | Some a \<Rightarrow> and_then (resolve_event env db ev a canonical) (\<lambda>(db1, resolved). Inr (db1, evaluationResult resolved ''resolved'')))
         | Some candidate \<Rightarrow>
             (case parseAlertThreshold (the (ruThresholdValue candidate)) True of
                None \<Rightarrow> Inl EvalThresholdInvalid
              | Some (t, _) \<Rightarrow>
                  (let threshold = FloatString 2 t
                   in and_then (buildAlertMessage ev contract target threshold canonical) (\<lambda>m.
                        case active of
                          None \<Rightarrow> open_event env db ev (ctKey target) key candidate threshold canonical m
                        | Some a \<Rightarrow>
                            if evLevel a = ruLevel candidate then continue_event env db ev candidate threshold canonical m a
                            else and_then (resolve_event env db ev a canonical) (\<lambda>(db1, _).
                                   open_event env db1 ev (ctKey target) key candidate threshold canonical m)))))"

definition mutate :: "alert_env \<Rightarrow> alert_store \<Rightarrow> AlertEvaluation \<Rightarrow> alertRuleContract \<Rightarrow> canonicalAlertTarget \<Rightarrow> string
    \<Rightarrow> AlertRule list \<Rightarrow> AlertEvent option \<Rightarrow> eval_error + (alert_store \<times> AlertEvaluationResult)" where
  "mutate env db ev contract target key rules active =
     (if aeState ev = SampleUnknown then Inr (db, report active ''unknown'')
      else if aeState ev = SampleScopeInactive
      then (case active of None \<Rightarrow> Inr (db, plain_result ''unchanged'') | Some a \<Rightarrow> retire_event env db ev a)
      else case parseAlertDecimal (the (aeCurrentValue ev)) True of
             None \<Rightarrow> Inl (EvalInvalid [''current_value''])
           | Some (value, _) \<Rightarrow> known_sample env db ev contract target key rules active value)"

section \<open>Evaluation\<close>

definition normalized :: "AlertEvaluation \<Rightarrow> AlertEvaluation" where
  "normalized ev = ev\<lparr>aeRuleKey := TrimSpace (aeRuleKey ev), aeTargetType := ToLower (TrimSpace (aeTargetType ev)),
     aeTargetKey := TrimSpace (aeTargetKey ev)\<rparr>"

definition find_cursor :: "alert_store \<Rightarrow> string \<Rightarrow> AlertEvaluationCursor option" where
  "find_cursor db key = find (\<lambda>c. ecActiveKey c = key) (cursors db)"

text \<open>The cursor after a sample that is not unknown; \<open>processedAt\<close> is a reading of the clock, in seconds.\<close>

definition finish_sample :: "alert_store \<Rightarrow> AlertEvaluation \<Rightarrow> string \<Rightarrow> AlertEvaluationCursor option \<Rightarrow> int \<Rightarrow> eval_error + alert_store" where
  "finish_sample db ev key cursor processedAt =
     (if aeState ev = SampleUnknown then Inr db
      else if processedAt \<le> 0 then Inl EvalClockInvalid
      else case cursor of
             Some c \<Rightarrow> AdvanceEvaluationCursor db (c\<lparr>ecLastSampleAt := aeObservedAt ev, ecLastSampleKey := aeSampleKey ev, ecUpdatedAt := processedAt\<rparr>)
           | None \<Rightarrow> CreateEvaluationCursor db \<lparr>ecActiveKey = key, ecLastSampleAt = aeObservedAt ev, ecLastSampleKey = aeSampleKey ev,
               ecCreatedAt = processedAt, ecUpdatedAt = processedAt\<rparr>)"

text \<open>Whether the sample was seen: \<open>Inr (db, seen)\<close> with the cursor advanced when only the sample's identity changed.\<close>

definition recognise :: "alert_store \<Rightarrow> AlertEvaluation \<Rightarrow> AlertEvaluationCursor option \<Rightarrow> int \<Rightarrow> eval_error + (alert_store \<times> bool)" where
  "recognise db ev cursor processedAt =
     (if alertEvaluationIdentityUpgrade cursor ev
      then (if processedAt \<le> 0 then Inl EvalClockInvalid
            else and_then (AdvanceEvaluationCursor db ((the cursor)\<lparr>ecLastSampleKey := aeSampleKey ev, ecUpdatedAt := processedAt\<rparr>))
                   (\<lambda>db1. Inr (db1, True)))
      else and_then (alertEvaluationAlreadyApplied cursor ev) (\<lambda>seen. Inr (db, seen)))"

definition evaluate_sample :: "alert_env \<Rightarrow> (nat \<Rightarrow> int) \<Rightarrow> alert_store \<Rightarrow> AlertEvaluation \<Rightarrow> alertRuleContract \<Rightarrow> canonicalAlertTarget
    \<Rightarrow> eval_error + (alert_store \<times> AlertEvaluationResult)" where
  "evaluate_sample env clock db ev contract target =
     (let key = alertActiveKey env (aeRuleKey ev) (aeTargetType ev) (ctKey target);
          rules = LockRulesByKey db (aeRuleKey ev) (case aeSiteID ev of None \<Rightarrow> 0 | Some i \<Rightarrow> i);
          cursor = find_cursor db key;
          active = active_event db key
      in if rules = [] then Inl EvalRuleNotFound
         else and_then (recognise db ev cursor (clock 0)) (\<lambda>(db1, seen).
                if seen \<and> \<not> (case active of None \<Rightarrow> False | Some a \<Rightarrow> alertIdentityUpgradeRequiresMutation a ev)
                then Inr (db1, report active ''duplicate'')
                else and_then (mutate env db1 ev contract target key rules active) (\<lambda>(db2, result).
                       and_then (finish_sample db2 ev key cursor (clock 1)) (\<lambda>db3. Inr (db3, result)))))"

definition Evaluate :: "alert_env \<Rightarrow> (nat \<Rightarrow> int) \<Rightarrow> alert_store \<Rightarrow> AlertEvaluation \<Rightarrow> eval_error + (alert_store \<times> AlertEvaluationResult)" where
  "Evaluate env clock db ev0 =
     (let ev = normalized ev0
      in if validateAlertEvaluation ev \<noteq> [] then Inl (EvalInvalid (validateAlertEvaluation ev))
         else case map_of alertRuleContracts (aeRuleKey ev) of
                None \<Rightarrow> Inl (EvalInvalid [''rule_key''])
              | Some contract \<Rightarrow>
                  (case canonicalAlertTargetKey ev contract of
                     None \<Rightarrow> Inl (EvalInvalid [''target_key''])
                   | Some target \<Rightarrow> evaluate_sample env clock db ev contract target))"

end
