(* ===== verification/Alert_Rule_Properties.thy ===== *)
theory Alert_Rule_Properties
  imports Alert_Rules
begin

text \<open>
  Properties of alert rules: decimal texts round trip, the rules checked when a rule is edited are those used
  when a sample is evaluated, and edits keep the warning and critical levels nested.
\<close>

section \<open>Decimal texts\<close>

definition decimal_text :: "bool \<Rightarrow> string \<Rightarrow> string \<Rightarrow> string" where
  "decimal_text neg whole fraction = (if neg then ''-'' else []) @ whole @ (if fraction = [] then [] else CHR ''.'' # fraction)"

definition decimal_parts :: "string \<Rightarrow> string \<Rightarrow> bool" where
  "decimal_parts whole fraction \<longleftrightarrow> whole \<noteq> [] \<and> (hd whole = CHR ''0'' \<longrightarrow> whole = ''0'') \<and> list_all is_digit whole \<and> list_all is_digit fraction"

lemma is_digit_dot [simp]: "\<not> is_digit (CHR ''.'')" "\<not> is_digit (CHR ''-'')"
  by (simp_all add: is_digit_def)

lemma digits_takeWhile:
  assumes "list_all is_digit ds" "rest = [] \<or> \<not> is_digit (hd rest)"
  shows "takeWhile is_digit (ds @ rest) = ds" "dropWhile is_digit (ds @ rest) = rest"
proof -
  have "\<forall>c \<in> set ds. is_digit c" using assms(1) by (simp add: list_all_iff)
  then have "takeWhile is_digit (ds @ rest) = ds @ takeWhile is_digit rest" "dropWhile is_digit (ds @ rest) = dropWhile is_digit rest"
    by (simp_all add: takeWhile_append2 dropWhile_append2)
  moreover have "takeWhile is_digit rest = []" "dropWhile is_digit rest = rest" using assms(2) by (cases rest; auto)+
  ultimately show "takeWhile is_digit (ds @ rest) = ds" "dropWhile is_digit (ds @ rest) = rest" by simp_all
qed

lemma decimal_match_text:
  assumes "decimal_parts whole fraction" "length fraction \<le> k"
  shows "decimal_match k (decimal_text neg whole fraction) = Some (neg, whole, fraction)"
proof -
  let ?rest = "if fraction = [] then [] else CHR ''.'' # fraction"
  have w: "whole \<noteq> []" "list_all is_digit whole" "list_all is_digit fraction" "hd whole = CHR ''0'' \<longrightarrow> whole = ''0''"
    using assms(1) by (auto simp: decimal_parts_def)
  obtain c cs where c: "whole = c # cs" using w(1) by (cases whole) auto
  then have "c \<noteq> CHR ''-''" using w(2) by (auto simp: is_digit_def)
  then have "prefix ''-'' (decimal_text neg whole fraction) = neg" by (simp add: decimal_text_def c)
  moreover have "(if neg then tl (decimal_text neg whole fraction) else decimal_text neg whole fraction) = whole @ ?rest"
    by (simp add: decimal_text_def)
  moreover have "takeWhile is_digit (whole @ ?rest) = whole" "dropWhile is_digit (whole @ ?rest) = ?rest"
    using digits_takeWhile [OF w(2), of ?rest] by auto
  ultimately show ?thesis using w assms(2) by (simp add: decimal_match_def Let_def list_all_iff)
qed

lemma decimal_match_Some:
  assumes "decimal_match k s = Some (neg, whole, fraction)"
  shows "s = decimal_text neg whole fraction" "decimal_parts whole fraction" "length fraction \<le> k"
proof -
  define body where "body = (if prefix ''-'' s then tl s else s)"
  define rest where "rest = dropWhile is_digit body"
  have f: "neg = prefix ''-'' s" "whole = takeWhile is_digit body" "whole \<noteq> []" "hd whole = CHR ''0'' \<longrightarrow> whole = ''0''"
    "(rest = [] \<and> fraction = []) \<or> (rest \<noteq> [] \<and> hd rest = CHR ''.'' \<and> fraction = tl rest \<and> tl rest \<noteq> []
       \<and> length (tl rest) \<le> k \<and> list_all is_digit (tl rest))"
    using assms unfolding decimal_match_def Let_def body_def [symmetric] rest_def [symmetric] by (auto split: if_split_asm)
  have "s = (if neg then ''-'' else []) @ body" using f(1) by (auto simp: prefix_def body_def)
  moreover have "body = whole @ rest" using f(2) by (simp add: rest_def)
  moreover have "rest = (if fraction = [] then [] else CHR ''.'' # fraction)"
    using f(5) by (cases rest) auto
  ultimately show "s = decimal_text neg whole fraction" by (simp add: decimal_text_def)
  have "list_all is_digit whole" unfolding f(2) list_all_iff by (auto dest: set_takeWhileD)
  then show "decimal_parts whole fraction" using f(3-5) by (auto simp: decimal_parts_def)
  show "length fraction \<le> k" using f(5) by auto
qed

text \<open>No text of digits, signs and dots has white space to trim.\<close>

definition decimal_char :: "char \<Rightarrow> bool" where
  "decimal_char c \<longleftrightarrow> is_digit c \<or> c = CHR ''.'' \<or> c = CHR ''-''"

lemma strip_front_same: "(\<And>p. p \<in> set ps \<Longrightarrow> p \<noteq> [] \<Longrightarrow> \<not> prefix p s) \<Longrightarrow> strip_front ps s = s"
  by (subst strip_front_code) (auto simp: list_ex_iff)

lemma go_spaces_ends: "p \<in> set go_spaces \<Longrightarrow> p \<noteq> [] \<and> \<not> decimal_char (hd p) \<and> \<not> decimal_char (last p)"
  unfolding go_spaces_code by (auto simp: decimal_char_def is_digit_def)

lemma TrimSpace_decimal:
  assumes "list_all decimal_char s"
  shows "TrimSpace s = s"
proof -
  have "\<not> prefix p s" if "p \<in> set go_spaces" for p
    using go_spaces_ends [OF that] assms by (cases p) (auto simp: prefix_def)
  then have front: "strip_front go_spaces s = s" by (intro strip_front_same) auto
  have "\<not> prefix (rev p) (rev s)" if "p \<in> set go_spaces" for p
  proof
    assume "prefix (rev p) (rev s)"
    then have "suffix p s" by (simp add: suffix_to_prefix)
    then have "last p \<in> set s" using go_spaces_ends [OF that] by (auto simp: suffix_def)
    then show False using assms go_spaces_ends [OF that] by (auto simp: list_all_iff)
  qed
  then have "strip_front (map rev go_spaces) (rev s) = rev s" by (intro strip_front_same) auto
  then show ?thesis by (simp add: TrimSpace_def front)
qed

lemma TrimSpace_decimal_text: "decimal_parts whole fraction \<Longrightarrow> TrimSpace (decimal_text neg whole fraction) = decimal_text neg whole fraction"
  by (rule TrimSpace_decimal) (auto simp: decimal_text_def decimal_parts_def decimal_char_def list_all_iff)

section \<open>Values\<close>

lemma digits_int_append: "digits_int (a @ b) = digits_int a * 10 ^ length b + digits_int b"
proof (induction b rule: rev_induct)
  case (snoc c b)
  have "digits_int (x @ [c]) = 10 * digits_int x + int (digit_value c)" for x by (simp add: digits_int_def)
  from this [of "a @ b"] this [of b] snoc show ?case by simp
qed (simp add: digits_int_def)

lemma digits_int_zeros: "digits_int (replicate n (CHR ''0'')) = 0"
  by (induction n) (simp_all add: digits_int_def digit_value_def)

lemma digits_int_value: "digits_int s = int (digits_value s)"
  by (induction s rule: rev_induct) (simp_all add: digits_int_def digits_value_def)

lemma digits_int_nonneg: "0 \<le> digits_int s"
  by (simp add: digits_int_value)

lemma TrimRight1_split: "\<exists>n. s = TrimRight1 s c @ replicate n c"
proof -
  have "rev s = takeWhile (\<lambda>x. x = c) (rev s) @ dropWhile (\<lambda>x. x = c) (rev s)" by simp
  moreover have "takeWhile (\<lambda>x. x = c) (rev s) = replicate (length (takeWhile (\<lambda>x. x = c) (rev s))) c"
    by (metis (mono_tags, lifting) replicate_length_same set_takeWhileD)
  ultimately have "rev s = replicate (length (takeWhile (\<lambda>x. x = c) (rev s))) c @ rev (TrimRight1 s c)"
    unfolding TrimRight1_def by (metis rev_rev_ident)
  then have "s = TrimRight1 s c @ replicate (length (takeWhile (\<lambda>x. x = c) (rev s))) c"
    by (metis rev_append rev_replicate rev_rev_ident)
  then show ?thesis by blast
qed

lemma TrimRight1_last: "TrimRight1 s c \<noteq> [] \<Longrightarrow> last (TrimRight1 s c) \<noteq> c"
  unfolding TrimRight1_def by (metis (mono_tags, lifting) hd_dropWhile last_rev rev_is_Nil_conv)

lemma TrimRight1_again [simp]: "TrimRight1 (TrimRight1 s c) c = TrimRight1 s c"
  by (simp add: TrimRight1_def)

lemma decimal_value_trim:
  assumes "length fraction \<le> 10"
  shows "decimal_value neg whole (TrimRight1 fraction (CHR ''0'')) = decimal_value neg whole fraction"
proof -
  obtain n where n: "fraction = TrimRight1 fraction (CHR ''0'') @ replicate n (CHR ''0'')" using TrimRight1_split by blast
  let ?t = "TrimRight1 fraction (CHR ''0'')"
  have len: "length fraction = length ?t + n" by (metis n length_append length_replicate)
  have "digits_int fraction = digits_int ?t * 10 ^ n" by (metis n digits_int_append digits_int_zeros add.right_neutral length_replicate)
  moreover have "10 - length ?t = (10 - length fraction) + n" using len assms by simp
  ultimately show ?thesis by (simp add: decimal_value_def Let_def power_add)
qed

lemma decimal_parts_trim: "decimal_parts whole fraction \<Longrightarrow> decimal_parts whole (TrimRight1 fraction c)"
  using TrimRight1_split [of fraction c] unfolding decimal_parts_def by (metis list_all_append)

section \<open>Round trips\<close>

lemma TrimSuffix_dot:
  assumes "t = [] \<or> last t \<noteq> CHR ''.''"
  shows "TrimSuffix (w @ ''.'' @ t) ''.'' = w @ (if t = [] then [] else CHR ''.'' # t)"
proof (cases "t = []")
  case False
  then have "\<not> suffix ''.'' (w @ ''.'' @ t)" using assms
    by (metis append_is_Nil_conv last_append last_snoc suffix_def)
  then show ?thesis using False by (simp add: TrimSuffix_def)
qed (simp add: TrimSuffix_def suffix_def)

definition canonical_text :: "bool \<Rightarrow> string \<Rightarrow> string \<Rightarrow> string" where
  "canonical_text neg whole fraction =
     (if decimal_value neg whole fraction = 0 then ''0'' else decimal_text neg whole (TrimRight1 fraction (CHR ''0'')))"

lemma parseAlertDecimal_text:
  assumes "decimal_parts whole fraction" "length fraction \<le> 10" "length whole \<le> 20"
    and "allowNegative \<or> 0 \<le> decimal_value neg whole fraction"
  shows "parseAlertDecimal (decimal_text neg whole fraction) allowNegative = Some (decimal_value neg whole fraction, canonical_text neg whole fraction)"
proof -
  let ?t = "TrimRight1 fraction (CHR ''0'')"
  have "list_all is_digit ?t" using decimal_parts_trim [OF assms(1)] by (simp add: decimal_parts_def)
  then have "?t = [] \<or> last ?t \<noteq> CHR ''.''" using is_digit_dot(1) by (metis last_in_set list_all_iff)
  then have "TrimSuffix ((if neg then ''-'' else []) @ whole @ ''.'' @ ?t) ''.'' = decimal_text neg whole ?t"
    using TrimSuffix_dot [of ?t "(if neg then ''-'' else []) @ whole"] by (simp add: decimal_text_def)
  moreover have "TrimRight1 [] (CHR ''0'') = []" by (simp add: TrimRight1_def)
  ultimately show ?thesis
    using assms by (auto simp: parseAlertDecimal_def TrimSpace_decimal_text decimal_match_text canonical_text_def Let_def)
qed

lemma parseAlertDecimal_Some:
  assumes "parseAlertDecimal raw allowNegative = Some (v, c)"
  obtains neg whole fraction where "raw = decimal_text neg whole fraction" "decimal_parts whole fraction" "length fraction \<le> 10"
    "length whole \<le> 20" "v = decimal_value neg whole fraction" "c = canonical_text neg whole fraction" "allowNegative \<or> 0 \<le> v"
proof -
  from assms obtain neg whole fraction where m: "decimal_match 10 raw = Some (neg, whole, fraction)" and l: "length whole \<le> 20"
    and n: "allowNegative \<or> 0 \<le> decimal_value neg whole fraction"
    by (auto simp: parseAlertDecimal_def Let_def split: if_split_asm option.split_asm)
  note f = decimal_match_Some [OF m]
  have "v = decimal_value neg whole fraction" "c = canonical_text neg whole fraction"
    using assms parseAlertDecimal_text [OF f(2,3) l n] f(1) by simp_all
  then show thesis using that f l n by blast
qed

lemma decimal_parts_zero: "decimal_parts ''0'' []" "decimal_text False ''0'' [] = ''0''" "decimal_value False ''0'' [] = 0"
  by (simp_all add: decimal_parts_def decimal_text_def decimal_value_def digits_int_def digit_value_def is_digit_def)

lemma canonical_again:
  assumes "parseAlertDecimal raw allowNegative = Some (v, c)"
  shows "parseAlertDecimal c allowNegative = Some (v, c)"
proof -
  obtain neg whole fraction where f: "decimal_parts whole fraction" "length fraction \<le> 10" "length whole \<le> 20"
    "v = decimal_value neg whole fraction" "c = canonical_text neg whole fraction" "allowNegative \<or> 0 \<le> v"
    using assms by (elim parseAlertDecimal_Some)
  show ?thesis
  proof (cases "v = 0")
    case True
    then show ?thesis using f parseAlertDecimal_text [OF decimal_parts_zero(1), of allowNegative False]
      by (simp add: decimal_parts_zero canonical_text_def)
  next
    case False
    let ?t = "TrimRight1 fraction (CHR ''0'')"
    have "length ?t \<le> length fraction" using TrimRight1_split by (metis le_add1 length_append)
    then have "parseAlertDecimal (decimal_text neg whole ?t) allowNegative = Some (decimal_value neg whole ?t, canonical_text neg whole ?t)"
      using f by (intro parseAlertDecimal_text) (simp_all add: decimal_parts_trim decimal_value_trim)
    then show ?thesis using False f by (simp add: canonical_text_def decimal_value_trim)
  qed
qed

lemma int_div_less:
  fixes a b c :: int
  assumes "0 < b" "a < c * b"
  shows "a div b < c"
proof (rule ccontr)
  assume "\<not> a div b < c"
  then have "c * b \<le> (a div b) * b" using assms(1) by simp
  also have "\<dots> \<le> a" using assms(1) by (metis add.commute div_mult_mod_eq le_add_same_cancel1 pos_mod_sign)
  finally show False using assms(2) by simp
qed

lemma pad_digits_all:
  "0 \<le> x \<Longrightarrow> x < 10 ^ k \<Longrightarrow> length (pad_digits k x) = k \<and> list_all is_digit (pad_digits k x) \<and> digits_int (pad_digits k x) = x"
proof (induction k arbitrary: x)
  case (Suc k)
  have x: "0 \<le> x div 10" "x div 10 < 10 ^ k" using Suc.prems by (auto intro: int_div_less)
  have d: "nat (x mod 10) < 10" by (simp add: nat_less_iff)
  have one: "digits_int [digit_char (nat (x mod 10))] = x mod 10" using digit_char_facts(2) [OF d] by (simp add: digits_int_def)
  show ?case using Suc.IH [OF x] digit_char_facts(1) [OF d] by (simp add: digits_int_append one)
qed (simp add: digits_int_def)

lemmas pad_digits_facts = pad_digits_all [THEN conjunct1] pad_digits_all [THEN conjunct2, THEN conjunct1]
  pad_digits_all [THEN conjunct2, THEN conjunct2]

lemma show_nat_leading: "hd (show_nat n) = CHR ''0'' \<Longrightarrow> n = 0"
proof (induction n rule: show_nat.induct)
  case (1 n)
  show ?case
  proof (cases "n < 10")
    case True
    then show ?thesis using 1(2) less_10_cases [OF True] by (auto simp: show_nat.simps [of n] digit_char_def)
  next
    case False
    then have "hd (show_nat (n div 10)) = CHR ''0''" using 1(2) by (simp add: show_nat.simps [of n])
    then show ?thesis using 1(1) False by simp
  qed
qed

lemma show_nat_length: "n < 10 ^ k \<Longrightarrow> 0 < k \<Longrightarrow> length (show_nat n) \<le> k"
proof (induction n arbitrary: k rule: show_nat.induct)
  case (1 n)
  show ?case
  proof (cases "n < 10")
    case False
    have "k \<noteq> 1" using False 1(2) by auto
    then obtain j where j: "k = Suc j" "0 < j" using 1(3) by (cases k) auto
    then have "n div 10 < 10 ^ j" using 1(2) by (simp add: less_mult_imp_div_less mult.commute)
    then show ?thesis using 1(1) [OF False, of j] j False by (simp add: show_nat.simps [of n])
  qed (use 1(3) in \<open>simp add: show_nat.simps [of n]\<close>)
qed

lemma FloatString_text:
  assumes "k \<le> 10"
  shows "FloatString k v = (if v < 0 then ''-'' else []) @ show_nat (nat (abs v div decimal_scale)) @ CHR ''.''
    # pad_digits k (abs v mod decimal_scale div 10 ^ (10 - k))"
  by (simp add: FloatString_def FormatInt_def decimal_scale_def pos_imp_zdiv_nonneg_iff not_less [symmetric])

lemma FloatString_parse:
  assumes k: "0 < k" "k \<le> 10" and v: "abs v < 10 ^ 30" "v mod 10 ^ (10 - k) = 0"
  shows "decimal_match k (FloatString k v) = Some (v < 0, show_nat (nat (abs v div decimal_scale)), pad_digits k (abs v mod decimal_scale div 10 ^ (10 - k)))"
    "\<exists>c. parseAlertDecimal (FloatString k v) True = Some (v, c)"
proof -
  let ?w = "show_nat (nat (abs v div decimal_scale))" and ?x = "abs v mod decimal_scale div 10 ^ (10 - k)"
  let ?f = "pad_digits k ?x"
  have s: "decimal_scale = 10 ^ k * 10 ^ (10 - k)" using k by (simp add: decimal_scale_def power_add [symmetric])
  have "abs v mod decimal_scale < 10 ^ k * 10 ^ (10 - k)" unfolding s [symmetric] by (simp add: decimal_scale_def)
  then have x: "?x < 10 ^ k" by (intro int_div_less) simp_all
  have x0: "0 \<le> ?x" by (simp add: pos_imp_zdiv_nonneg_iff decimal_scale_def)
  note f = pad_digits_facts [OF x0 x]
  have "abs v div decimal_scale < 10 ^ 20" using v(1) by (intro int_div_less) (simp_all add: decimal_scale_def)
  then have "nat (abs v div decimal_scale) < 10 ^ 20" by (simp add: nat_less_iff decimal_scale_def)
  then have l: "length ?w \<le> 20" by (rule show_nat_length) simp
  have parts: "decimal_parts ?w ?f"
    using show_nat_leading [of "nat (abs v div decimal_scale)"] show_nat_digits f(2)
    by (auto simp: decimal_parts_def show_nat.simps [of 0] digit_char_def)
  have tx: "FloatString k v = decimal_text (v < 0) ?w ?f"
    using f(1) k by (auto simp: FloatString_text decimal_text_def)
  show "decimal_match k (FloatString k v) = Some (v < 0, ?w, ?f)" unfolding tx using decimal_match_text [OF parts] f(1) by simp
  have "digits_int ?w = abs v div decimal_scale" by (simp add: digits_int_value decimal_scale_def)
  moreover have "?x * 10 ^ (10 - k) = abs v mod decimal_scale"
  proof -
    have "(10::int) ^ (10 - k) dvd v" using v(2) by (simp add: dvd_eq_mod_eq_0)
    then have "(10::int) ^ (10 - k) dvd abs v mod decimal_scale" by (simp add: s dvd_mod)
    then show ?thesis by simp
  qed
  ultimately have "decimal_value (v < 0) ?w ?f = v"
    using f(1,3) by (simp add: decimal_value_def Let_def)
  then show "\<exists>c. parseAlertDecimal (FloatString k v) True = Some (v, c)"
    unfolding tx using parseAlertDecimal_text [OF parts, of True "v < 0"] f(1) k l by simp
qed

lemma digits_value_bound: "list_all is_digit s \<Longrightarrow> digits_value s < 10 ^ length s"
proof (induction s rule: rev_induct)
  case (snoc c s)
  have "digit_value c < 10" using snoc.prems by (auto simp: is_digit_def digit_value_def)
  then show ?case using snoc by (simp add: digits_value_snoc)
qed (simp add: digits_value_def)

lemma parsed_bound:
  assumes "parseAlertDecimal raw allowNegative = Some (v, c)"
  shows "abs v < 10 ^ 30"
proof -
  obtain neg whole fraction where f: "decimal_parts whole fraction" "length fraction \<le> 10" "length whole \<le> 20"
    "v = decimal_value neg whole fraction" using assms by (elim parseAlertDecimal_Some)
  have "digits_value whole < 10 ^ length whole" "digits_value fraction < 10 ^ length fraction"
    using f(1) digits_value_bound by (auto simp: decimal_parts_def)
  moreover have "(10::nat) ^ length whole \<le> 10 ^ 20" using f(3) by (intro power_increasing) simp_all
  ultimately have w: "digits_value whole < 10 ^ 20" and x: "digits_value fraction < 10 ^ length fraction" by linarith+
  have "digits_value fraction * 10 ^ (10 - length fraction) < 10 ^ length fraction * 10 ^ (10 - length fraction)" using x by simp
  also have "\<dots> = 10 ^ 10" using f(2) by (simp add: power_add [symmetric])
  finally have "int (digits_value fraction * 10 ^ (10 - length fraction)) < int (10 ^ 10)" by (simp only: of_nat_less_iff)
  moreover have "int (digits_value whole) < 10 ^ 20" using w by simp
  ultimately have "int (digits_value whole) * decimal_scale + int (digits_value fraction) * 10 ^ (10 - length fraction) < 10 ^ 30"
    by (simp add: decimal_scale_def)
  moreover define m where "m = int (digits_value whole) * decimal_scale + int (digits_value fraction) * 10 ^ (10 - length fraction)"
  moreover have "0 \<le> m" by (simp add: m_def decimal_scale_def)
  moreover have "v = (if neg then - m else m)" by (simp add: f(4) m_def decimal_value_def Let_def digits_int_value)
  ultimately show ?thesis by (cases neg) simp_all
qed

text \<open>
  Decimal texts round trip: the canonical text of a decimal parses to the same value and is its own
  canonical text, and the ten-digit text in which a value is stored with an event parses to that value.
\<close>

theorem decimal_texts_round_trip:
  assumes "parseAlertDecimal raw allowNegative = Some (v, c)"
  shows "parseAlertDecimal c allowNegative = Some (v, c) \<and> (\<exists>d. parseAlertDecimal (FloatString 10 v) True = Some (v, d))"
proof
  show "parseAlertDecimal c allowNegative = Some (v, c)" using canonical_again [OF assms] .
  show "\<exists>d. parseAlertDecimal (FloatString 10 v) True = Some (v, d)"
    using FloatString_parse(2) [of 10 v] parsed_bound [OF assms] by simp
qed

theorem decimal_texts_round_trip_witness: "parseAlertDecimal ''-3.5'' True = Some (- 35000000000, ''-3.5'')"
proof -
  have "parseAlertDecimal ''-3.50'' True = Some (- 35000000000, ''-3.5'')" by code_simp
  from decimal_texts_round_trip [OF this] show ?thesis by simp
qed

section \<open>Effective rules\<close>

definition site_rule :: "int \<Rightarrow> string \<Rightarrow> AlertRule \<Rightarrow> bool" where
  "site_rule s l r \<longleftrightarrow> ruScopeType r = AlertScopeSite \<and> ruScopeID r = s \<and> ruLevel r = l"

definition global_rule :: "string \<Rightarrow> AlertRule \<Rightarrow> bool" where
  "global_rule l r \<longleftrightarrow> ruScopeType r = AlertScopeGlobal \<and> ruScopeID r = 0 \<and> ruLevel r = l"

lemma fold_update_last:
  "fold (\<lambda>r m. if P r then m(ruLevel r \<mapsto> r) else m) rules m0 l
     = (if filter (\<lambda>r. P r \<and> ruLevel r = l) rules = [] then m0 l else Some (last (filter (\<lambda>r. P r \<and> ruLevel r = l) rules)))"
  by (induction rules rule: rev_induct) auto

lemma effective_char:
  "effectiveAlertRulesForSite rules s l =
     (if 0 < s \<and> filter (site_rule s l) rules \<noteq> [] then Some (last (filter (site_rule s l) rules))
      else if filter (global_rule l) rules \<noteq> [] then Some (last (filter (global_rule l) rules)) else None)"
  unfolding effectiveAlertRulesForSite_def Let_def fold_update_last site_rule_def global_rule_def
  by (simp add: fold_update_last conj_assoc)

lemma find_hd: "find P xs = (if filter P xs = [] then None else Some (hd (filter P xs)))"
  by (rule find_filter)

lemma prefer_site_fold:
  assumes "\<And>r. r \<in> set rules \<Longrightarrow> ruScopeType r \<in> {AlertScopeGlobal, AlertScopeSite}"
  shows "fold prefer_site rules Map.empty l =
    (case find (\<lambda>r. ruScopeType r = AlertScopeSite \<and> ruLevel r = l) rules of
       Some r \<Rightarrow> Some r | None \<Rightarrow> find (\<lambda>r. ruLevel r = l) rules)"
  using assms
proof (induction rules arbitrary: l rule: rev_induct)
  case (snoc r rules)
  have snoc_find: "find P (rules @ [r]) = (case find P rules of None \<Rightarrow> if P r then Some r else None | Some y \<Rightarrow> Some y)" for P
    by (induction rules) auto
  have sc: "ruScopeType r = AlertScopeGlobal \<or> ruScopeType r = AlertScopeSite" using snoc.prems [of r] by simp
  have IH: "fold prefer_site rules Map.empty l = (case find (\<lambda>r. ruScopeType r = AlertScopeSite \<and> ruLevel r = l) rules of
       Some r \<Rightarrow> Some r | None \<Rightarrow> find (\<lambda>r. ruLevel r = l) rules)" for l using snoc by simp
  have glob: "ruScopeType c = AlertScopeGlobal"
    if "find (\<lambda>r. ruScopeType r = AlertScopeSite \<and> ruLevel r = l) rules = None" "find (\<lambda>r. ruLevel r = l) rules = Some c" for c l
  proof -
    have "c \<in> set rules" "ruLevel c = l" using that(2) by (auto simp: find_Some_iff)
    then show ?thesis using that(1) snoc.prems [of c] by (auto simp: find_None_iff)
  qed
  have site: "ruScopeType c = AlertScopeSite" if "find (\<lambda>r. ruScopeType r = AlertScopeSite \<and> ruLevel r = l) rules = Some c" for c l
    using that by (auto simp: find_Some_iff)
  define m where "m = fold prefer_site rules Map.empty"
  have step: "fold prefer_site (rules @ [r]) Map.empty = prefer_site r m" by (simp add: m_def)
  show ?case unfolding step
  proof (cases "ruLevel r = l")
    case True
    show "prefer_site r m l = (case find (\<lambda>r. ruScopeType r = AlertScopeSite \<and> ruLevel r = l) (rules @ [r]) of
       Some r \<Rightarrow> Some r | None \<Rightarrow> find (\<lambda>r. ruLevel r = l) (rules @ [r]))"
    proof (cases "find (\<lambda>r. ruScopeType r = AlertScopeSite \<and> ruLevel r = l) rules")
      case (Some c)
      then have "m l = Some c" "ruScopeType c = AlertScopeSite" using IH [of l] site by (simp_all add: m_def)
      then show ?thesis using True Some by (simp add: prefer_site_def snoc_find)
    next
      case none: None
      show ?thesis
      proof (cases "find (\<lambda>r. ruLevel r = l) rules")
        case None
        then have "m l = None" using IH [of l] none by (simp add: m_def)
        then show ?thesis using True None none by (simp add: prefer_site_def snoc_find)
      next
        case (Some c)
        then have "m l = Some c" "ruScopeType c = AlertScopeGlobal" using IH [of l] none glob [OF none] by (simp_all add: m_def)
        then show ?thesis using True Some none sc by (auto simp: prefer_site_def snoc_find)
      qed
    qed
  next
    case False
    then have "prefer_site r m l = m l" by (simp add: prefer_site_def split: option.split)
    then show "prefer_site r m l = (case find (\<lambda>r. ruScopeType r = AlertScopeSite \<and> ruLevel r = l) (rules @ [r]) of
       Some r \<Rightarrow> Some r | None \<Rightarrow> find (\<lambda>r. ruLevel r = l) (rules @ [r]))"
      using False IH [of l] by (simp add: m_def snoc_find split: option.split)
  qed
qed simp

definition scope_key :: "AlertRule \<Rightarrow> string \<times> string \<times> string \<times> int" where
  "scope_key r = (ruRuleKey r, ruLevel r, ruScopeType r, ruScopeID r)"

lemma distinct_filter_single:
  assumes "distinct (map f xs)" "\<And>x y. x \<in> set xs \<Longrightarrow> y \<in> set xs \<Longrightarrow> P x \<Longrightarrow> P y \<Longrightarrow> f x = f y"
  shows "length (filter P xs) \<le> 1"
  using assms
proof (induction xs)
  case (Cons a xs)
  show ?case
  proof (cases "P a")
    case True
    have "\<not> P y" if "y \<in> set xs" for y
    proof
      assume "P y"
      then have "f a = f y" using Cons.prems(2) [of a y] True that by simp
      then show False using Cons.prems(1) that by simp
    qed
    then have "filter P xs = []" by (simp add: filter_empty_conv)
    then show ?thesis by simp
  next
    case False
    then show ?thesis using Cons by simp
  qed
qed simp

lemma single_last_hd: "length xs \<le> 1 \<Longrightarrow> xs \<noteq> [] \<Longrightarrow> last xs = hd xs"
  by (cases xs) auto

lemma agree:
  assumes "distinct (map scope_key (alert_rules db))" and "0 < siteID"
  shows "effectiveAlertRules (LockRulesByKey db key siteID) = effectiveAlertRulesForSite (LockAllRulesByKey db key) siteID"
proof
  fix l
  let ?all = "LockAllRulesByKey db key" and ?own = "LockRulesByKey db key siteID"
  let ?Q = "\<lambda>r. (ruScopeType r = AlertScopeGlobal \<and> ruScopeID r = 0) \<or> (ruScopeType r = AlertScopeSite \<and> ruScopeID r = siteID)"
  have own: "?own = filter ?Q ?all"
    unfolding LockRulesByKey_def LockAllRulesByKey_def filter_sort by (simp add: conj_commute)
  have key: "\<And>r. r \<in> set ?all \<Longrightarrow> ruRuleKey r = key" by (simp add: LockAllRulesByKey_def)
  have "distinct (map scope_key ?all)" using assms(1) by (auto simp: LockAllRulesByKey_def distinct_map inj_on_def)
  note single = distinct_filter_single [OF this]
  have "length (filter (site_rule siteID l) ?all) \<le> 1" "length (filter (global_rule l) ?all) \<le> 1"
    by (rule single; simp add: site_rule_def global_rule_def scope_key_def key)+
  then have one: "filter (site_rule siteID l) ?all \<noteq> [] \<Longrightarrow> last (filter (site_rule siteID l) ?all) = hd (filter (site_rule siteID l) ?all)"
    "filter (global_rule l) ?all \<noteq> [] \<Longrightarrow> last (filter (global_rule l) ?all) = hd (filter (global_rule l) ?all)"
    by (auto intro: single_last_hd)
  have sorted: "sort_key ruID ?own = ?own" by (rule sort_key_id_if_sorted) (simp add: LockRulesByKey_def)
  have s: "filter (\<lambda>r. ruScopeType r = AlertScopeSite \<and> ruLevel r = l) ?own = filter (site_rule siteID l) ?all"
    unfolding own filter_filter by (rule filter_cong) (auto simp: site_rule_def)
  have g: "filter (\<lambda>r. ruLevel r = l) ?own = filter (global_rule l) ?all" if "filter (site_rule siteID l) ?all = []"
    unfolding own filter_filter using that by (intro filter_cong) (auto simp: site_rule_def global_rule_def filter_empty_conv)
  have "effectiveAlertRules ?own l = (case find (\<lambda>r. ruScopeType r = AlertScopeSite \<and> ruLevel r = l) ?own of
      Some r \<Rightarrow> Some r | None \<Rightarrow> find (\<lambda>r. ruLevel r = l) ?own)"
    unfolding effectiveAlertRules_def sorted by (rule prefer_site_fold) (auto simp: LockRulesByKey_def)
  then show "effectiveAlertRules ?own l = effectiveAlertRulesForSite ?all siteID l"
    unfolding effective_char find_hd s using g one assms(2) by (auto split: option.split)
qed

text \<open>
  C40. The rules that an edit checks for a site are those that the evaluation of its samples uses: the two
  computations of the effective rules agree on every table with unique scopes.
\<close>

theorem effective_rules_agree:
  assumes "distinct (map scope_key (alert_rules db))" and "0 < siteID"
  shows "effectiveAlertRules (LockRulesByKey db key siteID) = effectiveAlertRulesForSite (LockAllRulesByKey db key) siteID"
  using agree [OF assms] .

section \<open>Nested levels\<close>

text \<open>What the check of a pair reads of a rule, and rules that are the same in that respect.\<close>

definition rule_view :: "AlertRule \<Rightarrow> string \<times> int option option" where
  "rule_view r = (ruCompareOperator r, map_option (\<lambda>t. map_option fst (parseAlertThreshold t True)) (ruThresholdValue r))"

definition same_view :: "AlertRule \<Rightarrow> AlertRule \<Rightarrow> bool" where
  "same_view a b \<longleftrightarrow> ruLevel a = ruLevel b \<and> ruScopeType a = ruScopeType b \<and> ruScopeID a = ruScopeID b \<and> rule_view a = rule_view b"

definition pair_ok :: "(string \<times> int option option) option \<Rightarrow> (string \<times> int option option) option \<Rightarrow> bool" where
  "pair_ok w c = (case (w, c) of
     (Some (wo, Some wt), Some (co, Some ct)) \<Rightarrow>
       (case (wt, ct) of
          (Some wv, Some cv) \<Rightarrow> wo = co \<and> ((wo = ''>='' \<and> wv < cv) \<or> (wo = ''<='' \<and> wv > cv) \<or> (wo = ''=='' \<and> wv = cv))
        | _ \<Rightarrow> False)
   | _ \<Rightarrow> True)"

lemma valid_pair_view:
  "validEffectiveAlertPair m = pair_ok (map_option rule_view (m AlertLevelWarning)) (map_option rule_view (m AlertLevelCritical))"
  by (auto simp: validEffectiveAlertPair_def pair_ok_def rule_view_def split: option.split prod.split)

lemma list_all2_filter_last:
  assumes "list_all2 R xs ys" "\<And>x y. R x y \<Longrightarrow> P x = P y"
  shows "list_all2 R (filter P xs) (filter P ys)"
  using assms(1) by (induction rule: list_all2_induct) (auto simp: assms(2))

lemma list_all2_last: "list_all2 R xs ys \<Longrightarrow> xs \<noteq> [] \<Longrightarrow> R (last xs) (last ys)"
  by (induction rule: list_all2_induct) auto

lemma effective_same_view:
  assumes "list_all2 same_view xs ys"
  shows "map_option rule_view (effectiveAlertRulesForSite xs s l) = map_option rule_view (effectiveAlertRulesForSite ys s l)"
proof -
  have f: "list_all2 same_view (filter (site_rule s l) xs) (filter (site_rule s l) ys)"
    "list_all2 same_view (filter (global_rule l) xs) (filter (global_rule l) ys)"
    by (rule list_all2_filter_last [OF assms], simp add: same_view_def site_rule_def global_rule_def)+
  then have "(filter (site_rule s l) xs = []) = (filter (site_rule s l) ys = [])"
    "(filter (global_rule l) xs = []) = (filter (global_rule l) ys = [])"
    by (metis list_all2_Nil list_all2_Nil2)+
  then show ?thesis
    using list_all2_last [OF f(1)] list_all2_last [OF f(2)] unfolding effective_char by (auto simp: same_view_def)
qed

lemma pairs_same_view:
  assumes "list_all2 same_view xs ys"
  shows "validEffectiveAlertPair (effectiveAlertRulesForSite xs s) = validEffectiveAlertPair (effectiveAlertRulesForSite ys s)"
  unfolding valid_pair_view by (simp add: effective_same_view [OF assms])

lemma effective_other_site:
  assumes "s \<notin> set (site_scopes rules)"
  shows "effectiveAlertRulesForSite rules s = effectiveAlertRulesForSite rules 0"
proof
  fix l
  have "filter (site_rule s l) rules = []" if "0 < s"
    using assms that by (auto simp: site_scopes_def site_rule_def filter_empty_conv)
  then show "effectiveAlertRulesForSite rules s l = effectiveAlertRulesForSite rules 0 l" unfolding effective_char by auto
qed

lemma validated_everywhere:
  assumes "list_all (\<lambda>s. validEffectiveAlertPair (effectiveAlertRulesForSite rules s)) (site_scopes rules)"
  shows "validEffectiveAlertPair (effectiveAlertRulesForSite rules s)"
proof (cases "s \<in> set (site_scopes rules)")
  case True
  then show ?thesis using assms by (simp add: list_all_iff)
next
  case False
  have "0 \<in> set (site_scopes rules)" by (simp add: site_scopes_def)
  then show ?thesis using assms effective_other_site [OF False] by (simp add: list_all_iff)
qed

lemma threshold_scaled:
  assumes "parseAlertThreshold t n = Some (v, c)"
  shows "v mod 10 ^ 8 = 0" "abs v < 10 ^ 30"
proof -
  have p: "parseAlertDecimal t n = Some (v, c)" and m: "decimal_match 2 t \<noteq> None"
    using assms by (auto simp: parseAlertThreshold_def split: if_split_asm)
  show "abs v < 10 ^ 30" using parsed_bound [OF p] .
  obtain neg whole fraction where f: "t = decimal_text neg whole fraction" "decimal_parts whole fraction" "length fraction \<le> 10"
    "v = decimal_value neg whole fraction" using p by (elim parseAlertDecimal_Some)
  obtain neg' whole' fraction' where m': "decimal_match 2 t = Some (neg', whole', fraction')" using m by auto
  note d = decimal_match_Some [OF m']
  have "decimal_match 10 t = Some (neg, whole, fraction)" unfolding f(1) by (rule decimal_match_text [OF f(2,3)])
  moreover have "decimal_match 10 t = Some (neg', whole', fraction')" unfolding d(1) by (rule decimal_match_text [OF d(2)]) (use d(3) in simp)
  ultimately have "length fraction \<le> 2" using d(3) by simp
  then have "(10::int) ^ 8 dvd 10 ^ (10 - length fraction)" by (intro le_imp_power_dvd) simp
  moreover have "(10::int) ^ 8 dvd decimal_scale" by (simp add: decimal_scale_def)
  ultimately have "(10::int) ^ 8 dvd v" by (simp add: f(4) decimal_value_def Let_def)
  then show "v mod 10 ^ 8 = 0" by simp
qed

lemma column_text_value:
  "map_option (\<lambda>t. map_option fst (parseAlertThreshold t True)) (column_text x) = map_option (\<lambda>t. map_option fst (parseAlertThreshold t True)) x"
proof (cases x)
  case (Some t)
  show ?thesis
  proof (cases "parseAlertThreshold t True")
    case p: (Some vc)
    obtain v c where vc: "vc = (v, c)" by force
    have s: "abs v < 10 ^ 30" "v mod 10 ^ (10 - 2) = 0" using threshold_scaled p vc by auto
    have m: "decimal_match 2 (FloatString 2 v) \<noteq> None" using FloatString_parse(1) [of 2 v] s by auto
    then obtain d e f where "decimal_match 2 (FloatString 2 v) = Some (d, e, f)" by auto
    then have "TrimSpace (FloatString 2 v) = FloatString 2 v"
      using decimal_match_Some TrimSpace_decimal_text by metis
    then have "\<exists>c. parseAlertThreshold (FloatString 2 v) True = Some (v, c)"
      using FloatString_parse(2) [of 2 v] s m by (auto simp: parseAlertThreshold_def)
    then show ?thesis using Some p vc by (auto simp: column_text_def)
  qed (simp add: Some column_text_def)
qed (simp add: column_text_def)

lemma stored_same_view: "same_view (stored_rule r) r"
  by (simp add: same_view_def stored_rule_def rule_view_def column_text_value)

section \<open>Edits\<close>

definition rules_ok :: "alert_store \<Rightarrow> bool" where
  "rules_ok db \<longleftrightarrow> distinct (map ruID (alert_rules db)) \<and> (\<forall>r \<in> set (alert_rules db). ruID r < next_rule_id db)
     \<and> distinct (map scope_key (alert_rules db))
     \<and> (\<forall>key s. validEffectiveAlertPair (effectiveAlertRulesForSite (LockAllRulesByKey db key) s))"

inductive rule_edit :: "alert_store \<Rightarrow> alert_store \<Rightarrow> bool" where
  update: "UpdateRule db i q now = Inr (db', r) \<Longrightarrow> rule_edit db db'"
| override: "CreateOverride db base site q now = Inr (db', i) \<Longrightarrow> rule_edit db db'"

lemma list_all2_maps: "(\<And>x. x \<in> set xs \<Longrightarrow> R (f x) (h x)) \<Longrightarrow> list_all2 R (map f xs) (map h xs)"
  by (induction xs) auto

lemma insort_key_map: "(\<And>x. k (f x) = k x) \<Longrightarrow> insort_key k (f x) (map f xs) = map f (insort_key k x xs)"
  by (induction xs) auto

lemma sort_key_map: "(\<And>x. k (f x) = k x) \<Longrightarrow> sort_key k (map f xs) = map f (sort_key k xs)"
  by (induction xs) (auto simp: insort_key_map)

lemma replace_first_unique:
  assumes "distinct (map f xs)" "x \<in> set xs" "P x" "\<And>y. P y \<Longrightarrow> f y = f x"
  shows "replace_first P z xs = map (\<lambda>y. if f y = f x then z else y) xs"
  using assms(1,2)
proof (induction xs)
  case (Cons a xs)
  show ?case
  proof (cases "P a")
    case True
    then have a: "f a = f x" using assms(4) by blast
    then have "map (\<lambda>y. if f y = f x then z else y) xs = xs"
      using Cons.prems(1) by (intro map_idI) (metis distinct.simps(2) image_eqI list.set_map list.simps(9))
    then show ?thesis using True a by simp
  next
    case False
    then have "a \<noteq> x" using assms(3) by blast
    then have x: "x \<in> set xs" using Cons.prems(2) by simp
    then have "f a \<noteq> f x" using Cons.prems(1) by (metis distinct.simps(2) image_eqI list.set_map list.simps(9))
    then show ?thesis using False Cons x by simp
  qed
qed simp

lemma replace_first_none: "(\<And>y. y \<in> set xs \<Longrightarrow> \<not> P y) \<Longrightarrow> replace_first P z xs = xs @ [z]"
  by (induction xs) auto

lemma set_LockAll [simp]: "set (LockAllRulesByKey db key) = {r \<in> set (alert_rules db). ruRuleKey r = key}"
  by (auto simp: LockAllRulesByKey_def)

lemma same_id: "distinct (map ruID xs) \<Longrightarrow> a \<in> set xs \<Longrightarrow> b \<in> set xs \<Longrightarrow> ruID a = ruID b \<Longrightarrow> a = b"
  by (simp add: distinct_map inj_on_def)

lemma find_by_id: "find (\<lambda>r. ruID r = i) xs = Some r \<Longrightarrow> r \<in> set xs \<and> ruID r = i"
  by (auto simp: find_Some_iff)

lemma find_live: "find (live_rule i) xs = Some r \<Longrightarrow> r \<in> set xs \<and> ruID r = i"
  by (auto simp: find_Some_iff live_rule_def)

lemma UpdateRule_Inr:
  assumes "UpdateRule db i q now = Inr (db', r)"
  obtains target patch where "target \<in> set (alert_rules db)" "ruID target = i"
    "validateAlertPairs (LockAllRulesByKey db (ruRuleKey target)) target patch"
    "db' = db\<lparr>alert_rules := update_where (\<lambda>r. ruID r = i) (\<lambda>r. stored_rule (applyAlertPatch r patch)) (alert_rules db)\<rparr>"
proof -
  from assms obtain unlocked target patch errs where u: "find (live_rule i) (alert_rules db) = Some unlocked"
    "find (\<lambda>r. ruID r = i) (LockAllRulesByKey db (ruRuleKey unlocked)) = Some target"
    and v: "validateAlertPairs (LockAllRulesByKey db (ruRuleKey unlocked)) target patch"
    "db' = db\<lparr>alert_rules := update_where (\<lambda>r. ruID r = i) (\<lambda>r. stored_rule (applyAlertPatch r patch)) (alert_rules db)\<rparr>"
    unfolding UpdateRule_def Let_def by (auto split: if_split_asm option.split_asm prod.split_asm)
  have "target \<in> set (alert_rules db)" "ruID target = i" "ruRuleKey target = ruRuleKey unlocked" using find_by_id [OF u(2)] by simp_all
  then show thesis using that v by simp
qed

lemma apply_patch_same [simp]:
  "ruID (applyAlertPatch r p) = ruID r" "ruRuleKey (applyAlertPatch r p) = ruRuleKey r" "ruLevel (applyAlertPatch r p) = ruLevel r"
  "ruScopeType (applyAlertPatch r p) = ruScopeType r" "ruScopeID (applyAlertPatch r p) = ruScopeID r"
  "ruID (stored_rule r) = ruID r" "ruRuleKey (stored_rule r) = ruRuleKey r" "ruLevel (stored_rule r) = ruLevel r"
  "ruScopeType (stored_rule r) = ruScopeType r" "ruScopeID (stored_rule r) = ruScopeID r"
  by (simp_all add: applyAlertPatch_def stored_rule_def)

lemma update_rules_ok:
  assumes ok: "rules_ok db" and t: "target \<in> set (alert_rules db)"
    and v: "validateAlertPairs (LockAllRulesByKey db (ruRuleKey target)) target patch"
    and db': "db' = db\<lparr>alert_rules := update_where (\<lambda>r. ruID r = ruID target) (\<lambda>r. stored_rule (applyAlertPatch r patch)) (alert_rules db)\<rparr>"
  shows "rules_ok db'"
proof -
  define g where "g r = (if ruID r = ruID target then stored_rule (applyAlertPatch r patch) else r)" for r
  have g: "ruID (g r) = ruID r" "ruRuleKey (g r) = ruRuleKey r" "scope_key (g r) = scope_key r" for r
    by (simp_all add: g_def scope_key_def)
  have rules: "alert_rules db' = map g (alert_rules db)" by (simp add: db' update_where_def g_def [abs_def])
  have ids: "distinct (map ruID (alert_rules db))" using ok by (simp add: rules_ok_def)
  have all: "LockAllRulesByKey db' key = map g (LockAllRulesByKey db key)" for key
    unfolding LockAllRulesByKey_def rules by (simp add: filter_map comp_def g sort_key_map)
  have "validEffectiveAlertPair (effectiveAlertRulesForSite (LockAllRulesByKey db' key) s)" for key s
  proof (cases "key = ruRuleKey target")
    case False
    then have "g r = r" if "r \<in> set (LockAllRulesByKey db key)" for r
      using that same_id [OF ids _ t, of r] by (auto simp: g_def)
    then have "map g (LockAllRulesByKey db key) = LockAllRulesByKey db key" by (intro map_idI)
    then show ?thesis using ok all by (simp add: rules_ok_def)
  next
    case True
    let ?all = "LockAllRulesByKey db key"
    let ?new = "replace_first (same_rule target) (applyAlertPatch target patch) ?all"
    have "distinct (map ruID ?all)" using ids by (auto simp: LockAllRulesByKey_def distinct_map inj_on_def)
    then have new: "?new = map (\<lambda>r. if ruID r = ruID target then applyAlertPatch target patch else r) ?all"
      by (rule replace_first_unique) (use t True in \<open>auto simp: same_rule_def\<close>)
    have "same_view (g r) (if ruID r = ruID target then applyAlertPatch target patch else r)" if "r \<in> set ?all" for r
    proof (cases "ruID r = ruID target")
      case True
      then have "r = target" using same_id [OF ids, of r target] that t by simp
      then show ?thesis using stored_same_view by (simp add: g_def)
    qed (simp add: g_def same_view_def)
    then have "list_all2 same_view (map g ?all) ?new" unfolding new by (rule list_all2_maps)
    moreover have "validEffectiveAlertPair (effectiveAlertRulesForSite ?new s)"
      using v True by (intro validated_everywhere) (simp add: validateAlertPairs_def Let_def)
    ultimately show ?thesis unfolding all by (simp add: pairs_same_view)
  qed
  moreover have "map ruID (alert_rules db') = map ruID (alert_rules db)" "map scope_key (alert_rules db') = map scope_key (alert_rules db)"
    unfolding rules by (simp_all add: g)
  moreover have "\<forall>r \<in> set (alert_rules db'). ruID r < next_rule_id db'"
    using ok unfolding rules by (simp add: g rules_ok_def db')
  ultimately show ?thesis using ok by (simp add: rules_ok_def)
qed

lemma CreateOverride_Inr:
  assumes "CreateOverride db baseText siteText q now = Inr (db', i)" "distinct (map ruID (alert_rules db))"
  obtains base siteID patch where "base \<in> set (alert_rules db)" "ruScopeType base = AlertScopeGlobal"
    "\<And>r. r \<in> set (alert_rules db) \<Longrightarrow> ruRuleKey r = ruRuleKey base \<Longrightarrow> ruLevel r = ruLevel base
       \<Longrightarrow> ruScopeType r = AlertScopeSite \<Longrightarrow> ruScopeID r \<noteq> siteID"
    "validateAlertPairs (LockAllRulesByKey db (ruRuleKey base)) (base\<lparr>ruScopeType := AlertScopeSite, ruScopeID := siteID\<rparr>) patch"
    "db' = db\<lparr>alert_rules := alert_rules db @ [override_rule db base siteID now patch], next_rule_id := next_rule_id db + 1\<rparr>"
proof -
  let ?b = "the (ParseInt64 baseText)" and ?s = "the (ParseInt64 siteText)"
  from assms(1) obtain base locked patch where b: "find (live_rule ?b) (alert_rules db) = Some base" "ruScopeType base = AlertScopeGlobal"
    and l: "find (\<lambda>r. ruID r = ?b) (LockAllRulesByKey db (ruRuleKey base)) = Some locked"
    and e: "\<not> list_ex (\<lambda>r. ruRuleKey r = ruRuleKey locked \<and> ruLevel r = ruLevel locked
      \<and> ruScopeType r = AlertScopeSite \<and> ruScopeID r = ?s) (alert_rules db)"
    and v: "validateAlertPairs (LockAllRulesByKey db (ruRuleKey base)) (locked\<lparr>ruScopeType := AlertScopeSite, ruScopeID := ?s\<rparr>) patch"
    and db': "db' = db\<lparr>alert_rules := alert_rules db @ [override_rule db locked ?s now patch], next_rule_id := next_rule_id db + 1\<rparr>"
    unfolding CreateOverride_def Let_def by (auto split: if_split_asm option.split_asm prod.split_asm)
  have "locked = base" using find_by_id [OF l] find_live [OF b(1)] same_id [OF assms(2)] by auto
  then show thesis using that [of base ?s patch] find_live [OF b(1)] b(2) e v db' by (auto simp: list_ex_iff)
qed

lemma sort_key_snoc:
  assumes "\<And>y. y \<in> set xs \<Longrightarrow> k y < k x"
  shows "sort_key k (xs @ [x]) = sort_key k xs @ [x]"
  using assms
proof (induction xs)
  case (Cons a xs)
  have "insort_key k a (zs @ [x]) = insort_key k a zs @ [x]" for zs
    using Cons.prems [of a] by (induction zs) auto
  then show ?case using Cons by simp
qed simp

lemma override_rules_ok:
  assumes ok: "rules_ok db" and b: "base \<in> set (alert_rules db)" "ruScopeType base = AlertScopeGlobal"
    and fresh: "\<And>r. r \<in> set (alert_rules db) \<Longrightarrow> ruRuleKey r = ruRuleKey base \<Longrightarrow> ruLevel r = ruLevel base
       \<Longrightarrow> ruScopeType r = AlertScopeSite \<Longrightarrow> ruScopeID r \<noteq> siteID"
    and v: "validateAlertPairs (LockAllRulesByKey db (ruRuleKey base)) (base\<lparr>ruScopeType := AlertScopeSite, ruScopeID := siteID\<rparr>) patch"
    and db': "db' = db\<lparr>alert_rules := alert_rules db @ [override_rule db base siteID now patch], next_rule_id := next_rule_id db + 1\<rparr>"
  shows "rules_ok db'"
proof -
  define new where "new = override_rule db base siteID now patch"
  have n: "ruID new = next_rule_id db" "ruRuleKey new = ruRuleKey base" "ruScopeType new = AlertScopeSite" "ruScopeID new = siteID"
    "ruLevel new = ruLevel base" by (simp_all add: new_def override_rule_def)
  have rules: "alert_rules db' = alert_rules db @ [new]" by (simp add: db' new_def)
  have less: "\<And>r. r \<in> set (alert_rules db) \<Longrightarrow> ruID r < ruID new" using ok n(1) by (simp add: rules_ok_def)
  have "validEffectiveAlertPair (effectiveAlertRulesForSite (LockAllRulesByKey db' key) s)" for key s
  proof (cases "key = ruRuleKey base")
    case False
    then have "LockAllRulesByKey db' key = LockAllRulesByKey db key" by (simp add: LockAllRulesByKey_def rules n(2))
    then show ?thesis using ok by (simp add: rules_ok_def)
  next
    case True
    let ?all = "LockAllRulesByKey db key" and ?h = "base\<lparr>ruScopeType := AlertScopeSite, ruScopeID := siteID\<rparr>"
    have all: "LockAllRulesByKey db' key = ?all @ [new]"
      unfolding LockAllRulesByKey_def rules using True n(2)
      by (simp, intro sort_key_snoc) (use less in simp)
    have "\<not> same_rule ?h r" if "r \<in> set ?all" for r
      using that b same_id [of "alert_rules db" r base] ok by (auto simp: same_rule_def rules_ok_def)
    then have upd: "replace_first (same_rule ?h) (applyAlertPatch ?h patch) ?all = ?all @ [applyAlertPatch ?h patch]"
      by (rule replace_first_none)
    have "validEffectiveAlertPair (effectiveAlertRulesForSite (?all @ [applyAlertPatch ?h patch]) s)"
      using v True upd by (intro validated_everywhere) (simp add: validateAlertPairs_def Let_def)
    moreover have "same_view new (applyAlertPatch ?h patch)"
      using column_text_value by (simp add: new_def override_rule_def same_view_def applyAlertPatch_def rule_view_def split: option.split)
    then have "list_all2 same_view (?all @ [new]) (?all @ [applyAlertPatch ?h patch])"
      by (auto intro!: list_all2_appendI list.rel_refl simp: same_view_def)
    ultimately show ?thesis unfolding all by (simp add: pairs_same_view)
  qed
  moreover have "scope_key r \<noteq> scope_key new" if "r \<in> set (alert_rules db)" for r
    using fresh [OF that] n by (auto simp: scope_key_def)
  then have "scope_key new \<notin> scope_key ` set (alert_rules db)" by force
  moreover have "ruID new \<notin> ruID ` set (alert_rules db)" using less by force
  moreover have "next_rule_id db' = ruID new + 1" by (simp add: db' n(1))
  ultimately show ?thesis using ok less unfolding rules_ok_def rules by (auto simp: n(1) intro: less_trans)
qed

lemma rule_edit_ok: "rule_edit db db' \<Longrightarrow> rules_ok db \<Longrightarrow> rules_ok db'"
proof (induction rule: rule_edit.induct)
  case (update db i q now db' r)
  from update(1) obtain target patch where t: "target \<in> set (alert_rules db)" "ruID target = i"
    "validateAlertPairs (LockAllRulesByKey db (ruRuleKey target)) target patch"
    "db' = db\<lparr>alert_rules := update_where (\<lambda>r. ruID r = i) (\<lambda>r. stored_rule (applyAlertPatch r patch)) (alert_rules db)\<rparr>"
    by (rule UpdateRule_Inr)
  then show ?case using update_rules_ok [OF update(2) t(1,3)] by simp
next
  case (override db base site q now db' i)
  have "distinct (map ruID (alert_rules db))" using override(2) by (simp add: rules_ok_def)
  from override(1) this show ?case by (rule CreateOverride_Inr) (rule override_rules_ok [OF override(2)])
qed

text \<open>A table without overrides whose pairs are consistent, as the schema installs it.\<close>

definition rules_seeded :: "alert_store \<Rightarrow> bool" where
  "rules_seeded db \<longleftrightarrow> distinct (map ruID (alert_rules db)) \<and> list_all (\<lambda>r. ruID r < next_rule_id db \<and> ruScopeType r = AlertScopeGlobal) (alert_rules db)
     \<and> distinct (map scope_key (alert_rules db))
     \<and> list_all (\<lambda>r. validEffectiveAlertPair (effectiveAlertRulesForSite (LockAllRulesByKey db (ruRuleKey r)) 0)) (alert_rules db)"

lemma seeded_ok:
  assumes "rules_seeded db"
  shows "rules_ok db"
proof -
  have "validEffectiveAlertPair (effectiveAlertRulesForSite (LockAllRulesByKey db key) s)" for key s
  proof -
    let ?all = "LockAllRulesByKey db key"
    have "filter (site_rule s l) ?all = []" for l using assms by (auto simp: rules_seeded_def site_rule_def filter_empty_conv list_all_iff)
    then have zero: "effectiveAlertRulesForSite ?all s = effectiveAlertRulesForSite ?all 0" unfolding effective_char fun_eq_iff by simp
    show ?thesis
    proof (cases ?all)
      case Nil
      then show ?thesis unfolding zero by (simp add: validEffectiveAlertPair_def effective_char)
    next
      case (Cons r rs)
      then have "r \<in> set (alert_rules db)" "ruRuleKey r = key" using set_LockAll [of db key] by auto
      then show ?thesis unfolding zero using assms by (auto simp: rules_seeded_def list_all_iff)
    qed
  qed
  then show ?thesis using assms by (auto simp: rules_seeded_def rules_ok_def list_all_iff)
qed

interpretation rule_edits: invariant_system rules_seeded rule_edit rules_ok
proof unfold_locales
  show "rules_seeded db \<Longrightarrow> rules_ok db" for db by (rule seeded_ok)
  show "rules_ok db \<Longrightarrow> rule_edit db db' \<Longrightarrow> rules_ok db'" for db db' by (rule rule_edit_ok)
qed

lemma nested_match:
  assumes "validEffectiveAlertPair m" "m AlertLevelWarning = Some w" "m AlertLevelCritical = Some c" "ruThresholdValue w \<noteq> None"
    and "rule_matches c v"
  shows "rule_matches w v"
  using assms by (auto simp: validEffectiveAlertPair_def rule_matches_def split: option.split_asm prod.split_asm if_split_asm)


section \<open>Samples\<close>

definition empty_alert_store :: "int list \<Rightarrow> alert_store" where
  "empty_alert_store known = \<lparr>alert_rules = [], next_rule_id = 1, site_ids = known, alert_events = [], next_event_id = 1, cursors = [],
     dingtalk_enabled = True, delivery_queue = \<lparr>deliveries = [], next_delivery_id = 1\<rparr>\<rparr>"

definition sample_rules :: alert_store where
  "sample_rules = fold (seed_rule 100) (filter (\<lambda>s. fst s = ''cpu_high'') defaultAlertRules) (empty_alert_store [7])"

lemma sample_rules_seeded: "rules_seeded sample_rules"
  by code_simp

theorem effective_rules_agree_witness:
  "effectiveAlertRules (LockRulesByKey sample_rules ''cpu_high'' 7) = effectiveAlertRulesForSite (LockAllRulesByKey sample_rules ''cpu_high'') 7"
proof -
  have "distinct (map scope_key (alert_rules sample_rules))" by code_simp
  then show ?thesis by (rule effective_rules_agree) simp
qed


text \<open>
  Deleting an override is not checked: with both levels overridden for a site, deleting the warning override
  leaves a critical threshold below the warning one, so a value can be critical without being a warning.
\<close>

definition threshold_edit :: "string \<Rightarrow> AlertRuleUpdateRequest" where
  "threshold_edit t = \<lparr>uqEnabled = None, uqThresholdValue = Some t, uqForTimes = None\<rparr>"

definition sample_overrides :: alert_store where
  "sample_overrides =
     (let db1 = fst (projr (CreateOverride sample_rules ''1'' ''7'' (threshold_edit ''60'') 200))
      in fst (projr (CreateOverride db1 ''2'' ''7'' (threshold_edit ''70'') 201)))"

theorem deleted_override_unnests_levels:
  "(case DeleteOverride sample_overrides 3 of
      Inl _ \<Rightarrow> False
    | Inr db \<Rightarrow> \<not> validEffectiveAlertPair (effectiveAlertRulesForSite (LockAllRulesByKey db ''cpu_high'') 7)
        \<and> validEffectiveAlertPair (effectiveAlertRulesForSite (LockAllRulesByKey sample_overrides ''cpu_high'') 7)
        \<and> map_option ruLevel (matchingAlertRule (effectiveAlertRules (LockRulesByKey db ''cpu_high'' 7)) 750000000000) = Some AlertLevelCritical)"
  by code_simp

end
