(* ===== verification/Alert_Lifecycle.thy ===== *)
theory Alert_Lifecycle
  imports Alert_Engine Alert_Rule_Properties Delivery_Properties
begin

text \<open>
  The life of alert events under evaluation: what each branch of an evaluation does to events, cursors and the
  delivery queue, the invariant of the alert tables, and the lemmas on repeated samples and on queued notifications.
\<close>

section \<open>Well-formed events\<close>

definition event_ok :: "AlertEvent \<Rightarrow> bool" where
  "event_ok e \<longleftrightarrow> 1 \<le> evConsecutiveCount e
     \<and> ((evStatus e = StatusPending \<and> evActiveKey e \<noteq> None \<and> evFirstFiredAt e = None)
      \<or> (evStatus e = StatusFiring \<and> evActiveKey e \<noteq> None \<and> evFirstFiredAt e \<noteq> None)
      \<or> (evStatus e = StatusResolved \<and> evActiveKey e = None \<and> evResolvedAt e \<noteq> None \<and> evResolutionReason e \<noteq> None))"

text \<open>At most one event is active for a key.\<close>

definition unique_active :: "AlertEvent set \<Rightarrow> bool" where
  "unique_active E \<longleftrightarrow> (\<forall>e \<in> E. \<forall>f \<in> E. evActiveKey e = evActiveKey f \<and> evActiveKey e \<noteq> None \<longrightarrow> e = f)"

definition events_ok :: "alert_store \<Rightarrow> bool" where
  "events_ok db \<longleftrightarrow> 1 \<le> next_event_id db \<and> distinct (map evID (alert_events db))
     \<and> (\<forall>e \<in> set (alert_events db). 1 \<le> evID e \<and> evID e < next_event_id db \<and> event_ok e)
     \<and> unique_active (set (alert_events db)) \<and> distinct (map ecActiveKey (cursors db))"

lemma active_event_Some: "active_event db key = Some a \<Longrightarrow> a \<in> set (alert_events db) \<and> evActiveKey a = Some key"
  by (auto simp: active_event_def find_Some_iff)

lemma active_event_None: "active_event db key = None \<longleftrightarrow> (\<forall>e \<in> set (alert_events db). evActiveKey e \<noteq> Some key)"
  by (auto simp: active_event_def find_None_iff)

lemma set_save: "set (alert_events (save_event db e)) = (\<lambda>r. if evID r = evID e then e else r) ` set (alert_events db)"
  by (auto simp: save_event_def update_where_def)

lemma save_member:
  assumes "events_ok db" "a \<in> set (alert_events db)" "evID e = evID a"
  shows "set (alert_events (save_event db e)) = insert e (set (alert_events db) - {a})"
proof -
  have "r = a" if "r \<in> set (alert_events db)" "evID r = evID a" for r
    using assms(1,2) that by (auto simp: events_ok_def distinct_map inj_on_def)
  then show ?thesis using assms(2,3) unfolding set_save by auto
qed

lemma unique_active_replace:
  assumes u: "unique_active E" "a \<in> E" and e: "evActiveKey e = None \<or> evActiveKey e = evActiveKey a"
  shows "unique_active (insert e (E - {a}))"
  unfolding unique_active_def
proof (intro ballI impI)
  fix f g assume fg: "f \<in> insert e (E - {a})" "g \<in> insert e (E - {a})" and k: "evActiveKey f = evActiveKey g \<and> evActiveKey f \<noteq> None"
  have other: False if "h \<in> E - {a}" "evActiveKey h = evActiveKey e" "evActiveKey h \<noteq> None" for h
    using u that e unfolding unique_active_def by (metis DiffE singletonI)
  consider "f = e" "g = e" | "f = e" "g \<in> E - {a}" | "g = e" "f \<in> E - {a}" | "f \<in> E" "g \<in> E" using fg by blast
  then show "f = g"
  proof cases
    case 2
    then show ?thesis using other [of g] k by metis
  next
    case 3
    then show ?thesis using other [of f] k by metis
  next
    case 4
    then show ?thesis using u(1) k unfolding unique_active_def by blast
  qed simp
qed

lemma save_event_ok:
  assumes ok: "events_ok db" and a: "a \<in> set (alert_events db)" "evID e = evID a"
    and e: "event_ok e" "evActiveKey e = None \<or> evActiveKey e = evActiveKey a"
  shows "events_ok (save_event db e)"
proof -
  have ids: "map evID (alert_events (save_event db e)) = map evID (alert_events db)"
    by (simp add: save_event_def update_where_def)
  have rest: "next_event_id (save_event db e) = next_event_id db" "cursors (save_event db e) = cursors db"
    by (simp_all add: save_event_def)
  have u: "unique_active (insert e (set (alert_events db) - {a}))"
    using ok a(1) e(2) by (intro unique_active_replace) (simp_all add: events_ok_def)
  have each: "1 \<le> evID x \<and> evID x < next_event_id db \<and> event_ok x" if "x \<in> insert e (set (alert_events db) - {a})" for x
    using that ok a e(1) by (auto simp: events_ok_def)
  show ?thesis
    using ok u each by (simp only: events_ok_def save_member [OF ok a] ids rest) blast
qed

lemma append_event_ok:
  assumes ok: "events_ok db" and e: "evID e = next_event_id db" "event_ok e" "evActiveKey e = Some key"
    and free: "\<not> list_ex (\<lambda>r. evActiveKey r = Some key) (alert_events db)"
  shows "events_ok (db\<lparr>alert_events := alert_events db @ [e], next_event_id := next_event_id db + 1\<rparr>)"
proof -
  have "next_event_id db \<notin> evID ` set (alert_events db)" using ok by (auto simp: events_ok_def)
  moreover have "unique_active (insert e (set (alert_events db)))"
    using ok e(3) free by (auto simp: events_ok_def unique_active_def list_ex_iff)
  ultimately show ?thesis using ok e(1,2) by (simp add: events_ok_def) force
qed

section \<open>What an evaluation does to events\<close>

lemma enqueue_transition:
  assumes "enqueueAlertTransition env db e t now = Inr db'"
  shows "\<exists>queue. db' = db\<lparr>delivery_queue := queue\<rparr> \<and> (queue = delivery_queue db
    \<or> (evLevel e \<in> {AlertLevelWarning, AlertLevelCritical}
       \<and> (\<exists>d dup. EnqueueDelivery (decode_json env) (delivery_queue db) (Some (evID e)) t (snapshot_text env e t) now = Inr (queue, d, dup))))"
proof (cases "(evLevel e = AlertLevelWarning \<or> evLevel e = AlertLevelCritical) \<and> dingtalk_enabled db")
  case False
  then have "db' = db" using assms by (auto simp: enqueueAlertTransition_def split: if_split_asm)
  then show ?thesis by (intro exI [of _ "delivery_queue db"]) simp
next
  case True
  then obtain queue d dup where q: "EnqueueDelivery (decode_json env) (delivery_queue db) (Some (evID e)) t (snapshot_text env e t) now = Inr (queue, d, dup)"
    and "db' = db\<lparr>delivery_queue := queue\<rparr>"
    using assms by (auto simp: enqueueAlertTransition_def split: sum.split_asm if_split_asm)
  then show ?thesis using True by blast
qed

text \<open>A store that differs only in its delivery queue.\<close>

definition same_alerts :: "alert_store \<Rightarrow> alert_store \<Rightarrow> bool" where
  "same_alerts db db' \<longleftrightarrow> (\<exists>queue. db' = db\<lparr>delivery_queue := queue\<rparr>)"

lemma same_alerts_fields:
  assumes "same_alerts db db'"
  shows "alert_events db' = alert_events db" "next_event_id db' = next_event_id db" "cursors db' = cursors db"
    "alert_rules db' = alert_rules db" "dingtalk_enabled db' = dingtalk_enabled db"
  using assms by (auto simp: same_alerts_def)

lemma same_alerts_refl [simp]: "same_alerts db db"
  by (auto simp: same_alerts_def intro: exI [of _ "delivery_queue db"])

lemma same_alerts_events_ok: "same_alerts db db' \<Longrightarrow> events_ok db' = events_ok db"
  by (simp add: events_ok_def same_alerts_fields)

lemma enqueue_same: "enqueueAlertTransition env db e t now = Inr db' \<Longrightarrow> same_alerts db db'"
  using enqueue_transition [of env db e t now db'] by (auto simp: same_alerts_def)

lemma notify_same: "notify_resolved env db fired e now = Inr db' \<Longrightarrow> same_alerts db db'"
  by (auto simp: notify_resolved_def enqueue_same split: if_split_asm)

text \<open>The event after its resolution.\<close>

definition resolution_of :: "AlertEvent \<Rightarrow> AlertEvent \<Rightarrow> bool" where
  "resolution_of a e \<longleftrightarrow> evID e = evID a \<and> evLevel e = evLevel a \<and> evStatus e = StatusResolved \<and> evActiveKey e = None
     \<and> evResolvedAt e \<noteq> None \<and> evResolutionReason e \<noteq> None \<and> evConsecutiveCount e = evConsecutiveCount a
     \<and> evFirstFiredAt e = evFirstFiredAt a"

lemma resolve_event_Inr:
  assumes "resolve_event env db ev a canonical = Inr (db', e)"
  shows "resolution_of a e" "notify_resolved env (save_event db e) (evStatus a = StatusFiring) e (aeObservedAt ev) = Inr db'"
proof -
  from assms obtain u where u: "updateResolvedAlertEvidence ev a canonical = Inr u"
    and e: "e = resolveAlertEvent u (aeObservedAt ev) (alertResolutionReason ev)"
    and n: "notify_resolved env (save_event db e) (evStatus a = StatusFiring) e (aeObservedAt ev) = Inr db'"
    by (auto simp: resolve_event_def Let_def and_then_Inr_conv)
  show "notify_resolved env (save_event db e) (evStatus a = StatusFiring) e (aeObservedAt ev) = Inr db'" by (rule n)
  have "evID u = evID a" "evLevel u = evLevel a" "evConsecutiveCount u = evConsecutiveCount a"
    "evFirstFiredAt u = evFirstFiredAt a"
    using u by (auto simp: updateResolvedAlertEvidence_def Let_def split: if_split_asm option.split_asm)
  then show "resolution_of a e" by (simp add: resolution_of_def e resolveAlertEvent_def)
qed

definition retired :: "AlertEvaluation \<Rightarrow> MessageRef \<Rightarrow> AlertEvent \<Rightarrow> AlertEvent" where
  "retired ev m a = (resolveAlertEvent a (aeObservedAt ev) ResolutionRetired)\<lparr>evMessageCode := mrCode m,
     evMessageParams := Some (mrParams m), evMessage := mrTechnicalDetail m\<rparr>"

lemma retire_event_Inr:
  assumes "retire_event env db ev a = Inr (db', r)"
  obtains e where "resolution_of a e" "evResolutionReason e = Some ResolutionRetired" "db' = save_event db e"
proof -
  from assms obtain m where m: "and_then (notify_resolved env (save_event db (retired ev m a)) (evStatus a = StatusFiring) (retired ev m a) (aeObservedAt ev))
      (\<lambda>db1. Inr (db1, evaluationResult (retired ev m a) ''resolved'')) = Inr (db', r)"
    by (auto simp: retire_event_def Let_def retired_def and_then_Inr_conv)
  have "evResolutionReason (retired ev m a) = Some ResolutionRetired" "resolution_of a (retired ev m a)"
    by (simp_all add: retired_def resolution_of_def resolveAlertEvent_def)
  then show thesis using that [of "retired ev m a"] m by (simp add: notify_resolved_def)
qed

lemma resolution_ok: "resolution_of a e \<Longrightarrow> event_ok a \<Longrightarrow> event_ok e"
  by (auto simp: resolution_of_def event_ok_def)

text \<open>The active event after a sample that matches its level.\<close>

definition continuation_of :: "AlertEvent \<Rightarrow> AlertEvent \<Rightarrow> string \<Rightarrow> bool" where
  "continuation_of a e t \<longleftrightarrow> evID e = evID a \<and> evLevel e = evLevel a \<and> evActiveKey e = evActiveKey a
     \<and> evConsecutiveCount a \<le> evConsecutiveCount e
     \<and> ((t = ''firing'' \<and> evStatus a = StatusPending \<and> evStatus e = StatusFiring \<and> evFirstFiredAt e \<noteq> None)
      \<or> (t \<noteq> ''firing'' \<and> evStatus e = evStatus a \<and> evFirstFiredAt e = evFirstFiredAt a
          \<and> evResolvedAt e = evResolvedAt a \<and> evResolutionReason e = evResolutionReason a))"

lemma continued_facts:
  assumes "continued ev candidate threshold canonical m a = (e, t)"
  shows "continuation_of a e t" "evCurrentValue e = Some canonical"
proof -
  show "evCurrentValue e = Some canonical" using assms by (auto simp: continued_def Let_def split: if_split_asm)
  show "continuation_of a e t"
    using assms unfolding continued_def Let_def
    by (simp split: if_split_asm) (auto simp: continuation_of_def)
qed

lemma continuation_ok: "continuation_of a e t \<Longrightarrow> event_ok a \<Longrightarrow> event_ok e"
  by (auto simp: continuation_of_def event_ok_def)

definition announced :: "alert_env \<Rightarrow> alert_store \<Rightarrow> AlertEvent \<Rightarrow> bool \<Rightarrow> int \<Rightarrow> alert_store \<Rightarrow> bool" where
  "announced env db e firing now db' \<longleftrightarrow> (if firing then enqueueAlertTransition env db e EventFiring now else Inr db) = Inr db'"

definition with_event :: "alert_store \<Rightarrow> AlertEvent \<Rightarrow> alert_store" where
  "with_event db e = db\<lparr>alert_events := alert_events db @ [e], next_event_id := next_event_id db + 1\<rparr>"

definition ended :: "alert_env \<Rightarrow> alert_store \<Rightarrow> AlertEvent \<Rightarrow> AlertEvent \<Rightarrow> int \<Rightarrow> alert_store \<Rightarrow> bool" where
  "ended env db a e now db' \<longleftrightarrow> resolution_of a e \<and> notify_resolved env (save_event db e) (evStatus a = StatusFiring) e now = Inr db'"

lemma open_event_Inr:
  assumes "open_event env db ev targetKey key candidate threshold canonical m = Inr (db', r)"
  obtains e where "evID e = next_event_id db" "evActiveKey e = Some key" "event_ok e" "evCurrentValue e = Some canonical"
    "\<not> list_ex (\<lambda>r. evActiveKey r = Some key) (alert_events db)"
    "announced env (with_event db e) e (evStatus e = StatusFiring) (aeObservedAt ev) db'" "evStatus e \<noteq> StatusResolved"
proof -
  let ?e = "new_event db ev targetKey key candidate threshold canonical m"
  have f: "evID ?e = next_event_id db" "evActiveKey ?e = Some key" "evCurrentValue ?e = Some canonical"
    "evStatus ?e = (if ruForTimes candidate \<le> 1 then StatusFiring else StatusPending)"
    "evFirstFiredAt ?e = (if ruForTimes candidate \<le> 1 then Some (aeObservedAt ev) else None)" "evConsecutiveCount ?e = 1"
    by (simp_all add: new_event_def Let_def)
  have "event_ok ?e" using f by (simp add: event_ok_def)
  moreover have "\<not> list_ex (\<lambda>r. evActiveKey r = Some key) (alert_events db)"
    "announced env (with_event db ?e) ?e (evStatus ?e = StatusFiring) (aeObservedAt ev) db'"
    using assms f(4) by (auto simp: open_event_def Let_def announced_def with_event_def and_then_Inr_conv split: if_split_asm)
  ultimately show thesis using that [of ?e] f by simp
qed

lemma mutate_cases [consumes 1, case_names quiet resolved continued opened reopened]:
  assumes "mutate env db ev contract target key rules active = Inr (db', r)"
  obtains (quiet) "db' = db" "active = None \<or> aeState ev = SampleUnknown"
  | (resolved) a e where "active = Some a" "ended env db a e (aeObservedAt ev) db'"
  | (continued) a e t v where "active = Some a" "continuation_of a e t" "aeState ev \<noteq> SampleScopeInactive"
      "map_option fst (parseAlertDecimal (the (aeCurrentValue ev)) True) = Some v" "evCurrentValue e = Some (FloatString 10 v)"
      "announced env (save_event db e) e (t = ''firing'') (aeObservedAt ev) db'"
  | (opened) e v where "active = None" "evID e = next_event_id db" "evActiveKey e = Some key" "event_ok e"
      "aeState ev \<noteq> SampleScopeInactive" "map_option fst (parseAlertDecimal (the (aeCurrentValue ev)) True) = Some v"
      "evCurrentValue e = Some (FloatString 10 v)" "\<not> list_ex (\<lambda>r. evActiveKey r = Some key) (alert_events db)"
      "evStatus e \<noteq> StatusResolved" "announced env (with_event db e) e (evStatus e = StatusFiring) (aeObservedAt ev) db'"
  | (reopened) a old db1 e v where "active = Some a" "ended env db a old (aeObservedAt ev) db1" "evID e = next_event_id db1"
      "evActiveKey e = Some key" "event_ok e" "aeState ev \<noteq> SampleScopeInactive"
      "map_option fst (parseAlertDecimal (the (aeCurrentValue ev)) True) = Some v"
      "evCurrentValue e = Some (FloatString 10 v)" "\<not> list_ex (\<lambda>r. evActiveKey r = Some key) (alert_events db1)"
      "evStatus e \<noteq> StatusResolved" "announced env (with_event db1 e) e (evStatus e = StatusFiring) (aeObservedAt ev) db'"
proof -
  consider (unknown) "aeState ev = SampleUnknown" | (inactive) "aeState ev = SampleScopeInactive"
    | (known) "aeState ev \<noteq> SampleUnknown" "aeState ev \<noteq> SampleScopeInactive" by blast
  then show thesis
  proof cases
    case unknown
    then show thesis using assms quiet by (simp add: mutate_def)
  next
    case inactive
    show thesis
    proof (cases active)
      case None
      then show thesis using assms inactive quiet by (simp add: mutate_def)
    next
      case (Some a)
      then have "retire_event env db ev a = Inr (db', r)" using assms inactive by (simp add: mutate_def)
      then obtain e where "resolution_of a e" "evResolutionReason e = Some ResolutionRetired" "db' = save_event db e"
        by (rule retire_event_Inr)
      then show thesis using resolved [OF Some, of e] by (simp add: ended_def notify_resolved_def)
    qed
  next
    case known
    then obtain v c where v: "parseAlertDecimal (the (aeCurrentValue ev)) True = Some (v, c)"
      and k: "known_sample env db ev contract target key rules active v = Inr (db', r)"
      using assms by (auto simp: mutate_def split: option.split_asm)
    then have pv: "map_option fst (parseAlertDecimal (the (aeCurrentValue ev)) True) = Some v" by simp
    show thesis
    proof (cases "matchingAlertRule (effectiveAlertRules rules) v")
      case None
      show thesis
      proof (cases active)
        case (Some a)
        then obtain e where "resolve_event env db ev a (FloatString 10 v) = Inr (db', e)"
          using k None by (auto simp: known_sample_def Let_def and_then_Inr_conv split: prod.split_asm)
        from resolve_event_Inr [OF this] show thesis using resolved [OF Some] by (simp add: ended_def)
      qed (use k None quiet in \<open>simp add: known_sample_def Let_def\<close>)
    next
      case (Some candidate)
      then obtain th m where o: "(case active of
            None \<Rightarrow> open_event env db ev (ctKey target) key candidate th (FloatString 10 v) m
          | Some a \<Rightarrow> if evLevel a = ruLevel candidate then continue_event env db ev candidate th (FloatString 10 v) m a
              else and_then (resolve_event env db ev a (FloatString 10 v)) (\<lambda>(db1, _). open_event env db1 ev (ctKey target) key candidate th (FloatString 10 v) m))
          = Inr (db', r)"
        using k by (cases "parseAlertThreshold (the (ruThresholdValue candidate)) True")
          (simp_all add: known_sample_def Let_def and_then_Inr_conv case_prod_beta, blast)
      show thesis
      proof (cases active)
        case None
        then have "open_event env db ev (ctKey target) key candidate th (FloatString 10 v) m = Inr (db', r)" using o by simp
        then show thesis by (rule open_event_Inr) (rule opened [OF None _ _ _ known(2) pv])
      next
        case a: (Some a)
        show thesis
        proof (cases "evLevel a = ruLevel candidate")
          case True
          obtain e t where e: "continued ev candidate th (FloatString 10 v) m a = (e, t)" by force
          then have "announced env (save_event db e) e (t = ''firing'') (aeObservedAt ev) db'"
            using o a True by (auto simp: continue_event_def announced_def and_then_Inr_conv)
          then show thesis using continued [OF a _ known(2) pv] continued_facts [OF e] by blast
        next
          case False
          then obtain db1 old where d: "resolve_event env db ev a (FloatString 10 v) = Inr (db1, old)"
            and op: "open_event env db1 ev (ctKey target) key candidate th (FloatString 10 v) m = Inr (db', r)"
            using o a by (auto simp: and_then_Inr_conv)
          have "ended env db a old (aeObservedAt ev) db1" using resolve_event_Inr [OF d] by (simp add: ended_def)
          with op show thesis by (elim open_event_Inr) (rule reopened [OF a _ _ _ _ known(2) pv])
        qed
      qed
    qed
  qed
qed

section \<open>The notifications queued\<close>

text \<open>A notification is about an event that fired at a level that notifies; a recovery is only told of an event that recovered.\<close>

definition truthful :: "AlertEvent set \<Rightarrow> AlertDelivery \<Rightarrow> bool" where
  "truthful E d \<longleftrightarrow> (\<forall>i. dAlertEventID d = Some i \<longrightarrow> (\<exists>e \<in> E. evID e = i \<and> evLevel e \<in> {AlertLevelWarning, AlertLevelCritical}
     \<and> evFirstFiredAt e \<noteq> None
     \<and> (dEventType d = EventResolved \<longrightarrow> evStatus e = StatusResolved \<and> evResolutionReason e = Some ResolutionRecovered)))"

definition alert_inv :: "alert_env \<Rightarrow> alert_store \<Rightarrow> bool" where
  "alert_inv env db \<longleftrightarrow> events_ok db \<and> store_ok (decode_json env) (delivery_queue db)
     \<and> (\<forall>d \<in> set (deliveries (delivery_queue db)). truthful (set (alert_events db)) d)"

lemma truthful_test: "dAlertEventID d = None \<Longrightarrow> truthful E d"
  by (simp add: truthful_def)

lemma truthful_same: "truthful E c \<Longrightarrow> dAlertEventID d = dAlertEventID c \<Longrightarrow> dEventType d = dEventType c \<Longrightarrow> truthful E d"
  by (simp add: truthful_def)

lemma truthful_mono: "truthful E d \<Longrightarrow> E \<subseteq> F \<Longrightarrow> truthful F d"
  unfolding truthful_def by blast

lemma truthful_replace:
  assumes "truthful E d" "evStatus a \<noteq> StatusResolved" "evID e = evID a" "evLevel e = evLevel a"
    "evFirstFiredAt a \<noteq> None \<Longrightarrow> evFirstFiredAt e \<noteq> None"
  shows "truthful (insert e (E - {a})) d"
  unfolding truthful_def
proof (intro allI impI)
  fix i assume "dAlertEventID d = Some i"
  then obtain f where f: "f \<in> E" "evID f = i" "evLevel f \<in> {AlertLevelWarning, AlertLevelCritical}" "evFirstFiredAt f \<noteq> None"
    "dEventType d = EventResolved \<longrightarrow> evStatus f = StatusResolved \<and> evResolutionReason f = Some ResolutionRecovered"
    using assms(1) unfolding truthful_def by blast
  show "\<exists>e' \<in> insert e (E - {a}). evID e' = i \<and> evLevel e' \<in> {AlertLevelWarning, AlertLevelCritical} \<and> evFirstFiredAt e' \<noteq> None
      \<and> (dEventType d = EventResolved \<longrightarrow> evStatus e' = StatusResolved \<and> evResolutionReason e' = Some ResolutionRecovered)"
  proof (cases "f = a")
    case True
    then show ?thesis using f assms(2-) by (intro bexI [of _ e]) simp_all
  next
    case False
    then show ?thesis using f by (intro bexI [of _ f]) simp_all
  qed
qed

lemma enqueue_rows:
  assumes "EnqueueDelivery decode q event t payload now = Inr (q', d, dup)"
  shows "set (deliveries q') = insert d (set (deliveries q))" "dAlertEventID d = event" "dEventType d = t"
proof (atomize (full), cases "find (same_delivery event t) (deliveries q)")
  case None
  then show "set (deliveries q') = insert d (set (deliveries q)) \<and> dAlertEventID d = event \<and> dEventType d = t"
    using assms by (auto simp: EnqueueDelivery_def new_delivery_def split: if_split_asm)
next
  case (Some c)
  then have "c \<in> set (deliveries q)" "same_delivery event t c" by (auto simp: find_Some_iff)
  moreover have "q' = q" "d = c" using assms Some by (auto simp: EnqueueDelivery_def split: if_split_asm)
  ultimately show "set (deliveries q') = insert d (set (deliveries q)) \<and> dAlertEventID d = event \<and> dEventType d = t"
    by (auto simp: same_delivery_def)
qed

lemma transition_inv:
  assumes "enqueueAlertTransition env db e t now = Inr db'" "alert_inv env db" "e \<in> set (alert_events db)" "evFirstFiredAt e \<noteq> None"
    "t = EventResolved \<Longrightarrow> evStatus e = StatusResolved \<and> evResolutionReason e = Some ResolutionRecovered"
  shows "alert_inv env db'"
proof -
  from enqueue_transition [OF assms(1)] obtain queue where db': "db' = db\<lparr>delivery_queue := queue\<rparr>"
    and q: "queue = delivery_queue db \<or> (evLevel e \<in> {AlertLevelWarning, AlertLevelCritical}
       \<and> (\<exists>d dup. EnqueueDelivery (decode_json env) (delivery_queue db) (Some (evID e)) t (snapshot_text env e t) now = Inr (queue, d, dup)))"
    by blast
  from q show ?thesis
  proof (elim disjE conjE exE)
    assume "queue = delivery_queue db"
    then show ?thesis using assms(2) db' by simp
  next
    fix d dup assume l: "evLevel e \<in> {AlertLevelWarning, AlertLevelCritical}"
      and n: "EnqueueDelivery (decode_json env) (delivery_queue db) (Some (evID e)) t (snapshot_text env e t) now = Inr (queue, d, dup)"
    have "truthful (set (alert_events db)) d"
      unfolding truthful_def using l assms(3-5) enqueue_rows(2,3) [OF n] by auto
    moreover have "store_ok (decode_json env) queue" using enqueue_ok [OF n] assms(2) by (simp add: alert_inv_def)
    ultimately show ?thesis
      using assms(2) enqueue_rows(1) [OF n] by (auto simp: alert_inv_def db' events_ok_def)
  qed
qed

lemma active_not_resolved: "events_ok db \<Longrightarrow> a \<in> set (alert_events db) \<Longrightarrow> evActiveKey a \<noteq> None \<Longrightarrow> event_ok a \<and> evStatus a \<noteq> StatusResolved"
  by (auto simp: events_ok_def event_ok_def)

lemma save_inv:
  assumes "alert_inv env db" "a \<in> set (alert_events db)" "evActiveKey a \<noteq> None" "evID e = evID a" "evLevel e = evLevel a"
    "event_ok e" "evActiveKey e = None \<or> evActiveKey e = evActiveKey a" "evFirstFiredAt a \<noteq> None \<Longrightarrow> evFirstFiredAt e \<noteq> None"
  shows "alert_inv env (save_event db e)" "e \<in> set (alert_events (save_event db e))"
proof -
  have ok: "events_ok db" using assms(1) by (simp add: alert_inv_def)
  have set: "set (alert_events (save_event db e)) = insert e (set (alert_events db) - {a})"
    by (rule save_member [OF ok assms(2,4)])
  then show "e \<in> set (alert_events (save_event db e))" by simp
  have q: "delivery_queue (save_event db e) = delivery_queue db" by (simp add: save_event_def)
  have "truthful (insert e (set (alert_events db) - {a})) d" if "d \<in> set (deliveries (delivery_queue db))" for d
    using that assms active_not_resolved [OF ok assms(2,3)] by (intro truthful_replace) (auto simp: alert_inv_def)
  then show "alert_inv env (save_event db e)"
    using assms(1) save_event_ok [OF ok assms(2,4,6,7)] unfolding alert_inv_def set q by blast
qed

lemma ended_inv:
  assumes "ended env db a e now db'" "alert_inv env db" "a \<in> set (alert_events db)" "evActiveKey a \<noteq> None"
  shows "alert_inv env db'"
proof -
  have r: "resolution_of a e" and n: "notify_resolved env (save_event db e) (evStatus a = StatusFiring) e now = Inr db'"
    using assms(1) by (simp_all add: ended_def)
  have a: "event_ok a" using active_not_resolved assms(2-4) by (auto simp: alert_inv_def)
  have s: "alert_inv env (save_event db e)" "e \<in> set (alert_events (save_event db e))"
    by (rule save_inv [OF assms(2-4)]; use r resolution_ok [OF r a] in \<open>auto simp: resolution_of_def\<close>)+
  show ?thesis
  proof (cases "evStatus a = StatusFiring \<and> evResolutionReason e = Some ResolutionRecovered")
    case True
    then have "enqueueAlertTransition env (save_event db e) e EventResolved now = Inr db'" using n by (simp add: notify_resolved_def)
    moreover have "evFirstFiredAt e \<noteq> None" using True r a by (auto simp: resolution_of_def event_ok_def)
    ultimately show ?thesis using True r by (intro transition_inv [OF _ s]) (auto simp: resolution_of_def)
  next
    case False
    then show ?thesis using n s by (auto simp: notify_resolved_def)
  qed
qed

lemma announced_inv:
  assumes "announced env db e firing now db'" "alert_inv env db" "e \<in> set (alert_events db)" "firing \<Longrightarrow> evFirstFiredAt e \<noteq> None"
  shows "alert_inv env db'"
  using assms transition_inv [of env db e EventFiring now db'] by (cases firing) (simp_all add: announced_def)

lemma continued_inv:
  assumes "announced env (save_event db e) e (t = ''firing'') now db'" "continuation_of a e t" "alert_inv env db"
    "a \<in> set (alert_events db)" "evActiveKey a \<noteq> None"
  shows "alert_inv env db'"
proof -
  have a: "event_ok a" using active_not_resolved assms(3-5) by (auto simp: alert_inv_def)
  have "alert_inv env (save_event db e)" "e \<in> set (alert_events (save_event db e))"
    by (rule save_inv [OF assms(3-5)]; use assms(2) continuation_ok [OF assms(2) a] in \<open>auto simp: continuation_of_def\<close>)+
  then show ?thesis using assms(1,2) by (elim announced_inv) (auto simp: continuation_of_def)
qed

lemma opened_inv:
  assumes "announced env (with_event db e) e (evStatus e = StatusFiring) now db'" "evID e = next_event_id db" "event_ok e"
    "evActiveKey e = Some key" "\<not> list_ex (\<lambda>r. evActiveKey r = Some key) (alert_events db)" "alert_inv env db"
  shows "alert_inv env db'"
proof -
  have "events_ok (with_event db e)" unfolding with_event_def
    by (rule append_event_ok [OF _ assms(2-5)]) (use assms(6) in \<open>simp add: alert_inv_def\<close>)
  then have "alert_inv env (with_event db e)"
    using assms(6) by (auto simp: alert_inv_def with_event_def intro: truthful_mono)
  then show ?thesis using assms(1,3) by (elim announced_inv) (auto simp: with_event_def event_ok_def)
qed

lemma mutate_inv:
  assumes "mutate env db ev contract target key rules (active_event db key) = Inr (db', r)" "alert_inv env db"
  shows "alert_inv env db'"
  using assms(1)
proof (cases rule: mutate_cases)
  case (resolved a e)
  then show ?thesis using ended_inv [OF resolved(2) assms(2)] active_event_Some by blast
next
  case (continued a e t v)
  then show ?thesis using continued_inv [OF continued(6,2) assms(2)] active_event_Some by blast
next
  case (opened e v)
  then show ?thesis using opened_inv assms(2) by blast
next
  case (reopened a old db1 e v)
  then have "alert_inv env db1" using ended_inv [OF reopened(2) assms(2)] active_event_Some by blast
  then show ?thesis using opened_inv reopened by blast
qed (use assms(2) in simp)

section \<open>Evaluation as a step\<close>

definition same_but_cursors :: "alert_store \<Rightarrow> alert_store \<Rightarrow> bool" where
  "same_but_cursors db db' \<longleftrightarrow> (\<exists>cs. db' = db\<lparr>cursors := cs\<rparr> \<and> (distinct (map ecActiveKey (cursors db)) \<longrightarrow> distinct (map ecActiveKey cs)))"

lemma same_but_cursors_refl [simp]: "same_but_cursors db db"
  unfolding same_but_cursors_def by (intro exI [of _ "cursors db"]) simp

lemma same_but_cursors_fields:
  assumes "same_but_cursors db db'"
  shows "alert_events db' = alert_events db" "next_event_id db' = next_event_id db" "delivery_queue db' = delivery_queue db"
    "alert_rules db' = alert_rules db" "dingtalk_enabled db' = dingtalk_enabled db" "active_event db' key = active_event db key"
    "LockRulesByKey db' rkey site = LockRulesByKey db rkey site"
  using assms by (auto simp: same_but_cursors_def active_event_def LockRulesByKey_def)

lemma same_but_cursors_inv: "same_but_cursors db db' \<Longrightarrow> alert_inv env db \<Longrightarrow> alert_inv env db'"
  by (auto simp: same_but_cursors_def alert_inv_def events_ok_def)

lemma advance_cursor:
  assumes "AdvanceEvaluationCursor db c = Inr db'"
  shows "same_but_cursors db db'"
    "find_cursor db' key = map_option (\<lambda>r. if ecActiveKey r = ecActiveKey c
       then r\<lparr>ecLastSampleAt := ecLastSampleAt c, ecLastSampleKey := ecLastSampleKey c, ecUpdatedAt := ecUpdatedAt c\<rparr> else r) (find_cursor db key)"
proof -
  let ?f = "\<lambda>r. r\<lparr>ecLastSampleAt := ecLastSampleAt c, ecLastSampleKey := ecLastSampleKey c, ecUpdatedAt := ecUpdatedAt c\<rparr>"
  have db': "db' = db\<lparr>cursors := update_where (\<lambda>r. ecActiveKey r = ecActiveKey c) ?f (cursors db)\<rparr>"
    using assms by (auto simp: AdvanceEvaluationCursor_def split: if_split_asm)
  moreover have "map ecActiveKey (update_where (\<lambda>r. ecActiveKey r = ecActiveKey c) ?f (cursors db)) = map ecActiveKey (cursors db)"
    by (rule map_update_where) simp
  ultimately show "same_but_cursors db db'" unfolding same_but_cursors_def by metis
  have "find (\<lambda>r. ecActiveKey r = key) (update_where (\<lambda>r. ecActiveKey r = ecActiveKey c) ?f xs)
      = map_option (\<lambda>r. if ecActiveKey r = ecActiveKey c then ?f r else r) (find (\<lambda>r. ecActiveKey r = key) xs)" for xs
    by (induction xs) (simp_all add: update_where_def)
  then show "find_cursor db' key = map_option (\<lambda>r. if ecActiveKey r = ecActiveKey c then ?f r else r) (find_cursor db key)"
    by (simp add: find_cursor_def db')
qed

lemma find_cursor_key: "find_cursor db key = Some c \<Longrightarrow> ecActiveKey c = key \<and> c \<in> set (cursors db)"
  by (auto simp: find_cursor_def find_Some_iff)

text \<open>The cursor has seen the sample or a later one.\<close>

definition recognised :: "alert_store \<Rightarrow> string \<Rightarrow> AlertEvaluation \<Rightarrow> bool" where
  "recognised db key ev \<longleftrightarrow> (case find_cursor db key of None \<Rightarrow> False
     | Some c \<Rightarrow> aeObservedAt ev < ecLastSampleAt c \<or> (aeObservedAt ev = ecLastSampleAt c \<and> aeSampleKey ev = ecLastSampleKey c))"

lemma recognise_recognised: "recognised db key ev \<Longrightarrow> recognise db ev (find_cursor db key) t = Inr (db, True)"
  by (auto simp: recognised_def recognise_def alertEvaluationIdentityUpgrade_def alertEvaluationAlreadyApplied_def split: option.split_asm)

lemma recognise_Inr:
  assumes "recognise db ev (find_cursor db key) t = Inr (db', seen)"
  shows "same_but_cursors db db'" "seen \<Longrightarrow> recognised db' key ev" "find_cursor db' key = None \<longleftrightarrow> find_cursor db key = None"
proof -
  consider (upgrade) c where "find_cursor db key = Some c" "alertEvaluationIdentityUpgrade (Some c) ev"
      "AdvanceEvaluationCursor db (c\<lparr>ecLastSampleKey := aeSampleKey ev, ecUpdatedAt := t\<rparr>) = Inr db'" "seen"
    | (other) "db' = db" "alertEvaluationAlreadyApplied (find_cursor db key) ev = Inr seen"
    using assms by (cases "find_cursor db key")
      (auto simp: recognise_def and_then_Inr_conv alertEvaluationIdentityUpgrade_def split: if_split_asm)
  then have "same_but_cursors db db' \<and> (seen \<longrightarrow> recognised db' key ev) \<and> (find_cursor db' key = None \<longleftrightarrow> find_cursor db key = None)"
  proof cases
    case (upgrade c)
    then show ?thesis using advance_cursor [OF upgrade(3)] find_cursor_key [OF upgrade(1)]
      by (simp add: recognised_def alertEvaluationIdentityUpgrade_def)
  next
    case other
    then show ?thesis by (auto simp: recognised_def alertEvaluationAlreadyApplied_def split: option.split_asm if_split_asm)
  qed
  then show "same_but_cursors db db'" "seen \<Longrightarrow> recognised db' key ev" "find_cursor db' key = None \<longleftrightarrow> find_cursor db key = None"
    by blast+
qed

lemma finish_Inr:
  assumes "finish_sample db ev key cursor t = Inr db'" "find_cursor db key = None \<longleftrightarrow> cursor = None" "\<And>c. cursor = Some c \<Longrightarrow> ecActiveKey c = key"
  shows "same_but_cursors db db'" "aeState ev \<noteq> SampleUnknown \<Longrightarrow> recognised db' key ev"
proof -
  consider (unknown) "aeState ev = SampleUnknown" "db' = db"
    | (advance) c where "aeState ev \<noteq> SampleUnknown" "cursor = Some c" "AdvanceEvaluationCursor db
        (c\<lparr>ecLastSampleAt := aeObservedAt ev, ecLastSampleKey := aeSampleKey ev, ecUpdatedAt := t\<rparr>) = Inr db'"
    | (create) c where "aeState ev \<noteq> SampleUnknown" "cursor = None" "db' = db\<lparr>cursors := cursors db @ [c]\<rparr>"
        "ecActiveKey c = key" "ecLastSampleAt c = aeObservedAt ev" "ecLastSampleKey c = aeSampleKey ev"
    using assms(1) by (auto simp: finish_sample_def CreateEvaluationCursor_def split: if_split_asm option.split_asm)
  then have "same_but_cursors db db' \<and> (aeState ev \<noteq> SampleUnknown \<longrightarrow> recognised db' key ev)"
  proof cases
    case (advance c)
    then show ?thesis using advance_cursor [OF advance(3)] assms(2,3) by (auto simp: recognised_def dest: find_cursor_key)
  next
    case (create c)
    have n: "find (\<lambda>c. ecActiveKey c = key) (cursors db) = None" using create(2) assms(2) by (simp add: find_cursor_def)
    then have "find_cursor db' key = Some c" using create by (simp add: find_cursor_def find_snoc)
    moreover have "key \<notin> ecActiveKey ` set (cursors db)" using n by (auto simp: find_None_iff)
    ultimately show ?thesis using create by (auto simp: same_but_cursors_def recognised_def)
  qed simp
  then show "same_but_cursors db db'" "aeState ev \<noteq> SampleUnknown \<Longrightarrow> recognised db' key ev" by blast+
qed

lemma ended_fields:
  assumes "ended env db a e now db'"
  shows "cursors db' = cursors db" "alert_rules db' = alert_rules db" "alert_events db' = alert_events (save_event db e)"
    "next_event_id db' = next_event_id db" "dingtalk_enabled db' = dingtalk_enabled db"
proof -
  have "same_alerts (save_event db e) db'" using assms notify_same by (auto simp: ended_def)
  from same_alerts_fields [OF this]
  show "cursors db' = cursors db" "alert_rules db' = alert_rules db" "alert_events db' = alert_events (save_event db e)"
    "next_event_id db' = next_event_id db" "dingtalk_enabled db' = dingtalk_enabled db" by (simp_all add: save_event_def)
qed

lemma announced_fields:
  assumes "announced env db e firing now db'"
  shows "cursors db' = cursors db" "alert_rules db' = alert_rules db" "alert_events db' = alert_events db"
    "next_event_id db' = next_event_id db" "dingtalk_enabled db' = dingtalk_enabled db"
proof -
  have "same_alerts db db'" using assms enqueue_same by (auto simp: announced_def split: if_split_asm)
  from same_alerts_fields [OF this]
  show "cursors db' = cursors db" "alert_rules db' = alert_rules db" "alert_events db' = alert_events db"
    "next_event_id db' = next_event_id db" "dingtalk_enabled db' = dingtalk_enabled db" by simp_all
qed

lemma mutate_keeps:
  assumes "mutate env db ev contract target key rules active = Inr (db', r)"
  shows "cursors db' = cursors db \<and> alert_rules db' = alert_rules db \<and> dingtalk_enabled db' = dingtalk_enabled db"
  using assms
proof (cases rule: mutate_cases)
  case (resolved a e)
  then show ?thesis by (simp add: ended_fields)
next
  case (continued a e t v)
  from announced_fields [OF continued(6)] show ?thesis by (simp add: save_event_def)
next
  case (opened e v)
  from announced_fields [OF opened(10)] show ?thesis by (simp add: with_event_def)
next
  case (reopened a old db1 e v)
  from announced_fields [OF reopened(11)] ended_fields [OF reopened(2)] show ?thesis by (simp add: with_event_def)
qed simp

lemma Evaluate_Inr:
  assumes "Evaluate env clock db ev0 = Inr (db', r)"
  obtains contract target key rules db1 where "validateAlertEvaluation (normalized ev0) = []"
    "map_of alertRuleContracts (aeRuleKey (normalized ev0)) = Some contract" "canonicalAlertTargetKey (normalized ev0) contract = Some target"
    "key = alertActiveKey env (aeRuleKey (normalized ev0)) (aeTargetType (normalized ev0)) (ctKey target)"
    "rules = LockRulesByKey db (aeRuleKey (normalized ev0)) (case aeSiteID (normalized ev0) of None \<Rightarrow> 0 | Some i \<Rightarrow> i)" "rules \<noteq> []"
    "same_but_cursors db db1"
    "(db' = db1 \<and> recognised db1 key (normalized ev0) \<and> r = report (active_event db1 key) ''duplicate''
        \<and> \<not> (case active_event db1 key of None \<Rightarrow> False | Some a \<Rightarrow> alertIdentityUpgradeRequiresMutation a (normalized ev0)))
     \<or> (\<exists>db2. mutate env db1 (normalized ev0) contract target key rules (active_event db1 key) = Inr (db2, r) \<and> same_but_cursors db2 db'
        \<and> (aeState (normalized ev0) \<noteq> SampleUnknown \<longrightarrow> recognised db' key (normalized ev0)))"
proof -
  let ?ev = "normalized ev0"
  from assms obtain contract target where c: "validateAlertEvaluation ?ev = []" "map_of alertRuleContracts (aeRuleKey ?ev) = Some contract"
    "canonicalAlertTargetKey ?ev contract = Some target" and e: "evaluate_sample env clock db ?ev contract target = Inr (db', r)"
    by (auto simp: Evaluate_def Let_def split: if_split_asm option.split_asm)
  define key rules where key: "key = alertActiveKey env (aeRuleKey ?ev) (aeTargetType ?ev) (ctKey target)"
    and rules: "rules = LockRulesByKey db (aeRuleKey ?ev) (case aeSiteID ?ev of None \<Rightarrow> 0 | Some i \<Rightarrow> i)"
  let ?again = "case active_event db key of None \<Rightarrow> False | Some a \<Rightarrow> alertIdentityUpgradeRequiresMutation a ?ev"
  have r: "rules \<noteq> []" using e unfolding evaluate_sample_def Let_def key [symmetric] rules [symmetric] by (cases "rules = []") simp_all
  with e obtain p where p: "recognise db ?ev (find_cursor db key) (clock 0) = Inr p"
    and dp: "(\<lambda>(db1, seen). if seen \<and> \<not> ?again then Inr (db1, report (active_event db key) ''duplicate'')
       else and_then (mutate env db1 ?ev contract target key rules (active_event db key)) (\<lambda>(db2, result).
         and_then (finish_sample db2 ?ev key (find_cursor db key) (clock 1)) (\<lambda>db3. Inr (db3, result)))) p = Inr (db', r)"
    unfolding evaluate_sample_def Let_def key [symmetric] rules [symmetric] if_not_P [OF r] and_then_Inr_conv by blast
  obtain db1 seen where ps: "p = (db1, seen)" by (cases p)
  have s: "recognise db ?ev (find_cursor db key) (clock 0) = Inr (db1, seen)"
    and d: "(if seen \<and> \<not> ?again then Inr (db1, report (active_event db key) ''duplicate'')
       else and_then (mutate env db1 ?ev contract target key rules (active_event db key)) (\<lambda>(db2, result).
         and_then (finish_sample db2 ?ev key (find_cursor db key) (clock 1)) (\<lambda>db3. Inr (db3, result)))) = Inr (db', r)"
    using p dp unfolding ps by simp_all
  note k = recognise_Inr [OF s]
  have act: "active_event db1 key = active_event db key" by (rule same_but_cursors_fields(6) [OF k(1)])
  have "(db' = db1 \<and> recognised db1 key ?ev \<and> r = report (active_event db1 key) ''duplicate'' \<and> \<not> ?again)
     \<or> (\<exists>db2. mutate env db1 ?ev contract target key rules (active_event db1 key) = Inr (db2, r) \<and> same_but_cursors db2 db'
        \<and> (aeState ?ev \<noteq> SampleUnknown \<longrightarrow> recognised db' key ?ev))"
  proof (cases "seen \<and> \<not> ?again")
    case True
    then show ?thesis using d k(2) act by simp
  next
    case False
    then obtain db2 where m: "mutate env db1 ?ev contract target key rules (active_event db key) = Inr (db2, r)"
      and f: "finish_sample db2 ?ev key (find_cursor db key) (clock 1) = Inr db'"
      using d unfolding if_not_P [OF False] by (auto simp: and_then_Inr_conv)
    have same: "find_cursor db2 key = None \<longleftrightarrow> find_cursor db key = None" using mutate_keeps [OF m] k(3) by (simp add: find_cursor_def)
    have "ecActiveKey c = key" if "find_cursor db key = Some c" for c using find_cursor_key [OF that] by simp
    from finish_Inr [OF f same this] show ?thesis unfolding act using m by blast
  qed
  then show thesis using that [OF c key rules r k(1)] act by simp
qed

text \<open>What an evaluation leaves of the invariant.\<close>

lemma Evaluate_inv:
  assumes "Evaluate env clock db ev0 = Inr (db', r)" "alert_inv env db"
  shows "alert_inv env db'"
  using assms(1)
proof (rule Evaluate_Inr)
  fix contract target key rules db1
  assume "same_but_cursors db db1" and "(db' = db1 \<and> recognised db1 key (normalized ev0) \<and> r = report (active_event db1 key) ''duplicate''
        \<and> \<not> (case active_event db1 key of None \<Rightarrow> False | Some a \<Rightarrow> alertIdentityUpgradeRequiresMutation a (normalized ev0)))
     \<or> (\<exists>db2. mutate env db1 (normalized ev0) contract target key rules (active_event db1 key) = Inr (db2, r) \<and> same_but_cursors db2 db'
        \<and> (aeState (normalized ev0) \<noteq> SampleUnknown \<longrightarrow> recognised db' key (normalized ev0)))"
  then show ?thesis using assms(2) same_but_cursors_inv mutate_inv by metis
qed

section \<open>The alert tables over time\<close>

text \<open>What senders and the notification settings do to the queue; they queue no notification about an event.\<close>

inductive sender_step :: "(string \<Rightarrow> json option) \<Rightarrow> delivery_store \<Rightarrow> delivery_store \<Rightarrow> bool" for decode where
  test: "EnqueueDelivery decode q None EventTest payload now = Inr (q', d, dup) \<Longrightarrow> sender_step decode q q'"
| disable: "DisablePending q now = Inr (q', n) \<Longrightarrow> sender_step decode q q'"
| exhaust: "FailExhaustedLeases q now = Inr (q', n) \<Longrightarrow> sender_step decode q q'"
| claim: "claim_delivery q only token now leaseUntil = Inr (q', cl) \<Longrightarrow> sender_step decode q q'"
| complete: "completeAttempt q cl result a b = Inr q' \<Longrightarrow> sender_step decode q q'"

inductive alert_step :: "alert_env \<Rightarrow> alert_store \<Rightarrow> alert_store \<Rightarrow> bool" for env where
  evaluate: "Evaluate env clock db ev = Inr (db', r) \<Longrightarrow> alert_step env db db'"
| edit: "rule_edit db db' \<Longrightarrow> alert_step env db db'"
| delete: "DeleteOverride db i = Inr db' \<Longrightarrow> alert_step env db db'"
| send: "sender_step (decode_json env) (delivery_queue db) q \<Longrightarrow> alert_step env db (db\<lparr>delivery_queue := q\<rparr>)"
| channel: "alert_step env db (db\<lparr>dingtalk_enabled := b\<rparr>)"

definition alert_start :: "alert_store \<Rightarrow> bool" where
  "alert_start db \<longleftrightarrow> alert_events db = [] \<and> next_event_id db = 1 \<and> cursors db = [] \<and> delivery_start (delivery_queue db)"

lemma sender_is_delivery: "sender_step decode q q' \<Longrightarrow> delivery_step decode (\<lambda>_. True) q q'"
  by (induction rule: sender_step.induct) (rule delivery_step.intros, assumption+, (rule TrueI)?)+

lemma update_deliveries_about:
  assumes "r \<in> set (deliveries (update_deliveries P f q))" "\<And>d. dAlertEventID (f d) = dAlertEventID d \<and> dEventType (f d) = dEventType d"
  shows "\<exists>d \<in> set (deliveries q). dAlertEventID r = dAlertEventID d \<and> dEventType r = dEventType d"
  using assms by (auto simp: update_deliveries_def update_where_def)

lemma sender_about:
  assumes "sender_step decode q q'" "store_ok decode q" "r \<in> set (deliveries q')"
  shows "dAlertEventID r = None \<or> (\<exists>d \<in> set (deliveries q). dAlertEventID r = dAlertEventID d \<and> dEventType r = dEventType d)"
  using assms(1)
proof cases
  case (test payload now d dup)
  show ?thesis using assms(3) enqueue_rows [OF test] by auto
next
  case (disable now n)
  then have "q' = update_deliveries (\<lambda>d. dStatus d = DeliveryPending) (disabled now) q"
    by (auto simp: DisablePending_def split: if_split_asm)
  then show ?thesis using assms(3) update_deliveries_about [of r _ "disabled now" q] by (simp add: disabled_def)
next
  case (exhaust now n)
  then show ?thesis using FailExhausted_same [OF assms(2) exhaust] assms(3) by blast
next
  case (claim only token now leaseUntil cl)
  from claim_Inr [OF claim assms(2)] obtain d where
    "q' = update_deliveries (\<lambda>r. dID r = dID d) (lease token leaseUntil now (claim_attempt d)) q" by blast
  then show ?thesis using assms(3) update_deliveries_about [of r _ "lease token leaseUntil now (claim_attempt d)" q] by (simp add: lease_def)
next
  case (complete cl result a b)
  then obtain c where "CompleteDelivery q c = Inr q'" by (auto simp: completeAttempt_def)
  then show ?thesis using assms(3) Complete_Inr(1) update_deliveries_about [of r _ "completed c" q] by (auto simp: completed_def)
qed

lemma sender_inv:
  assumes "sender_step (decode_json env) (delivery_queue db) q" "alert_inv env db"
  shows "alert_inv env (db\<lparr>delivery_queue := q\<rparr>)"
proof -
  have ok: "store_ok (decode_json env) (delivery_queue db)" using assms(2) by (simp add: alert_inv_def)
  have "store_ok (decode_json env) q" using delivery_step_ok [OF sender_is_delivery [OF assms(1)] ok] .
  moreover have "truthful (set (alert_events db)) d" if "d \<in> set (deliveries q)" for d
    using sender_about [OF assms(1) ok that] assms(2) truthful_test truthful_same by (auto simp: alert_inv_def)
  ultimately show ?thesis using assms(2) by (auto simp: alert_inv_def events_ok_def)
qed

lemma rule_edit_keeps: "rule_edit db db' \<Longrightarrow> \<exists>rules n. db' = db\<lparr>alert_rules := rules, next_rule_id := n\<rparr>"
proof (induction rule: rule_edit.induct)
  case (update db i q now db' r)
  then obtain rules where "db' = db\<lparr>alert_rules := rules\<rparr>" using UpdateRule_Inr by metis
  then show ?case by (intro exI [of _ rules] exI [of _ "next_rule_id db"]) simp
next
  case (override db base site q now db' i)
  then show ?case unfolding CreateOverride_def Let_def by (auto split: if_split_asm option.split_asm prod.split_asm)
qed

lemma delete_keeps: "DeleteOverride db i = Inr db' \<Longrightarrow> \<exists>rules. db' = db\<lparr>alert_rules := rules\<rparr>"
  by (auto simp: DeleteOverride_def split: if_split_asm option.split_asm)

lemma rules_irrelevant [simp]: "alert_inv env (db\<lparr>alert_rules := rules\<rparr>) = alert_inv env db" "alert_inv env (db\<lparr>next_rule_id := n\<rparr>) = alert_inv env db"
  "alert_inv env (db\<lparr>dingtalk_enabled := b\<rparr>) = alert_inv env db"
  by (simp_all add: alert_inv_def events_ok_def)

lemma alert_step_inv: "alert_step env db db' \<Longrightarrow> alert_inv env db \<Longrightarrow> alert_inv env db'"
proof (induction rule: alert_step.induct)
  case (evaluate clock db ev db' r)
  then show ?case using Evaluate_inv by blast
next
  case (edit db db')
  then show ?case using rule_edit_keeps [OF edit(1)] by auto
next
  case (delete db i db')
  then show ?case using delete_keeps [OF delete(1)] by auto
next
  case (send db q)
  then show ?case using sender_inv by blast
qed simp

interpretation alerts: invariant_system alert_start "alert_step env" "alert_inv env"
proof unfold_locales
  show "alert_start db \<Longrightarrow> alert_inv env db" for db
    by (simp add: alert_start_def alert_inv_def events_ok_def unique_active_def delivery.start_inv) (simp add: delivery_start_def)
  show "alert_inv env db \<Longrightarrow> alert_step env db db' \<Longrightarrow> alert_inv env db'" for db db' by (rule alert_step_inv)
qed

section \<open>Repeated samples\<close>

lemma parsed_again:
  assumes "map_option fst (parseAlertDecimal raw True) = Some v"
  obtains d where "parseAlertDecimal (FloatString 10 v) True = Some (v, d)"
  using assms FloatString_parse(2) [of 10 v] parsed_bound [of raw True v] by auto

text \<open>An event that holds the value of the sample needs no further change.\<close>

definition settled :: "alert_store \<Rightarrow> string \<Rightarrow> AlertEvaluation \<Rightarrow> bool" where
  "settled db key ev \<longleftrightarrow> \<not> (case active_event db key of None \<Rightarrow> False | Some a \<Rightarrow> alertIdentityUpgradeRequiresMutation a ev)"

lemma settled_by:
  assumes "events_ok db" "e \<in> set (alert_events db)" "evActiveKey e = Some key" "evCurrentValue e = Some (FloatString 10 v)"
    "map_option fst (parseAlertDecimal (the (aeCurrentValue ev)) True) = Some v" "aeState ev \<noteq> SampleScopeInactive"
  shows "settled db key ev"
proof (cases "active_event db key")
  case (Some x)
  then have "x \<in> set (alert_events db)" "evActiveKey x = Some key" using active_event_Some by auto
  then have x: "x = e" using assms(1-3) by (auto simp: events_ok_def unique_active_def)
  obtain d where "parseAlertDecimal (FloatString 10 v) True = Some (v, d)" by (rule parsed_again [OF assms(5)])
  then show ?thesis using assms(4-6) x Some
    by (auto simp: settled_def alertIdentityUpgradeRequiresMutation_def split: option.split)
qed (simp add: settled_def)

lemma ended_inactive:
  assumes "ended env db a e now db'" "events_ok db" "active_event db key = Some a"
  shows "active_event db' key = None"
proof -
  have a: "a \<in> set (alert_events db)" "evActiveKey a = Some key" using active_event_Some [OF assms(3)] by auto
  have e: "evID e = evID a" "evActiveKey e = None" using assms(1) by (auto simp: ended_def resolution_of_def)
  have "set (alert_events db') = insert e (set (alert_events db) - {a})"
    using ended_fields(3) [OF assms(1)] save_member [OF assms(2) a(1) e(1)] by simp
  moreover have "evActiveKey f \<noteq> Some key" if "f \<in> set (alert_events db) - {a}" for f
    using that a assms(2) by (auto simp: events_ok_def unique_active_def)
  ultimately show ?thesis using e(2) by (auto simp: active_event_None)
qed

lemma mutate_settles:
  assumes m: "mutate env db ev contract target key rules (active_event db key) = Inr (db', r)" and inv: "alert_inv env db"
    and s: "aeState ev \<noteq> SampleUnknown"
  shows "settled db' key ev"
proof -
  have ok: "events_ok db" "events_ok db'" using inv mutate_inv [OF m inv] by (simp_all add: alert_inv_def)
  from m show ?thesis
  proof (cases rule: mutate_cases)
    case quiet
    then show ?thesis using s by (auto simp: settled_def)
  next
    case (resolved a e)
    then show ?thesis using ended_inactive [OF resolved(2) ok(1)] by (simp add: settled_def)
  next
    case (continued a e t v)
    have a: "a \<in> set (alert_events db)" "evActiveKey a = Some key" using active_event_Some [OF continued(1)] by auto
    have "e \<in> set (alert_events db')" "evActiveKey e = Some key"
      using save_member [OF ok(1) a(1)] announced_fields(3) [OF continued(6)] continued(2) a(2) by (auto simp: continuation_of_def)
    then show ?thesis using settled_by ok(2) continued(3-5) by blast
  next
    case (opened e v)
    have "e \<in> set (alert_events db')" using announced_fields(3) [OF opened(10)] by (simp add: with_event_def)
    then show ?thesis using settled_by ok(2) opened by blast
  next
    case (reopened a old db1 e v)
    have "e \<in> set (alert_events db')" using announced_fields(3) [OF reopened(11)] by (simp add: with_event_def)
    then show ?thesis using settled_by ok(2) reopened by blast
  qed
qed

lemma Evaluate_recognised:
  assumes "validateAlertEvaluation (normalized ev0) = []" "map_of alertRuleContracts (aeRuleKey (normalized ev0)) = Some contract"
    "canonicalAlertTargetKey (normalized ev0) contract = Some target"
    "key = alertActiveKey env (aeRuleKey (normalized ev0)) (aeTargetType (normalized ev0)) (ctKey target)"
    "LockRulesByKey db (aeRuleKey (normalized ev0)) (case aeSiteID (normalized ev0) of None \<Rightarrow> 0 | Some i \<Rightarrow> i) \<noteq> []"
    and "recognised db key (normalized ev0)" and "settled db key (normalized ev0)"
  shows "Evaluate env clock db ev0 = Inr (db, report (active_event db key) ''duplicate'')"
proof -
  have "evaluate_sample env clock db (normalized ev0) contract target = Inr (db, report (active_event db key) ''duplicate'')"
    using assms(7) unfolding evaluate_sample_def Let_def assms(4) [symmetric] recognise_recognised [OF assms(6)] if_not_P [OF assms(5)]
    by (simp add: settled_def)
  then show ?thesis by (simp add: Evaluate_def assms(1-3))
qed

lemma report_duplicate [simp]: "erTransition (report a t) = t"
  by (simp add: report_def plain_result_def evaluationResult_def split: option.split)

lemma Evaluate_again:
  assumes e: "Evaluate env clock db ev = Inr (db', r)" and inv: "alert_inv env db" and s: "aeState ev \<noteq> SampleUnknown"
  shows "\<exists>again. Evaluate env clock' db' ev = Inr (db', again) \<and> erTransition again = ''duplicate''"
  using e
proof (rule Evaluate_Inr)
  let ?ev = "normalized ev"
  fix contract target key rules db1
  assume c: "validateAlertEvaluation ?ev = []" "map_of alertRuleContracts (aeRuleKey ?ev) = Some contract" "canonicalAlertTargetKey ?ev contract = Some target"
    "key = alertActiveKey env (aeRuleKey ?ev) (aeTargetType ?ev) (ctKey target)"
    and rules: "rules = LockRulesByKey db (aeRuleKey ?ev) (case aeSiteID ?ev of None \<Rightarrow> 0 | Some i \<Rightarrow> i)" "rules \<noteq> []"
    and db1: "same_but_cursors db db1"
    and outcome: "(db' = db1 \<and> recognised db1 key ?ev \<and> r = report (active_event db1 key) ''duplicate''
        \<and> \<not> (case active_event db1 key of None \<Rightarrow> False | Some a \<Rightarrow> alertIdentityUpgradeRequiresMutation a ?ev))
     \<or> (\<exists>db2. mutate env db1 ?ev contract target key rules (active_event db1 key) = Inr (db2, r) \<and> same_but_cursors db2 db'
        \<and> (aeState ?ev \<noteq> SampleUnknown \<longrightarrow> recognised db' key ?ev))"
  have s': "aeState ?ev \<noteq> SampleUnknown" using s by (simp add: normalized_def)
  have "recognised db' key ?ev \<and> settled db' key ?ev \<and> alert_rules db' = alert_rules db"
    using outcome
  proof (elim disjE conjE exE)
    fix db2 assume m: "mutate env db1 ?ev contract target key rules (active_event db1 key) = Inr (db2, r)" and d: "same_but_cursors db2 db'"
      and rec: "aeState ?ev \<noteq> SampleUnknown \<longrightarrow> recognised db' key ?ev"
    have "settled db2 key ?ev" using mutate_settles [OF m same_but_cursors_inv [OF db1 inv] s'] .
    then show ?thesis using rec s' mutate_keeps [OF m] same_but_cursors_fields [OF d] same_but_cursors_fields [OF db1] by (simp add: settled_def)
  qed (use same_but_cursors_fields [OF db1] in \<open>simp add: settled_def\<close>)
  moreover from this have "LockRulesByKey db' (aeRuleKey ?ev) (case aeSiteID ?ev of None \<Rightarrow> 0 | Some i \<Rightarrow> i) \<noteq> []"
    using rules by (simp add: LockRulesByKey_def)
  ultimately show ?thesis using Evaluate_recognised [OF c] by (auto intro: exI [of _ "report (active_event db' key) ''duplicate''"])
qed

section \<open>Notified transitions\<close>

definition queued :: "alert_store \<Rightarrow> int \<Rightarrow> string \<Rightarrow> bool" where
  "queued db i t \<longleftrightarrow> list_ex (\<lambda>d. dAlertEventID d = Some i \<and> dEventType d = t) (deliveries (delivery_queue db))"

definition fired :: "alert_store \<Rightarrow> int \<Rightarrow> bool" where
  "fired db i \<longleftrightarrow> list_ex (\<lambda>f. evID f = i \<and> evStatus f = StatusFiring) (alert_events db)"

text \<open>What the queue of \<open>db'\<close> owes to event \<open>e\<close> after a change from \<open>db\<close>.\<close>

definition told :: "alert_store \<Rightarrow> alert_store \<Rightarrow> AlertEvent \<Rightarrow> bool" where
  "told db db' e \<longleftrightarrow> (evStatus e = StatusFiring \<and> \<not> fired db (evID e) \<longrightarrow> queued db' (evID e) EventFiring)
     \<and> (evStatus e = StatusResolved \<and> evResolutionReason e = Some ResolutionRecovered \<and> fired db (evID e) \<longrightarrow> queued db' (evID e) EventResolved)"

lemma event_unique: "events_ok db \<Longrightarrow> e \<in> set (alert_events db) \<Longrightarrow> f \<in> set (alert_events db) \<Longrightarrow> evID f = evID e \<Longrightarrow> f = e"
  by (auto simp: events_ok_def distinct_map inj_on_def)

lemma fired_member: "events_ok db \<Longrightarrow> e \<in> set (alert_events db) \<Longrightarrow> fired db (evID e) \<longleftrightarrow> evStatus e = StatusFiring"
  using event_unique [of db e] by (auto simp: fired_def list_ex_iff)

lemma told_old: "events_ok db \<Longrightarrow> e \<in> set (alert_events db) \<Longrightarrow> told db db' e"
  by (auto simp: told_def fired_member)

lemma transition_queued:
  assumes "enqueueAlertTransition env db e t now = Inr db'"
  shows "queued db i u \<Longrightarrow> queued db' i u"
    "dingtalk_enabled db \<Longrightarrow> evLevel e \<in> {AlertLevelWarning, AlertLevelCritical} \<Longrightarrow> queued db' (evID e) t"
proof -
  show "queued db i u \<Longrightarrow> queued db' i u"
    using enqueue_transition [OF assms] enqueue_rows(1) by (fastforce simp: queued_def list_ex_iff)
  assume "dingtalk_enabled db" "evLevel e \<in> {AlertLevelWarning, AlertLevelCritical}"
  then obtain queue d dup where "EnqueueDelivery (decode_json env) (delivery_queue db) (Some (evID e)) t (snapshot_text env e t) now = Inr (queue, d, dup)"
    and "db' = db\<lparr>delivery_queue := queue\<rparr>"
    using assms by (auto simp: enqueueAlertTransition_def split: sum.split_asm if_split_asm)
  then show "queued db' (evID e) t" using enqueue_rows by (fastforce simp: queued_def list_ex_iff)
qed

lemma announced_queued:
  assumes "announced env db e firing now db'"
  shows "queued db i u \<Longrightarrow> queued db' i u"
    "firing \<Longrightarrow> dingtalk_enabled db \<Longrightarrow> evLevel e \<in> {AlertLevelWarning, AlertLevelCritical} \<Longrightarrow> queued db' (evID e) EventFiring"
  using assms transition_queued [of env db e EventFiring now db'] by (auto simp: announced_def split: if_split_asm)

lemma queued_events [simp]: "queued (save_event db e) i t = queued db i t" "queued (with_event db e) i t = queued db i t"
  by (simp_all add: queued_def save_event_def with_event_def)

lemma ended_told:
  assumes ed: "ended env db a e now db'" and ok: "events_ok db" "a \<in> set (alert_events db)" and on: "dingtalk_enabled db"
    and x: "x \<in> set (alert_events db')" "evLevel x \<in> {AlertLevelWarning, AlertLevelCritical}"
  shows "told db db' x"
proof (cases "x = e")
  case True
  have r: "resolution_of a e" "notify_resolved env (save_event db e) (evStatus a = StatusFiring) e now = Inr db'"
    using ed by (simp_all add: ended_def)
  have "queued db' (evID e) EventResolved" if "evStatus a = StatusFiring" "evResolutionReason e = Some ResolutionRecovered"
    using transition_queued(2) [of env "save_event db e" e EventResolved now db'] r(2) that on x(2) True
    by (simp add: notify_resolved_def) (simp add: save_event_def)
  then show ?thesis using r(1) True fired_member [OF ok] by (auto simp: told_def resolution_of_def)
next
  case False
  have "evID e = evID a" using ed by (simp add: ended_def resolution_of_def)
  then have "x \<in> set (alert_events db)" using x(1) False ended_fields(3) [OF ed] save_member [OF ok, of e] by auto
  then show ?thesis by (rule told_old [OF ok(1)])
qed

lemma continued_told:
  assumes an: "announced env (save_event db e) e (t = ''firing'') now db'" and co: "continuation_of a e t" and a: "event_ok a" "evActiveKey a \<noteq> None"
    and ok: "events_ok db" "a \<in> set (alert_events db)" and on: "dingtalk_enabled db"
    and x: "x \<in> set (alert_events db')" "evLevel x \<in> {AlertLevelWarning, AlertLevelCritical}"
  shows "told db db' x"
proof (cases "x = e")
  case True
  have "t = ''firing''" if "evStatus e = StatusFiring" "evStatus a \<noteq> StatusFiring" using co that by (auto simp: continuation_of_def)
  moreover have "evStatus e \<noteq> StatusResolved" using co a by (auto simp: continuation_of_def event_ok_def)
  moreover have "evID e = evID a" using co by (simp add: continuation_of_def)
  ultimately show ?thesis
    using True fired_member [OF ok] announced_queued(2) [OF an] on x(2) by (auto simp: told_def save_event_def)
next
  case False
  have "evID e = evID a" using co by (simp add: continuation_of_def)
  then have "x \<in> set (alert_events db)" using x(1) False announced_fields(3) [OF an] save_member [OF ok, of e] by auto
  then show ?thesis by (rule told_old [OF ok(1)])
qed

lemma opened_told:
  assumes an: "announced env (with_event db1 e) e (evStatus e = StatusFiring) now db'" and e: "evStatus e \<noteq> StatusResolved"
    and old: "\<And>x. x \<in> set (alert_events db1) \<Longrightarrow> evLevel x \<in> {AlertLevelWarning, AlertLevelCritical} \<Longrightarrow> told db db1 x"
    and on: "dingtalk_enabled db1" and x: "x \<in> set (alert_events db')" "evLevel x \<in> {AlertLevelWarning, AlertLevelCritical}"
  shows "told db db' x"
proof (cases "x = e")
  case True
  then show ?thesis using e announced_queued(2) [OF an] on x(2) by (auto simp: told_def with_event_def)
next
  case False
  then have "x \<in> set (alert_events db1)" using x(1) announced_fields(3) [OF an] by (simp add: with_event_def)
  then show ?thesis using old [OF _ x(2)] announced_queued(1) [OF an] by (auto simp: told_def)
qed

lemma mutate_told:
  assumes m: "mutate env db ev contract target key rules (active_event db key) = Inr (db', r)" and ok: "events_ok db" and on: "dingtalk_enabled db"
    and x: "x \<in> set (alert_events db')" "evLevel x \<in> {AlertLevelWarning, AlertLevelCritical}"
  shows "told db db' x"
  using m
proof (cases rule: mutate_cases)
  case quiet
  then show ?thesis using told_old [OF ok] x by blast
next
  case (resolved a e)
  then show ?thesis using ended_told [OF resolved(2) ok _ on x] active_event_Some by blast
next
  case (continued a e t v)
  have a: "a \<in> set (alert_events db)" "evActiveKey a = Some key" using active_event_Some [OF continued(1)] by auto
  then show ?thesis using continued_told [OF continued(6,2) _ _ ok _ on x] active_not_resolved [OF ok a(1)] by simp
next
  case (opened e v)
  show ?thesis by (rule opened_told [OF opened(10,9) _ on x]) (rule told_old [OF ok])
next
  case (reopened a old db1 e v)
  have a: "a \<in> set (alert_events db)" using active_event_Some [OF reopened(1)] by auto
  have on1: "dingtalk_enabled db1" using ended_fields(5) [OF reopened(2)] on by simp
  show ?thesis by (rule opened_told [OF reopened(11,10) _ on1 x]) (rule ended_told [OF reopened(2) ok a on])
qed

lemma Evaluate_told:
  assumes "Evaluate env clock db ev = Inr (db', r)" "alert_inv env db" "dingtalk_enabled db"
    "x \<in> set (alert_events db')" "evLevel x \<in> {AlertLevelWarning, AlertLevelCritical}"
  shows "told db db' x"
  using assms(1)
proof (rule Evaluate_Inr)
  let ?ev = "normalized ev"
  fix contract target key rules db1
  assume db1: "same_but_cursors db db1"
    and outcome: "(db' = db1 \<and> recognised db1 key ?ev \<and> r = report (active_event db1 key) ''duplicate''
        \<and> \<not> (case active_event db1 key of None \<Rightarrow> False | Some a \<Rightarrow> alertIdentityUpgradeRequiresMutation a ?ev))
     \<or> (\<exists>db2. mutate env db1 ?ev contract target key rules (active_event db1 key) = Inr (db2, r) \<and> same_but_cursors db2 db'
        \<and> (aeState ?ev \<noteq> SampleUnknown \<longrightarrow> recognised db' key ?ev))"
  note f = same_but_cursors_fields [OF db1]
  have ok: "events_ok db" "events_ok db1" using assms(2) same_but_cursors_inv [OF db1] by (auto simp: alert_inv_def)
  have same: "told db1 c x = told db c x" for c using f by (simp add: told_def fired_def)
  from outcome show ?thesis
  proof (elim disjE conjE exE)
    assume "db' = db1"
    then show ?thesis using told_old [OF ok(1)] assms(4) f by simp
  next
    fix db2 assume m: "mutate env db1 ?ev contract target key rules (active_event db1 key) = Inr (db2, r)" and d: "same_but_cursors db2 db'"
    note g = same_but_cursors_fields [OF d]
    have "told db1 db2 x" using mutate_told [OF m ok(2)] assms(3-5) f g by simp
    then show ?thesis using g same by (simp add: told_def queued_def)
  qed
qed

end
