(* ===== verification/Alert_Messages.thy ===== *)
theory Alert_Messages
  imports Alert_Lifecycle
begin

text \<open>
  Messages of alerts as a typing discipline: the registry gives every message code the type of its parameters,
  evaluation only stores events whose messages have their type, and on such events it never fails to build one.
\<close>

section \<open>Identifiers in messages\<close>

lemma FormatInt_id: "0 < i \<Longrightarrow> int64_ok i \<Longrightarrow> isPositiveDecimalInt64 (FormatInt i)"
  using ParseInt64_FormatInt [of i] show_nat_leading [of "nat i"]
  by (auto simp: isPositiveDecimalInt64_def FormatInt_def show_nat_digits)

lemma valid_id: "0 < i \<Longrightarrow> int64_ok i \<Longrightarrow> validateMessageParam (snd (idParam n)) (PString (FormatInt i))"
  by (simp add: validateMessageParam_def idParam_def param_spec_def FormatInt_id)

lemma valid_string: "validateMessageParam (snd (stringParam n)) (PString t)"
  by (simp add: validateMessageParam_def stringParam_def param_spec_def)

lemma valid_timestamp: "0 \<le> i \<Longrightarrow> validateMessageParam (snd (timestampParam n)) (PInteger i)"
  by (simp add: validateMessageParam_def timestampParam_def param_spec_def isIntegerValue_def)

lemma param_names [simp]: "fst (idParam n) = n" "fst (stringParam n) = n" "fst (timestampParam n) = n" "fst (enumParam n vs) = n"
  by (simp_all add: idParam_def stringParam_def timestampParam_def enumParam_def)

section \<open>Types of the alert messages\<close>

lemma alert_types:
  shows "map_of MessageRegistry ''ALERT_SITE_OFFLINE'' = Some ([idParam ''site_id'', stringParam ''site_name''], [])"
    "map_of MessageRegistry ''ALERT_AUTH_EXPIRED'' = Some ([idParam ''site_id'', stringParam ''site_name''], [])"
    "map_of MessageRegistry ''ALERT_EXPORT_DISABLED'' = Some ([idParam ''site_id'', stringParam ''site_name''], [])"
    "map_of MessageRegistry ''ALERT_COLLECTION_MISSING'' = Some ([idParam ''site_id'', timestampParam
      ''start_timestamp'', timestampParam ''end_timestamp''], [])"
    "map_of MessageRegistry ''ALERT_BACKFILL_FAILED'' = Some ([idParam ''site_id'', idParam ''run_id''], [])"
    "map_of MessageRegistry ''ALERT_VALIDATION_FAILED'' = Some ([idParam ''site_id'', timestampParam
      ''start_timestamp'', timestampParam ''end_timestamp'', enumParam ''failure_kind'' [''data_mismatch'',
      ''execution_failed'']], [])"
    "map_of MessageRegistry ''ALERT_INSTANCE_STALE'' = Some ([idParam ''site_id'', stringParam ''instance_name''],
      [])"
    "map_of MessageRegistry ''ALERT_INSTANCE_OFFLINE'' = Some ([idParam ''site_id'', stringParam ''instance_name''],
      [])"
    "map_of MessageRegistry ''ALERT_NO_INSTANCE'' = Some ([idParam ''site_id'', stringParam ''site_name''], [])"
    "map_of MessageRegistry ''ALERT_CPU_HIGH'' = Some ([idParam ''site_id'', stringParam ''target_type'', stringParam
      ''target_name'', stringParam ''value'', stringParam ''threshold''], [])"
    "map_of MessageRegistry ''ALERT_MEMORY_HIGH'' = Some ([idParam ''site_id'', stringParam ''target_type'',
      stringParam ''target_name'', stringParam ''value'', stringParam ''threshold''], [])"
    "map_of MessageRegistry ''ALERT_DISK_HIGH'' = Some ([idParam ''site_id'', stringParam ''target_type'', stringParam
      ''target_name'', stringParam ''value'', stringParam ''threshold''], [])"
    "map_of MessageRegistry ''ALERT_ACCOUNT_MISSING'' = Some ([idParam ''account_id'', stringParam ''account_name''],
      [idParam ''site_id''])"
    "map_of MessageRegistry ''ALERT_ACCOUNT_IDENTITY_MISMATCH'' = Some ([idParam ''account_id'', stringParam
      ''account_name''], [idParam ''site_id''])"
    "map_of MessageRegistry ''ALERT_ACCOUNT_DISABLED'' = Some ([idParam ''account_id'', stringParam ''account_name''],
      [idParam ''site_id''])"
    "map_of MessageRegistry ''ALERT_ACCOUNT_QUOTA_EMPTY'' = Some ([idParam ''account_id'', stringParam
      ''account_name''], [idParam ''site_id''])"
    "map_of MessageRegistry ''ALERT_CHANNEL_BALANCE_LOW'' = Some ([idParam ''site_id'', stringParam ''site_name'',
      stringParam ''value'', stringParam ''threshold''], [])"
    "map_of MessageRegistry ''ALERT_CHANNEL_RESPONSE_TIME_HIGH'' = Some ([idParam ''site_id'', stringParam
      ''site_name'', stringParam ''value'', stringParam ''threshold''], [])"
    "map_of MessageRegistry ''ALERT_CHANNEL_AVAILABILITY_LOW'' = Some ([idParam ''site_id'', stringParam
      ''site_name'', stringParam ''value'', stringParam ''threshold''], [])"
    "map_of MessageRegistry ''ALERT_SCOPE_INACTIVE'' = Some ([stringParam ''scope_type'', idParam ''scope_id'',
      stringParam ''scope_name''], [])"
  by code_simp+

lemma ParseInt64_range: "ParseInt64 s = Some i \<Longrightarrow> int64_ok i"
  by (auto simp: ParseInt64_def Let_def split: if_split_asm)

lemma canonicalID_facts: "canonicalID s = Some i \<Longrightarrow> 0 < i \<and> int64_ok i"
  by (auto simp: canonicalID_def ParseInt64_range split: option.split_asm if_split_asm)

lemma canonical_site: "canonicalAlertTargetKey ev contract = Some t \<Longrightarrow> \<exists>s. aeSiteID ev = Some s \<and> 0 < s"
  by (auto simp: canonicalAlertTargetKey_def split: option.split_asm if_split_asm)

lemma canonical_entity:
  assumes "canonicalAlertTargetKey ev contract = Some t" "rcTargetType contract \<noteq> ''instance''"
  shows "0 < ctEntityID t \<and> int64_ok (ctEntityID t)"
  using assms unfolding canonicalAlertTargetKey_def
  by (auto split: option.split_asm if_split_asm prod.split_asm dest: canonicalID_facts)

lemmas typed_params = valid_id valid_string valid_timestamp ValidateMessageParams_def alert_types

lemma valid_failure_kind: "k \<in> {''data_mismatch'', ''execution_failed''} \<Longrightarrow>
  validateMessageParam (snd (enumParam n [''data_mismatch'', ''execution_failed''])) (PString k)"
  by (auto simp: validateMessageParam_def enumParam_def param_spec_def)

lemma params_typed:
  assumes c: "map_of alertRuleContracts (aeRuleKey ev) = Some contract" and t: "canonicalAlertTargetKey ev contract = Some target"
    and s: "aeSiteID ev = Some site" "int64_ok site"
    and p: "alert_params ev contract target threshold v = Inr params"
  shows "ValidateMessageParams (rcMessageCode contract) params"
proof -
  have "0 < site" using canonical_site [OF t] s(1) by simp
  note id = valid_id [OF this s(2)]
  have e: "0 < ctEntityID target \<and> int64_ok (ctEntityID target)" if "rcTargetType contract \<noteq> ''instance''"
    using canonical_entity [OF t that] .
  have q: "params = projr (alert_params ev contract target threshold v)" by (simp add: p)
  have "(aeRuleKey ev, contract) \<in> set alertRuleContracts" by (rule map_of_SomeD [OF c])
  then show ?thesis unfolding alertRuleContracts_def list.set insert_iff empty_iff prod.inject
  proof (elim disjE conjE FalseE)
    assume k: "aeRuleKey ev = ''validation_failed''" "contract = \<lparr>rcTargetType = ''collection'', rcMessageCode = ''ALERT_VALIDATION_FAILED'', rcCollectionTarget = TargetHour\<rparr>"
    then have "TrimSpace (aeSource ev) = ''data_mismatch'' \<or> TrimSpace (aeSource ev) = ''execution_failed''"
      using p by (auto simp: alert_params_def Let_def split: if_split_asm)
    then show ?thesis
      by (elim disjE) (use q s(1) id e k in \<open>simp add: alert_params_def Let_def typed_params valid_failure_kind\<close>)+
  qed (use q s(1) id e in \<open>simp add: alert_params_def typed_params\<close>)+
qed

lemma params_error:
  assumes c: "map_of alertRuleContracts (aeRuleKey ev) = Some contract" and p: "alert_params ev contract target threshold v = Inl err"
  shows "err = EvalInvalid [''source'']"
proof -
  have "(aeRuleKey ev, contract) \<in> set alertRuleContracts" by (rule map_of_SomeD [OF c])
  then show ?thesis unfolding alertRuleContracts_def list.set insert_iff empty_iff prod.inject
    by (elim disjE conjE FalseE) (use p in \<open>simp add: alert_params_def Let_def split: if_split_asm\<close>)+
qed

text \<open>The integers of a sample are those of the source's \<^verbatim>\<open>int64\<close> fields.\<close>

definition int64_sample :: "AlertEvaluation \<Rightarrow> bool" where
  "int64_sample ev \<longleftrightarrow> (case aeSiteID ev of None \<Rightarrow> True | Some s \<Rightarrow> int64_ok s) \<and> int64_ok (aeScopeID ev)"

lemma NewMessageRef_Some: "NewMessageRef code params detail = Some m \<Longrightarrow> mrCode m = code \<and> mrParams m = params \<and> ValidateMessageParams code params"
  by (auto simp: NewMessageRef_def split: if_split_asm)

lemma build_progress:
  assumes "map_of alertRuleContracts (aeRuleKey ev) = Some contract" "canonicalAlertTargetKey ev contract = Some target" "int64_sample ev"
  shows "buildAlertMessage ev contract target threshold v \<noteq> Inl EvalMessageInvalid"
proof
  assume "buildAlertMessage ev contract target threshold v = Inl EvalMessageInvalid"
  then consider "alert_params ev contract target threshold v = Inl EvalMessageInvalid"
    | params where "alert_params ev contract target threshold v = Inr params" "\<not> ValidateMessageParams (rcMessageCode contract) params"
    by (auto simp: buildAlertMessage_def and_then_Inl_conv NewMessageRef_def split: if_split_asm)
  then show False
  proof cases
    case 1
    then show ?thesis using params_error [OF assms(1)] by fastforce
  next
    case 2
    obtain site where "aeSiteID ev = Some site" using canonical_site [OF assms(2)] by blast
    then show ?thesis using params_typed [OF assms(1,2) _ _ 2(1)] 2(2) assms(3) by (simp add: int64_sample_def)
  qed
qed

lemma build_typed: "buildAlertMessage ev contract target threshold v = Inr m \<Longrightarrow> ValidateMessageParams (mrCode m) (mrParams m)"
  by (auto simp: buildAlertMessage_def and_then_Inr_conv NewMessageRef_def split: if_split_asm)

lemma inactive_progress: "0 < aeScopeID ev \<Longrightarrow> int64_sample ev \<Longrightarrow> \<exists>m. scopeInactiveMessage ev = Inr m"
  by (simp add: scopeInactiveMessage_def Let_def NewMessageRef_def typed_params int64_sample_def)

lemma inactive_typed: "scopeInactiveMessage ev = Inr m \<Longrightarrow> ValidateMessageParams (mrCode m) (mrParams m) \<and> map_of (mrParams m) ''threshold'' = None"
  by (auto simp: scopeInactiveMessage_def Let_def dest!: NewMessageRef_Some split: option.split_asm)

section \<open>Stored messages\<close>

definition message_ok :: "AlertEvent \<Rightarrow> bool" where
  "message_ok e \<longleftrightarrow> (case evMessageParams e of None \<Rightarrow> False
     | Some params \<Rightarrow> ValidateMessageParams (evMessageCode e) params \<and> (map_of params ''threshold'' \<noteq> None \<longrightarrow> evThresholdValue e \<noteq> None))"

definition messages_ok :: "alert_store \<Rightarrow> bool" where
  "messages_ok db \<longleftrightarrow> (\<forall>e \<in> set (alert_events db). message_ok e)"

lemma messages_save: "messages_ok db \<Longrightarrow> message_ok e \<Longrightarrow> messages_ok (save_event db e)"
  by (auto simp: messages_ok_def set_save)

lemma map_of_set_param: "map_of (set_param k v ps) n = (if n = k then map_option (\<lambda>_. v) (map_of ps k) else map_of ps n)"
  by (induction ps) auto

lemma accepted_set_param:
  assumes "params_accepted ps allowed" "\<And>spec. map_of allowed k = Some spec \<Longrightarrow> validateMessageParam spec v"
  shows "params_accepted (set_param k v ps) allowed"
  using assms by (induction ps) (auto split: option.split_asm)

lemma required_set_param: "required_present req ps \<Longrightarrow> required_present req (set_param k v ps)"
  by (induction req) (auto simp: map_of_set_param)

text \<open>Wherever a message has a value or a threshold, it is any string.\<close>

lemma measured_are_strings:
  assumes "map_of MessageRegistry code = Some (req, opt)" "map_of (opt @ req) k = Some spec" "k = ''value'' \<or> k = ''threshold''"
  shows "validateMessageParam spec (PString t)"
proof -
  have "list_all (\<lambda>(code, req, opt). list_all (\<lambda>(k, spec). (k \<noteq> ''value'' \<and> k \<noteq> ''threshold'') \<or> spec = snd (stringParam k)) (opt @ req)) MessageRegistry"
    by code_simp
  moreover have "(code, req, opt) \<in> set MessageRegistry" "(k, spec) \<in> set (opt @ req)" using assms map_of_SomeD by fast+
  ultimately have "spec = snd (stringParam k)" using assms(3) by (fastforce simp: list_all_iff)
  then show ?thesis by (simp add: valid_string)
qed

lemma set_measured:
  assumes "ValidateMessageParams code ps" "k = ''value'' \<or> k = ''threshold''"
  shows "ValidateMessageParams code (set_param k (PString t) ps)"
proof -
  obtain req opt where r: "map_of MessageRegistry code = Some (req, opt)" "required_present req ps" "params_accepted ps (opt @ req)"
    using assms(1) by (auto simp: ValidateMessageParams_def split: option.split_asm)
  have "params_accepted (set_param k (PString t) ps) (opt @ req)"
    by (rule accepted_set_param [OF r(3)]) (rule measured_are_strings [OF r(1) _ assms(2)])
  then show ?thesis using required_set_param [OF r(2)] r(1) by (simp add: ValidateMessageParams_def)
qed

lemma registered_nonempty: "ValidateMessageParams code ps \<Longrightarrow> code \<noteq> []"
proof
  assume v: "ValidateMessageParams code ps" and "code = []"
  moreover have "map_of MessageRegistry [] = None" by code_simp
  ultimately show False by (simp add: ValidateMessageParams_def)
qed

section \<open>Preservation\<close>

definition full_params :: "AlertEvent \<Rightarrow> string \<Rightarrow> message_params \<Rightarrow> message_params" where
  "full_params e v ps = (let valued = set_param ''value'' (PString v) ps
     in case evThresholdValue e of None \<Rightarrow> valued | Some t \<Rightarrow> set_param ''threshold'' (PString t) valued)"

lemma full_params_threshold: "map_of (full_params e v ps) ''threshold'' = None \<longleftrightarrow> map_of ps ''threshold'' = None"
  by (simp add: full_params_def Let_def map_of_set_param split: option.split)

lemma update_eq:
  assumes "evMessageParams e = Some ps" "evMessageCode e \<noteq> []" "map_of ps ''threshold'' \<noteq> None \<longrightarrow> evThresholdValue e \<noteq> None"
  shows "updateResolvedAlertEvidence ev e v = (case NewMessageRef (evMessageCode e) (full_params e v ps) (alertTechnicalDetail (ev\<lparr>aeTechnicalDetail := []\<rparr>)) of
     None \<Rightarrow> Inl EvalMessageInvalid
   | Some m \<Rightarrow> Inr (e\<lparr>evCurrentValue := Some v, evMessageParams := Some (mrParams m), evMessage := mrTechnicalDetail m\<rparr>))"
  using assms by (auto simp: updateResolvedAlertEvidence_def Let_def full_params_def map_of_set_param)

lemma update_progress:
  assumes "message_ok e"
  shows "\<exists>u. updateResolvedAlertEvidence ev e v = Inr u \<and> message_ok u"
proof -
  from assms obtain ps where ps: "evMessageParams e = Some ps" "ValidateMessageParams (evMessageCode e) ps"
    "map_of ps ''threshold'' \<noteq> None \<longrightarrow> evThresholdValue e \<noteq> None"
    by (auto simp: message_ok_def split: option.split_asm)
  have "ValidateMessageParams (evMessageCode e) (full_params e v ps)"
    using set_measured [OF set_measured [OF ps(2)]] set_measured [OF ps(2)] by (simp add: full_params_def Let_def split: option.split)
  then show ?thesis using ps(3) full_params_threshold [of e v ps]
    by (simp add: update_eq [OF ps(1) registered_nonempty [OF ps(2)] ps(3)] NewMessageRef_def message_ok_def)
qed

lemma resolved_message: "message_ok (resolveAlertEvent e now reason) = message_ok e"
  by (simp add: resolveAlertEvent_def message_ok_def split: option.split)

lemma same_alerts_messages: "same_alerts db db' \<Longrightarrow> messages_ok db' = messages_ok db"
  by (simp add: messages_ok_def same_alerts_fields)

lemma resolve_messages:
  assumes "resolve_event env db ev a v = Inr (db', e)" "messages_ok db" "message_ok a"
  shows "messages_ok db'"
proof -
  from assms(1) obtain u where u: "updateResolvedAlertEvidence ev a v = Inr u" "e = resolveAlertEvent u (aeObservedAt ev) (alertResolutionReason ev)"
    by (auto simp: resolve_event_def Let_def and_then_Inr_conv)
  have "message_ok e" using update_progress [OF assms(3), of ev v] u by (simp add: resolved_message)
  then have "messages_ok (save_event db e)" using messages_save assms(2) by blast
  moreover have "same_alerts (save_event db e) db'" using notify_same [OF resolve_event_Inr(2) [OF assms(1)]] .
  ultimately show ?thesis using same_alerts_messages by blast
qed

lemma retire_messages:
  assumes "retire_event env db ev a = Inr (db', r)" "messages_ok db"
  shows "messages_ok db'"
proof -
  from assms(1) obtain m where m: "scopeInactiveMessage ev = Inr m" and n: "and_then (notify_resolved env (save_event db (retired ev m a)) (evStatus a = StatusFiring) (retired ev m a) (aeObservedAt ev))
      (\<lambda>db1. Inr (db1, evaluationResult (retired ev m a) ''resolved'')) = Inr (db', r)"
    by (auto simp: retire_event_def Let_def retired_def and_then_Inr_conv)
  have "same_alerts (save_event db (retired ev m a)) db'" using n notify_same by (auto simp: and_then_Inr_conv)
  moreover have "message_ok (retired ev m a)" using inactive_typed [OF m] by (simp add: retired_def message_ok_def)
  ultimately show ?thesis using messages_save assms(2) same_alerts_messages by blast
qed

lemma continue_messages:
  assumes "continue_event env db ev candidate threshold v m a = Inr (db', r)" "messages_ok db" "ValidateMessageParams (mrCode m) (mrParams m)"
  shows "messages_ok db'"
proof -
  obtain e t where e: "continued ev candidate threshold v m a = (e, t)" by force
  then have an: "announced env (save_event db e) e (t = ''firing'') (aeObservedAt ev) db'"
    using assms(1) by (auto simp: continue_event_def announced_def and_then_Inr_conv)
  have "evMessageCode e = mrCode m" "evMessageParams e = Some (mrParams m)" "evThresholdValue e = Some threshold"
    using e by (auto simp: continued_def Let_def split: if_split_asm)
  then have "messages_ok (save_event db e)" using messages_save [OF assms(2)] assms(3) by (simp add: message_ok_def)
  then show ?thesis using announced_fields(3) [OF an] by (simp add: messages_ok_def)
qed

lemma open_messages:
  assumes "open_event env db ev target key candidate threshold v m = Inr (db', r)" "messages_ok db" "ValidateMessageParams (mrCode m) (mrParams m)"
  shows "messages_ok db'"
proof -
  let ?e = "new_event db ev target key candidate threshold v m"
  have an: "announced env (with_event db ?e) ?e (ruForTimes candidate \<le> 1) (aeObservedAt ev) db'"
    using assms(1) by (auto simp: open_event_def Let_def announced_def with_event_def and_then_Inr_conv split: if_split_asm)
  have "message_ok ?e" using assms(3) by (simp add: new_event_def Let_def message_ok_def)
  then show ?thesis using announced_fields(3) [OF an] assms(2) by (auto simp: messages_ok_def with_event_def)
qed

lemma known_messages:
  assumes "known_sample env db ev contract target key rules active v = Inr (db', r)" "messages_ok db" "\<And>a. active = Some a \<Longrightarrow> message_ok a"
  shows "messages_ok db'"
proof (cases "matchingAlertRule (effectiveAlertRules rules) v")
  case None
  show ?thesis
  proof (cases active)
    case (Some a)
    then obtain e where "resolve_event env db ev a (FloatString 10 v) = Inr (db', e)"
      using assms(1) None by (auto simp: known_sample_def Let_def and_then_Inr_conv split: prod.split_asm)
    then show ?thesis using resolve_messages assms(2,3) Some by blast
  qed (use assms None in \<open>simp add: known_sample_def Let_def\<close>)
next
  case (Some candidate)
  then obtain th m where t: "buildAlertMessage ev contract target th (FloatString 10 v) = Inr m"
    and o: "(case active of None \<Rightarrow> open_event env db ev (ctKey target) key candidate th (FloatString 10 v) m
      | Some a \<Rightarrow> if evLevel a = ruLevel candidate then continue_event env db ev candidate th (FloatString 10 v) m a
          else and_then (resolve_event env db ev a (FloatString 10 v)) (\<lambda>(db1, _). open_event env db1 ev (ctKey target) key candidate th (FloatString 10 v) m))
      = Inr (db', r)"
    using assms(1) by (cases "parseAlertThreshold (the (ruThresholdValue candidate)) True")
      (simp_all add: known_sample_def Let_def and_then_Inr_conv case_prod_beta, blast)
  note typed = build_typed [OF t]
  show ?thesis
  proof (cases active)
    case None
    then show ?thesis using o open_messages [OF _ assms(2) typed] by simp
  next
    case (Some a)
    show ?thesis
    proof (cases "evLevel a = ruLevel candidate")
      case True
      then show ?thesis using o Some continue_messages [OF _ assms(2) typed] by simp
    next
      case False
      then obtain db1 old where "resolve_event env db ev a (FloatString 10 v) = Inr (db1, old)"
        and op: "open_event env db1 ev (ctKey target) key candidate th (FloatString 10 v) m = Inr (db', r)"
        using o Some by (auto simp: and_then_Inr_conv)
      then have "messages_ok db1" using resolve_messages assms(2,3) Some by blast
      then show ?thesis by (rule open_messages [OF op _ typed])
    qed
  qed
qed

lemma active_message: "messages_ok db \<Longrightarrow> active_event db key = Some a \<Longrightarrow> message_ok a"
  using active_event_Some by (auto simp: messages_ok_def)

lemma mutate_messages:
  assumes "mutate env db ev contract target key rules (active_event db key) = Inr (db', r)" "messages_ok db"
  shows "messages_ok db'"
proof -
  consider "db' = db" | a where "active_event db key = Some a" "retire_event env db ev a = Inr (db', r)"
    | v where "known_sample env db ev contract target key rules (active_event db key) v = Inr (db', r)"
    using assms(1) by (auto simp: mutate_def split: if_split_asm option.split_asm)
  then show ?thesis
  proof cases
    case 3
    then show ?thesis using known_messages assms(2) active_message by blast
  qed (use assms(2) retire_messages in blast)+
qed

end
