(* ===== verification/Spec2Isabelle.thy ===== *)
theory Spec2Isabelle
  imports Upstream_Governor Materialize_Properties Fence_Properties Scheduler_Properties Executor_Properties Delivery_Properties Alert_Properties
begin

text \<open>
  Verification development for new-api-pilot, a control plane that collects usage from many
  upstream sites, aggregates it, and raises alerts.

  Upstream governor (\<^verbatim>\<open>service/upstream_governor.go\<close>): theory \<^verbatim>\<open>Upstream_Governor\<close>.
\<close>

end
